theory Spec2Isabelle
  imports Complex_Main "HOL-Library.Word"
begin

section \<open>Modulation registry (Modulation.h, Modulation.cpp)\<close>

text \<open>
  The enumeration \<^verbatim>\<open>Modulation::ModulationName\<close>, in the order of its declaration.
  Its underlying type is \<^verbatim>\<open>uint16_t\<close>; \<open>name_code\<close> gives the enumerator's value, which
  is the key order of every \<^verbatim>\<open>std::map\<close> keyed by a modulation name.
\<close>

datatype ModulationName =
    NAME_UNKNOWN
  | NAME_AM_SSB | NAME_AM_SSB_WC | NAME_AM_SSB_SC | NAME_AM_DSB | NAME_AM_DSB_WC
  | NAME_AM_DSB_SC | NAME_AM_USB | NAME_AM_LSB
  | NAME_FM | NAME_WBFM
  | NAME_PM
  | NAME_16APSK | NAME_32APSK | NAME_64APSK | NAME_128APSK
  | NAME_OOK | NAME_4ASK | NAME_8ASK
  | NAME_2FSK | NAME_4FSK | NAME_8FSK | NAME_16FSK | NAME_GFSK | NAME_CPFSK | NAME_GMSK
  | NAME_BPSK | NAME_QPSK | NAME_8PSK | NAME_16PSK | NAME_32PSK | NAME_64PSK | NAME_OQPSK
  | NAME_4PAM | NAME_8PAM | NAME_16PAM
  | NAME_4QAM | NAME_8QAM | NAME_16QAM | NAME_32QAM | NAME_64QAM | NAME_128QAM | NAME_256QAM

fun name_code :: "ModulationName \<Rightarrow> nat" where
  "name_code NAME_UNKNOWN = 0"
| "name_code NAME_AM_SSB = 1"
| "name_code NAME_AM_SSB_WC = 2"
| "name_code NAME_AM_SSB_SC = 3"
| "name_code NAME_AM_DSB = 4"
| "name_code NAME_AM_DSB_WC = 5"
| "name_code NAME_AM_DSB_SC = 6"
| "name_code NAME_AM_USB = 7"
| "name_code NAME_AM_LSB = 8"
| "name_code NAME_FM = 9"
| "name_code NAME_WBFM = 10"
| "name_code NAME_PM = 11"
| "name_code NAME_16APSK = 12"
| "name_code NAME_32APSK = 13"
| "name_code NAME_64APSK = 14"
| "name_code NAME_128APSK = 15"
| "name_code NAME_OOK = 16"
| "name_code NAME_4ASK = 17"
| "name_code NAME_8ASK = 18"
| "name_code NAME_2FSK = 19"
| "name_code NAME_4FSK = 20"
| "name_code NAME_8FSK = 21"
| "name_code NAME_16FSK = 22"
| "name_code NAME_GFSK = 23"
| "name_code NAME_CPFSK = 24"
| "name_code NAME_GMSK = 25"
| "name_code NAME_BPSK = 26"
| "name_code NAME_QPSK = 27"
| "name_code NAME_8PSK = 28"
| "name_code NAME_16PSK = 29"
| "name_code NAME_32PSK = 30"
| "name_code NAME_64PSK = 31"
| "name_code NAME_OQPSK = 32"
| "name_code NAME_4PAM = 33"
| "name_code NAME_8PAM = 34"
| "name_code NAME_16PAM = 35"
| "name_code NAME_4QAM = 36"
| "name_code NAME_8QAM = 37"
| "name_code NAME_16QAM = 38"
| "name_code NAME_32QAM = 39"
| "name_code NAME_64QAM = 40"
| "name_code NAME_128QAM = 41"
| "name_code NAME_256QAM = 42"

text \<open>
  A \<^verbatim>\<open>std::map<ModulationName, std::vector<std::string>>\<close> is modelled by the list of
  its entries in iteration order, that is, in strictly increasing key order.
\<close>

type_synonym alias_table = "(ModulationName \<times> string list) list"

definition wf_alias_table :: "alias_table \<Rightarrow> bool" where
  "wf_alias_table tbl = sorted_wrt (<) (map (\<lambda>e. name_code (fst e)) tbl)"

text \<open>The constant \<^verbatim>\<open>Modulation::MODULATION_NAME_ALIAS\<close>.\<close>

definition MODULATION_NAME_ALIAS :: alias_table where
  "MODULATION_NAME_ALIAS =
   [ (NAME_UNKNOWN,   [''''])
   , (NAME_AM_SSB,    [''AM-SSB''])
   , (NAME_AM_SSB_WC, [''AM-SSB WC''])
   , (NAME_AM_SSB_SC, [''AM-SSB SC''])
   , (NAME_AM_DSB,    [''AM-DSB''])
   , (NAME_AM_DSB_WC, [''AM-DSB WC''])
   , (NAME_AM_DSB_SC, [''AM-DSB SC''])
   , (NAME_AM_USB,    [''AM-USB''])
   , (NAME_AM_LSB,    [''AM-LSB''])
   , (NAME_FM,        [''FM''])
   , (NAME_WBFM,      [''WBFM''])
   , (NAME_PM,        [''PM''])
   , (NAME_16APSK,    [''16APSK'', ''APSK16''])
   , (NAME_32APSK,    [''32APSK'', ''APSK32''])
   , (NAME_64APSK,    [''64APSK'', ''APSK64''])
   , (NAME_128APSK,   [''128APSK'', ''APSK128''])
   , (NAME_OOK,       [''OOK'', ''2ASK'', ''ASK2''])
   , (NAME_4ASK,      [''4ASK'', ''ASK4''])
   , (NAME_8ASK,      [''8ASK'', ''ASK8''])
   , (NAME_2FSK,      [''2FSK'', ''FSK2''])
   , (NAME_4FSK,      [''4FSK'', ''FSK4''])
   , (NAME_8FSK,      [''8FSK'', ''FSK8''])
   , (NAME_16FSK,     [''16FSK'', ''FSK16''])
   , (NAME_GFSK,      [''GFSK''])
   , (NAME_CPFSK,     [''CPFSK''])
   , (NAME_GMSK,      [''GMSK''])
   , (NAME_BPSK,      [''BPSK'', ''2PSK'', ''PSK2''])
   , (NAME_QPSK,      [''QPSK'', ''4PSK'', ''PSK4''])
   , (NAME_8PSK,      [''8PSK'', ''PSK8''])
   , (NAME_16PSK,     [''16PSK'', ''PSK16''])
   , (NAME_32PSK,     [''32PSK'', ''PSK32''])
   , (NAME_64PSK,     [''64PSK'', ''PSK64''])
   , (NAME_OQPSK,     [''OQPSK''])
   , (NAME_4PAM,      [''4PAM'', ''PAM4''])
   , (NAME_8PAM,      [''8PAM'', ''PAM8''])
   , (NAME_16PAM,     [''16PAM'', ''PAM16''])
   , (NAME_4QAM,      [''4QAM'', ''QAM4''])
   , (NAME_8QAM,      [''8QAM'', ''QAM8''])
   , (NAME_16QAM,     [''16QAM'', ''QAM16''])
   , (NAME_32QAM,     [''32QAM'', ''QAM32''])
   , (NAME_64QAM,     [''64QAM'', ''QAM64''])
   , (NAME_128QAM,    [''128QAM'', ''QAM128''])
   , (NAME_256QAM,    [''256QAM'', ''QAM256''])
   ]"

text \<open>
  Failures of the C++ containers are values: \<^verbatim>\<open>std::map::at\<close>, \<^verbatim>\<open>std::vector::at\<close>
  and \<^verbatim>\<open>std::string::substr\<close> throw \<^verbatim>\<open>std::out_of_range\<close>.
\<close>

datatype cpp_error = OutOfRange | UndefinedBehaviour | BufferAllocFailed

fun map_at :: "('k \<times> 'v) list \<Rightarrow> 'k \<Rightarrow> cpp_error + 'v" where
  "map_at [] k = Inl OutOfRange"
| "map_at ((k', v) # rest) k = (if k' = k then Inr v else map_at rest k)"

definition vector_at :: "'a list \<Rightarrow> nat \<Rightarrow> cpp_error + 'a" where
  "vector_at xs i = (if i < length xs then Inr (xs ! i) else Inl OutOfRange)"

subsection \<open>getModulationName: lookup of a name by one of its strings\<close>

text \<open>
  The inner loop over the strings of one entry: true when \<open>aString\<close> is one of them
  (\<^verbatim>\<open>compare\<close> is 0 exactly for equal strings).
\<close>

fun alias_found :: "string list \<Rightarrow> string \<Rightarrow> bool" where
  "alias_found [] aString = False"
| "alias_found (s # strVec) aString = (if s = aString then True else alias_found strVec aString)"

text \<open>
  The outer loop over the map: the entry of \<open>NAME_UNKNOWN\<close> is skipped, the first entry
  holding the string ends the search, and \<open>NAME_UNKNOWN\<close> is the result when none does.
\<close>

fun getModulationName_in :: "alias_table \<Rightarrow> string \<Rightarrow> ModulationName" where
  "getModulationName_in [] aString = NAME_UNKNOWN"
| "getModulationName_in ((n, strVec) # rest) aString =
     (if n = NAME_UNKNOWN then getModulationName_in rest aString
      else if alias_found strVec aString then n
      else getModulationName_in rest aString)"

definition getModulationName :: "string \<Rightarrow> ModulationName" where
  "getModulationName aString = getModulationName_in MODULATION_NAME_ALIAS aString"

subsection \<open>getModulationString: the first string of a name\<close>

definition getModulationString_in :: "alias_table \<Rightarrow> ModulationName \<Rightarrow> cpp_error + string" where
  "getModulationString_in tbl aName =
     (case map_at tbl aName of
        Inl e \<Rightarrow> Inl e
      | Inr strVec \<Rightarrow> vector_at strVec 0)"

definition getModulationString :: "ModulationName \<Rightarrow> cpp_error + string" where
  "getModulationString aName = getModulationString_in MODULATION_NAME_ALIAS aName"

subsection \<open>verifyAliasNames: the check made by the constructor\<close>

text \<open>
  The state of the check is the pair of \<open>status\<close> and the out-parameter \<open>aDuplicate\<close>.
  The four nested loops are four functions, innermost first. A \<^verbatim>\<open>break\<close> leaves only
  the loop it stands in.
\<close>

type_synonym verify_state = "bool \<times> string"

text \<open>Loop over \<open>strOneIt\<close>, for one string of the second entry; it stops at the first match.\<close>

fun verify_strOne :: "string list \<Rightarrow> string \<Rightarrow> verify_state \<Rightarrow> verify_state" where
  "verify_strOne [] strTwo st = st"
| "verify_strOne (strOne # strOneVec) strTwo st =
     (if strTwo = strOne then (False, strOne) else verify_strOne strOneVec strTwo st)"

text \<open>Loop over \<open>strTwoIt\<close>: every string of the second entry is compared, match or not.\<close>

fun verify_strTwo :: "string list \<Rightarrow> string list \<Rightarrow> verify_state \<Rightarrow> verify_state" where
  "verify_strTwo strOneVec [] st = st"
| "verify_strTwo strOneVec (strTwo # strTwoVec) st =
     verify_strTwo strOneVec strTwoVec (verify_strOne strOneVec strTwo st)"

text \<open>Loop over \<open>mapItTwo\<close>, the entries after \<open>mapItOne\<close>; an empty vector ends this loop.\<close>

fun verify_mapTwo :: "string list \<Rightarrow> alias_table \<Rightarrow> verify_state \<Rightarrow> verify_state" where
  "verify_mapTwo strOneVec [] st = st"
| "verify_mapTwo strOneVec ((n2, strTwoVec) # rest) st =
     (if strTwoVec = [] then (False, snd st)
      else verify_mapTwo strOneVec rest (verify_strTwo strOneVec strTwoVec st))"

text \<open>Loop over \<open>mapItOne\<close>; \<open>NAME_UNKNOWN\<close> is skipped, an empty vector ends the check.\<close>

fun verify_mapOne :: "alias_table \<Rightarrow> verify_state \<Rightarrow> verify_state" where
  "verify_mapOne [] st = st"
| "verify_mapOne ((n1, strOneVec) # rest) st =
     (if n1 = NAME_UNKNOWN then verify_mapOne rest st
      else if strOneVec = [] then (False, snd st)
      else verify_mapOne rest (verify_mapTwo strOneVec rest st))"

text \<open>
  \<open>verifyAliasNames_in tbl aDuplicate\<close> returns the status and the final content of the
  out-parameter. The source reads the constant table; the table is a parameter here so
  that the check is stated for every table of its type.
\<close>

definition verifyAliasNames_in :: "alias_table \<Rightarrow> string \<Rightarrow> bool \<times> string" where
  "verifyAliasNames_in tbl aDuplicate = verify_mapOne tbl (True, aDuplicate)"

definition verifyAliasNames :: "string \<Rightarrow> bool \<times> string" where
  "verifyAliasNames aDuplicate = verifyAliasNames_in MODULATION_NAME_ALIAS aDuplicate"

section \<open>Dataset (Dataset.h, Dataset.cpp)\<close>

text \<open>
  \<^verbatim>\<open>IQPoint\<close> is a pair of \<^verbatim>\<open>float\<close>s. A finite float is taken as the real number it
  denotes; infinities and NaN have no counterpart, and results the source computes in
  \<^verbatim>\<open>double\<close> pass through an explicit rounding function where they are rounded.
\<close>

type_synonym IQPoint = "real \<times> real"

type_synonym FrameData = "IQPoint list"

record SignalData =
  frameDataVec :: "FrameData list"
  maxVal :: real

type_synonym ModulationSnrPair = "ModulationName \<times> int"

type_synonym ModulationSnrSignalDataMap = "ModulationSnrPair \<rightharpoonup> SignalData"

datatype DatasetSource =
    DATASET_SOURCE_RADIOML_2016_10A
  | DATASET_SOURCE_RADIOML_2018_01
  | DATASET_SOURCE_HISARMOD_2019_1

text \<open>
  The four constant maps of \<^verbatim>\<open>Dataset\<close> have an entry for each of the three sources, so
  \<^verbatim>\<open>at\<close> on them is total.
\<close>

fun FRAME_LENGTH :: "DatasetSource \<Rightarrow> nat" where
  "FRAME_LENGTH DATASET_SOURCE_RADIOML_2016_10A = 128"
| "FRAME_LENGTH DATASET_SOURCE_RADIOML_2018_01 = 1024"
| "FRAME_LENGTH DATASET_SOURCE_HISARMOD_2019_1 = 1024"

fun FRAMES_PER_MOD_SNR_NR :: "DatasetSource \<Rightarrow> nat" where
  "FRAMES_PER_MOD_SNR_NR DATASET_SOURCE_RADIOML_2016_10A = 1000"
| "FRAMES_PER_MOD_SNR_NR DATASET_SOURCE_RADIOML_2018_01 = 4096"
| "FRAMES_PER_MOD_SNR_NR DATASET_SOURCE_HISARMOD_2019_1 = 500"

fun MODULATIONS_NR :: "DatasetSource \<Rightarrow> nat" where
  "MODULATIONS_NR DATASET_SOURCE_RADIOML_2016_10A = 11"
| "MODULATIONS_NR DATASET_SOURCE_RADIOML_2018_01 = 24"
| "MODULATIONS_NR DATASET_SOURCE_HISARMOD_2019_1 = 26"

fun SNRS_NR :: "DatasetSource \<Rightarrow> nat" where
  "SNRS_NR DATASET_SOURCE_RADIOML_2016_10A = 20"
| "SNRS_NR DATASET_SOURCE_RADIOML_2018_01 = 26"
| "SNRS_NR DATASET_SOURCE_HISARMOD_2019_1 = 20"

section \<open>Transceivers (AdiTrx.h, AdiTrx.cpp and the three variants)\<close>

text \<open>
  \<^verbatim>\<open>IntegerRange\<close>: three \<^verbatim>\<open>int64_t\<close> fields \<^verbatim>\<open>min\<close>, \<^verbatim>\<open>step\<close>, \<^verbatim>\<open>max\<close>. The values are only
  stored and compared, so they are integers.
\<close>

record IntegerRange =
  min_limit :: int
  step_limit :: int
  max_limit :: int

text \<open>
  \<^verbatim>\<open>DoubleRange\<close>: three \<^verbatim>\<open>double\<close> fields \<^verbatim>\<open>min\<close>, \<^verbatim>\<open>step\<close>, \<^verbatim>\<open>max\<close>. The values are reals: a
  NaN, which fails every comparison and so is rejected like a value outside the range,
  is not modelled.
\<close>

record DoubleRange =
  min_dbl :: real
  step_dbl :: real
  max_dbl :: real

text \<open>
  The attribute bus. A channel pointer is named by the member that holds it. A write of
  a \<^verbatim>\<open>long long\<close> attribute returns 0 on success and a negative error code otherwise;
  the bus is a parameter of every operation that writes, and each write that is attempted
  is appended to \<open>attr_writes\<close>. The writes of a \<^verbatim>\<open>double\<close> attribute have a bus and a list
  of their own, \<open>attr_writes_double\<close>.
\<close>

datatype iio_channel = TxPhyChan | TxLoChan | TxNcoChan

type_synonym iio_bus = "iio_channel \<Rightarrow> string \<Rightarrow> int \<Rightarrow> int"

type_synonym iio_bus_double = "iio_channel \<Rightarrow> string \<Rightarrow> real \<Rightarrow> int"

record AdiTrx =
  mTxBandwidthParams :: IntegerRange
  mTxBandwidth :: int
  mTxSamplingFrequencyParams :: IntegerRange
  mTxSamplingFrequency :: int
  mTxLoFrequencyParams :: IntegerRange
  mTxLoFrequency :: int
  mTxHwGainDbParams :: DoubleRange
  mTxHwGainDb :: real
  mTxNcoGainScale :: real
  mSignalData :: SignalData
  mFrameLength :: "16 word"
  mFramesNr :: "16 word"
  mTxBufIqPairsCount :: nat
  attr_writes :: "(iio_channel \<times> string \<times> int) list"
  attr_writes_double :: "(iio_channel \<times> string \<times> real) list"

definition iio_channel_attr_write_longlong ::
    "iio_bus \<Rightarrow> iio_channel \<Rightarrow> string \<Rightarrow> int \<Rightarrow> AdiTrx \<Rightarrow> int \<times> AdiTrx" where
  "iio_channel_attr_write_longlong bus chn attr v st =
     (bus chn attr v, st\<lparr>attr_writes := attr_writes st @ [(chn, attr, v)]\<rparr>)"

definition iio_channel_attr_write_double ::
    "iio_bus_double \<Rightarrow> iio_channel \<Rightarrow> string \<Rightarrow> real \<Rightarrow> AdiTrx \<Rightarrow> int \<times> AdiTrx" where
  "iio_channel_attr_write_double dbus chn attr v st =
     (dbus chn attr v, st\<lparr>attr_writes_double := attr_writes_double st @ [(chn, attr, v)]\<rparr>)"

text \<open>The constructor \<^verbatim>\<open>AdiTrx::AdiTrx()\<close>: every member is zero, no signal is loaded.\<close>

definition AdiTrx_init :: AdiTrx where
  "AdiTrx_init =
     \<lparr> mTxBandwidthParams = \<lparr>min_limit = 0, step_limit = 0, max_limit = 0\<rparr>,
       mTxBandwidth = 0,
       mTxSamplingFrequencyParams = \<lparr>min_limit = 0, step_limit = 0, max_limit = 0\<rparr>,
       mTxSamplingFrequency = 0,
       mTxLoFrequencyParams = \<lparr>min_limit = 0, step_limit = 0, max_limit = 0\<rparr>,
       mTxLoFrequency = 0,
       mTxHwGainDbParams = \<lparr>min_dbl = 0, step_dbl = 0, max_dbl = 0\<rparr>,
       mTxHwGainDb = 0,
       mTxNcoGainScale = 0,
       mSignalData = \<lparr>frameDataVec = [], maxVal = 0\<rparr>,
       mFrameLength = 0,
       mFramesNr = 0,
       mTxBufIqPairsCount = 0,
       attr_writes = [],
       attr_writes_double = [] \<rparr>"

subsection \<open>Setters\<close>

definition AdiTrxAd9361_setTxLoFrequency :: "iio_bus \<Rightarrow> AdiTrx \<Rightarrow> int \<Rightarrow> bool \<times> AdiTrx" where
  "AdiTrxAd9361_setTxLoFrequency bus st aFrequency =
     (let status = (aFrequency \<ge> min_limit (mTxLoFrequencyParams st)
                    \<and> aFrequency \<le> max_limit (mTxLoFrequencyParams st))
      in if status then
           (let (rc, st1) = iio_channel_attr_write_longlong bus TxLoChan ''frequency'' aFrequency st
            in if 0 = rc then (True, st1\<lparr>mTxLoFrequency := aFrequency\<rparr>) else (False, st1))
         else (False, st))"

definition AdiTrxAdrv9009_setTxLoFrequency :: "iio_bus \<Rightarrow> AdiTrx \<Rightarrow> int \<Rightarrow> bool \<times> AdiTrx" where
  "AdiTrxAdrv9009_setTxLoFrequency bus st aFrequency =
     (let status = (aFrequency \<ge> min_limit (mTxLoFrequencyParams st)
                    \<and> aFrequency \<le> max_limit (mTxLoFrequencyParams st))
      in if status then
           (let (rc, st1) = iio_channel_attr_write_longlong bus TxLoChan ''frequency'' aFrequency st
            in if 0 = rc then (True, st1\<lparr>mTxLoFrequency := aFrequency\<rparr>) else (False, st1))
         else (False, st))"

definition AdiTrxAd9081_setTxLoFrequency :: "iio_bus \<Rightarrow> AdiTrx \<Rightarrow> int \<Rightarrow> bool \<times> AdiTrx" where
  "AdiTrxAd9081_setTxLoFrequency bus st aFrequency =
     (let status = (aFrequency \<ge> min_limit (mTxLoFrequencyParams st)
                    \<and> aFrequency \<le> max_limit (mTxLoFrequencyParams st))
      in if status then
           (let (rc, st1) = iio_channel_attr_write_longlong bus TxNcoChan ''main_nco_frequency'' aFrequency st
            in if 0 = rc then (True, st1\<lparr>mTxLoFrequency := aFrequency\<rparr>) else (False, st1))
         else (False, st))"

definition AdiTrxAd9361_setTxBandwidth :: "iio_bus \<Rightarrow> AdiTrx \<Rightarrow> int \<Rightarrow> bool \<times> AdiTrx" where
  "AdiTrxAd9361_setTxBandwidth bus st aBandwidth =
     (let status = (aBandwidth \<ge> min_limit (mTxBandwidthParams st)
                    \<and> aBandwidth \<le> max_limit (mTxBandwidthParams st))
      in if status then
           (let (rc, st1) = iio_channel_attr_write_longlong bus TxPhyChan ''rf_bandwidth'' aBandwidth st
            in if 0 = rc then (True, st1\<lparr>mTxBandwidth := aBandwidth\<rparr>) else (False, st1))
         else (False, st))"

definition AdiTrxAd9361_setTxSamplingFrequency :: "iio_bus \<Rightarrow> AdiTrx \<Rightarrow> int \<Rightarrow> bool \<times> AdiTrx" where
  "AdiTrxAd9361_setTxSamplingFrequency bus st aFrequency =
     (let status = (aFrequency \<ge> min_limit (mTxSamplingFrequencyParams st)
                    \<and> aFrequency \<le> max_limit (mTxSamplingFrequencyParams st))
      in if status then
           (let (rc, st1) = iio_channel_attr_write_longlong bus TxPhyChan ''sampling_frequency'' aFrequency st
            in if 0 = rc then (True, st1\<lparr>mTxSamplingFrequency := aFrequency\<rparr>) else (False, st1))
         else (False, st))"

text \<open>
  \<^verbatim>\<open>setTxHwGain\<close> of AD9361 and of ADRV9009 validate against the cached range of the gain
  and write a \<^verbatim>\<open>double\<close> attribute.
\<close>

definition AdiTrxAd9361_setTxHwGain :: "iio_bus_double \<Rightarrow> AdiTrx \<Rightarrow> real \<Rightarrow> bool \<times> AdiTrx" where
  "AdiTrxAd9361_setTxHwGain dbus st aHwGainDb =
     (let status = (aHwGainDb \<ge> min_dbl (mTxHwGainDbParams st)
                    \<and> aHwGainDb \<le> max_dbl (mTxHwGainDbParams st))
      in if status then
           (let (rc, st1) = iio_channel_attr_write_double dbus TxPhyChan ''hardwaregain'' aHwGainDb st
            in if 0 = rc then (True, st1\<lparr>mTxHwGainDb := aHwGainDb\<rparr>) else (False, st1))
         else (False, st))"

definition AdiTrxAdrv9009_setTxHwGain :: "iio_bus_double \<Rightarrow> AdiTrx \<Rightarrow> real \<Rightarrow> bool \<times> AdiTrx" where
  "AdiTrxAdrv9009_setTxHwGain dbus st aHwGainDb =
     (let status = (aHwGainDb \<ge> min_dbl (mTxHwGainDbParams st)
                    \<and> aHwGainDb \<le> max_dbl (mTxHwGainDbParams st))
      in if status then
           (let (rc, st1) = iio_channel_attr_write_double dbus TxPhyChan ''hardwaregain'' aHwGainDb st
            in if 0 = rc then (True, st1\<lparr>mTxHwGainDb := aHwGainDb\<rparr>) else (False, st1))
         else (False, st))"

text \<open>
  \<^verbatim>\<open>setTxNcoGainScale\<close> of AD9081 validates against the literal range \<open>[0, 1]\<close> and writes;
  it does not assign \<^verbatim>\<open>mTxNcoGainScale\<close>, which only the getter does.
\<close>

definition AdiTrxAd9081_setTxNcoGainScale :: "iio_bus_double \<Rightarrow> AdiTrx \<Rightarrow> real \<Rightarrow> bool \<times> AdiTrx" where
  "AdiTrxAd9081_setTxNcoGainScale dbus st aGainScale =
     (let status = (aGainScale \<ge> 0 \<and> aGainScale \<le> 1)
      in if status then
           (let (rc, st1) = iio_channel_attr_write_double dbus TxNcoChan
                              ''channel_nco_gain_scale'' aGainScale st
            in (0 = rc, st1))
         else (False, st))"

text \<open>
  The setters of the parameters that a variant pins or does not have ignore their
  argument and return false: the bandwidth and the sampling frequency of ADRV9009 and of
  AD9081, the hardware gain of AD9081, and the NCO gain scale of AD9361 and of ADRV9009.
\<close>

definition AdiTrxAdrv9009_setTxBandwidth :: "AdiTrx \<Rightarrow> int \<Rightarrow> bool \<times> AdiTrx" where
  "AdiTrxAdrv9009_setTxBandwidth st aBandwidth = (False, st)"

definition AdiTrxAdrv9009_setTxSamplingFrequency :: "AdiTrx \<Rightarrow> int \<Rightarrow> bool \<times> AdiTrx" where
  "AdiTrxAdrv9009_setTxSamplingFrequency st aFrequency = (False, st)"

definition AdiTrxAdrv9009_setTxNcoGainScale :: "AdiTrx \<Rightarrow> real \<Rightarrow> bool \<times> AdiTrx" where
  "AdiTrxAdrv9009_setTxNcoGainScale st aGainScale = (False, st)"

definition AdiTrxAd9361_setTxNcoGainScale :: "AdiTrx \<Rightarrow> real \<Rightarrow> bool \<times> AdiTrx" where
  "AdiTrxAd9361_setTxNcoGainScale st aGainScale = (False, st)"

definition AdiTrxAd9081_setTxBandwidth :: "AdiTrx \<Rightarrow> int \<Rightarrow> bool \<times> AdiTrx" where
  "AdiTrxAd9081_setTxBandwidth st aBandwidth = (False, st)"

definition AdiTrxAd9081_setTxHwGain :: "AdiTrx \<Rightarrow> real \<Rightarrow> bool \<times> AdiTrx" where
  "AdiTrxAd9081_setTxHwGain st aHwGainDb = (False, st)"

definition AdiTrxAd9081_setTxSamplingFrequency :: "AdiTrx \<Rightarrow> int \<Rightarrow> bool \<times> AdiTrx" where
  "AdiTrxAd9081_setTxSamplingFrequency st aFrequency = (False, st)"

text \<open>
  \<^verbatim>\<open>TxHal::setTxLoFrequency\<close> forwards to the active variant; with no active variant it
  returns false.
\<close>

datatype TxDevice = TX_DEVICE_UNKNOWN | TX_DEVICE_AD9361 | TX_DEVICE_AD9081 | TX_DEVICE_ADRV9009

fun TxHal_setTxLoFrequency :: "TxDevice \<Rightarrow> iio_bus \<Rightarrow> AdiTrx \<Rightarrow> int \<Rightarrow> bool \<times> AdiTrx" where
  "TxHal_setTxLoFrequency TX_DEVICE_AD9361 bus st aFrequency = AdiTrxAd9361_setTxLoFrequency bus st aFrequency"
| "TxHal_setTxLoFrequency TX_DEVICE_AD9081 bus st aFrequency = AdiTrxAd9081_setTxLoFrequency bus st aFrequency"
| "TxHal_setTxLoFrequency TX_DEVICE_ADRV9009 bus st aFrequency = AdiTrxAdrv9009_setTxLoFrequency bus st aFrequency"
| "TxHal_setTxLoFrequency TX_DEVICE_UNKNOWN bus st aFrequency = (False, st)"

text \<open>
  \<^verbatim>\<open>TxHal::setTxNcoGainScale\<close> forwards to the active variant. \<^verbatim>\<open>TxHal::setTxSamplingFrequency\<close>
  forwards to AD9361 only; for the two other variants it does nothing and returns false.
\<close>

fun TxHal_setTxNcoGainScale :: "TxDevice \<Rightarrow> iio_bus_double \<Rightarrow> AdiTrx \<Rightarrow> real \<Rightarrow> bool \<times> AdiTrx" where
  "TxHal_setTxNcoGainScale TX_DEVICE_AD9361 dbus st aGainScale = AdiTrxAd9361_setTxNcoGainScale st aGainScale"
| "TxHal_setTxNcoGainScale TX_DEVICE_AD9081 dbus st aGainScale = AdiTrxAd9081_setTxNcoGainScale dbus st aGainScale"
| "TxHal_setTxNcoGainScale TX_DEVICE_ADRV9009 dbus st aGainScale = AdiTrxAdrv9009_setTxNcoGainScale st aGainScale"
| "TxHal_setTxNcoGainScale TX_DEVICE_UNKNOWN dbus st aGainScale = (False, st)"

fun TxHal_setTxSamplingFrequency :: "TxDevice \<Rightarrow> iio_bus \<Rightarrow> AdiTrx \<Rightarrow> int \<Rightarrow> bool \<times> AdiTrx" where
  "TxHal_setTxSamplingFrequency TX_DEVICE_AD9361 bus st aFrequency = AdiTrxAd9361_setTxSamplingFrequency bus st aFrequency"
| "TxHal_setTxSamplingFrequency TX_DEVICE_AD9081 bus st aFrequency = (False, st)"
| "TxHal_setTxSamplingFrequency TX_DEVICE_ADRV9009 bus st aFrequency = (False, st)"
| "TxHal_setTxSamplingFrequency TX_DEVICE_UNKNOWN bus st aFrequency = (False, st)"

text \<open>\<^verbatim>\<open>AdiTrxAdrv9009::getTxLoFrequencyParams\<close> sets the hard-coded range and returns true.\<close>

definition AdiTrxAdrv9009_getTxLoFrequencyParams :: "AdiTrx \<Rightarrow> bool \<times> AdiTrx" where
  "AdiTrxAdrv9009_getTxLoFrequencyParams st =
     (True, st\<lparr>mTxLoFrequencyParams :=
                 \<lparr>min_limit = 70000000, step_limit = 1, max_limit = 6000000000\<rparr>\<rparr>)"

text \<open>
  \<^verbatim>\<open>AdiTrxAdrv9009::getTxSamplingFrequencyParams\<close> pins the sampling frequency, and
  \<^verbatim>\<open>AdiTrxAdrv9009::getTxHwGainParams\<close> sets the hard-coded range of the gain.
\<close>

definition AdiTrxAdrv9009_getTxSamplingFrequencyParams :: "AdiTrx \<Rightarrow> bool \<times> AdiTrx" where
  "AdiTrxAdrv9009_getTxSamplingFrequencyParams st =
     (True, st\<lparr>mTxSamplingFrequencyParams :=
                 \<lparr>min_limit = 122880000, step_limit = 0, max_limit = 122880000\<rparr>\<rparr>)"

definition AdiTrxAdrv9009_getTxHwGainParams :: "AdiTrx \<Rightarrow> bool \<times> AdiTrx" where
  "AdiTrxAdrv9009_getTxHwGainParams st =
     (True, st\<lparr>mTxHwGainDbParams := \<lparr>min_dbl = - 30, step_dbl = 5 / 100, max_dbl = 0\<rparr>\<rparr>)"

subsection \<open>getSignalData\<close>

text \<open>
  The three assignments in source order. \<^verbatim>\<open>mFramesNr\<close> and \<^verbatim>\<open>mFrameLength\<close> are
  \<^verbatim>\<open>uint16_t\<close>: the sizes are reduced modulo \<open>2 ^ 16\<close>. \<^verbatim>\<open>at( 0 )\<close> on an empty vector throws
  after the first two assignments have been made; the result is the exception, if any,
  and the state reached.
\<close>

definition getSignalData :: "AdiTrx \<Rightarrow> SignalData \<Rightarrow> cpp_error option \<times> AdiTrx" where
  "getSignalData st aSignalData =
     (let st1 = st\<lparr>mSignalData := aSignalData\<rparr>;
          st2 = st1\<lparr>mFramesNr := of_nat (length (frameDataVec aSignalData))\<rparr>
      in case vector_at (frameDataVec aSignalData) 0 of
           Inl e \<Rightarrow> (Some e, st2)
         | Inr frame0 \<Rightarrow> (None, st2\<lparr>mFrameLength := of_nat (length frame0)\<rparr>))"

subsection \<open>startTxStreaming\<close>

text \<open>
  \<^verbatim>\<open>static_cast<int16_t>\<close> of a \<^verbatim>\<open>double\<close> truncates toward zero; when the truncated value
  does not fit \<^verbatim>\<open>int16_t\<close> the conversion is undefined. The shift is made on the promoted
  \<^verbatim>\<open>int\<close>, and the store into the \<^verbatim>\<open>int16_t\<close> slot keeps the low 16 bits.
\<close>

definition trunc_toward_zero :: "real \<Rightarrow> int" where
  "trunc_toward_zero x = (if 0 \<le> x then \<lfloor>x\<rfloor> else \<lceil>x\<rceil>)"

definition cast_i16 :: "real \<Rightarrow> cpp_error + int" where
  "cast_i16 x =
     (let t = trunc_toward_zero x
      in if - 32768 \<le> t \<and> t \<le> 32767 then Inr t else Inl UndefinedBehaviour)"

definition int16_wrap :: "int \<Rightarrow> int" where
  "int16_wrap v = (v + 32768) mod 65536 - 32768"

text \<open>
  \<open>SCALE_RATIO\<close> is the \<^verbatim>\<open>double\<close> quotient \<open>K / maxVal\<close>, \<open>K\<close> being 2047.0, 8191.0 or
  32767.0; \<open>rnd\<close> is the rounding of a \<^verbatim>\<open>double\<close> operation. With \<open>maxVal = 0\<close> the
  quotient is infinite and every product with it is infinite or NaN: there is no real
  value (\<open>None\<close>), and the conversion of such a product to \<^verbatim>\<open>int16_t\<close> is undefined.
\<close>

definition SCALE_RATIO :: "(real \<Rightarrow> real) \<Rightarrow> real \<Rightarrow> real \<Rightarrow> real option" where
  "SCALE_RATIO rnd K m = (if m = 0 then None else Some (rnd (K / m)))"

definition convert_component :: "(real \<Rightarrow> real) \<Rightarrow> real option \<Rightarrow> nat \<Rightarrow> real \<Rightarrow> cpp_error + int" where
  "convert_component rnd scale S x =
     (case scale of
        None \<Rightarrow> Inl UndefinedBehaviour
      | Some sc \<Rightarrow>
          (case cast_i16 (rnd (x * sc)) of
             Inl e \<Rightarrow> Inl e
           | Inr v \<Rightarrow> Inr (int16_wrap (v * 2 ^ S))))"

text \<open>
  One pass of the loop body, for the slot with counter \<open>i\<close> (a \<^verbatim>\<open>uint32_t\<close>; it stays
  below the slot count, which is below \<open>2 ^ 31\<close>). \<open>crtFrame\<close> and \<open>crtPoint\<close> are
  \<^verbatim>\<open>uint16_t\<close>. The result is the pair written to the slot.
\<close>

definition startTx_slot ::
    "(real \<Rightarrow> real) \<Rightarrow> real \<Rightarrow> nat \<Rightarrow> AdiTrx \<Rightarrow> nat \<Rightarrow> cpp_error + (int \<times> int)" where
  "startTx_slot rnd K S st i =
     (let crtFrame = (i div unat (mFrameLength st)) mod 65536;
          crtPoint = (if crtFrame \<noteq> 0 then i mod unat (mFrameLength st) else i) mod 65536
      in case vector_at (frameDataVec (mSignalData st)) crtFrame of
           Inl e \<Rightarrow> Inl e
         | Inr frame \<Rightarrow>
             (case vector_at frame crtPoint of
                Inl e \<Rightarrow> Inl e
              | Inr pt \<Rightarrow>
                  (let scale = SCALE_RATIO rnd K (maxVal (mSignalData st))
                   in case convert_component rnd scale S (fst pt) of
                        Inl e \<Rightarrow> Inl e
                      | Inr out_i \<Rightarrow>
                          (case convert_component rnd scale S (snd pt) of
                             Inl e \<Rightarrow> Inl e
                           | Inr out_q \<Rightarrow> Inr (out_i, out_q)))))"

text \<open>The loop over the slots of the buffer, first to last; it ends at the first failure.\<close>

fun tx_fill :: "(nat \<Rightarrow> cpp_error + (int \<times> int)) \<Rightarrow> nat list \<Rightarrow> cpp_error + (int \<times> int) list" where
  "tx_fill f [] = Inr []"
| "tx_fill f (i # slots) =
     (case f i of
        Inl e \<Rightarrow> Inl e
      | Inr p \<Rightarrow> (case tx_fill f slots of Inl e \<Rightarrow> Inl e | Inr ps \<Rightarrow> Inr (p # ps)))"

text \<open>
  The body shared by the three \<^verbatim>\<open>startTxStreaming\<close>, which differ in the constant \<open>K\<close> and
  the shift \<open>S\<close> only. \<open>create_ok n\<close> tells whether \<^verbatim>\<open>iio_device_create_buffer\<close> returns a
  buffer of \<open>n\<close> slots. The product of the two \<^verbatim>\<open>uint16_t\<close> is an \<^verbatim>\<open>int\<close> product; with a
  product of 0 \<^verbatim>\<open>resetTxBuffer\<close> returns true and leaves \<^verbatim>\<open>mTxBuf\<close> null, which the body
  then dereferences. The result is the state and the buffer pushed, if one is pushed.
\<close>

definition startTxStreaming_body ::
    "(real \<Rightarrow> real) \<Rightarrow> real \<Rightarrow> nat \<Rightarrow> (nat \<Rightarrow> bool) \<Rightarrow> AdiTrx
       \<Rightarrow> cpp_error + (AdiTrx \<times> (int \<times> int) list option)" where
  "startTxStreaming_body rnd K S create_ok st =
     (let n = unat (mFrameLength st) * unat (mFramesNr st)
      in if 2 ^ 31 \<le> n then Inl UndefinedBehaviour
         else
           (let st1 = st\<lparr>mTxBufIqPairsCount := n\<rparr>
            in if n = 0 then Inl UndefinedBehaviour
               else if \<not> create_ok n then Inr (st1, None)
               else
                 (case tx_fill (startTx_slot rnd K S st1) [0..<n] of
                    Inl e \<Rightarrow> Inl e
                  | Inr buf \<Rightarrow> Inr (st1, Some buf))))"

definition AdiTrxAd9361_startTxStreaming ::
    "(real \<Rightarrow> real) \<Rightarrow> (nat \<Rightarrow> bool) \<Rightarrow> AdiTrx \<Rightarrow> cpp_error + (AdiTrx \<times> (int \<times> int) list option)" where
  "AdiTrxAd9361_startTxStreaming rnd create_ok st = startTxStreaming_body rnd 2047 4 create_ok st"

definition AdiTrxAdrv9009_startTxStreaming ::
    "(real \<Rightarrow> real) \<Rightarrow> (nat \<Rightarrow> bool) \<Rightarrow> AdiTrx \<Rightarrow> cpp_error + (AdiTrx \<times> (int \<times> int) list option)" where
  "AdiTrxAdrv9009_startTxStreaming rnd create_ok st = startTxStreaming_body rnd 8191 2 create_ok st"

definition AdiTrxAd9081_startTxStreaming ::
    "(real \<Rightarrow> real) \<Rightarrow> (nat \<Rightarrow> bool) \<Rightarrow> AdiTrx \<Rightarrow> cpp_error + (AdiTrx \<times> (int \<times> int) list option)" where
  "AdiTrxAd9081_startTxStreaming rnd create_ok st = startTxStreaming_body rnd 32767 0 create_ok st"

fun TxHal_startStreaming ::
    "TxDevice \<Rightarrow> (real \<Rightarrow> real) \<Rightarrow> (nat \<Rightarrow> bool) \<Rightarrow> AdiTrx
       \<Rightarrow> cpp_error + (AdiTrx \<times> (int \<times> int) list option)" where
  "TxHal_startStreaming TX_DEVICE_AD9361 rnd create_ok st = AdiTrxAd9361_startTxStreaming rnd create_ok st"
| "TxHal_startStreaming TX_DEVICE_AD9081 rnd create_ok st = AdiTrxAd9081_startTxStreaming rnd create_ok st"
| "TxHal_startStreaming TX_DEVICE_ADRV9009 rnd create_ok st = AdiTrxAdrv9009_startTxStreaming rnd create_ok st"
| "TxHal_startStreaming TX_DEVICE_UNKNOWN rnd create_ok st = Inr (st, None)"

text \<open>
  The width of the DAC of each variant, as the comments of the three bodies give it
  (12-bit, 14-bit and 16-bit).
\<close>

fun dac_width :: "TxDevice \<Rightarrow> nat" where
  "dac_width TX_DEVICE_AD9361 = 12"
| "dac_width TX_DEVICE_ADRV9009 = 14"
| "dac_width TX_DEVICE_AD9081 = 16"
| "dac_width TX_DEVICE_UNKNOWN = 0"

section \<open>Dataset parsers (DatasetParser.h, DatasetParser.cpp)\<close>

text \<open>
  The members of \<^verbatim>\<open>DatasetParser\<close> that the parsers write. The file is a parameter of the
  parse functions, so \<^verbatim>\<open>mFileName\<close> is left out.
\<close>

record DatasetParser =
  mStatus :: bool
  mUniqueModVec :: "ModulationName list"
  mUniqueSnrVec :: "int list"
  mSingleModulation :: ModulationName
  mMap :: ModulationSnrSignalDataMap

text \<open>The constructor: status true, no single modulation, empty containers.\<close>

definition DatasetParser_init :: DatasetParser where
  "DatasetParser_init =
     \<lparr> mStatus = True, mUniqueModVec = [], mUniqueSnrVec = [],
       mSingleModulation = NAME_UNKNOWN, mMap = Map.empty \<rparr>"

text \<open>
  \<^verbatim>\<open>std::map::insert\<close> keeps the value of a key that is already present.
\<close>

definition map_insert :: "('k \<rightharpoonup> 'v) \<Rightarrow> 'k \<Rightarrow> 'v \<Rightarrow> ('k \<rightharpoonup> 'v)" where
  "map_insert m k v = (case m k of None \<Rightarrow> m(k \<mapsto> v) | Some old \<Rightarrow> m)"

text \<open>
  \<^verbatim>\<open>removeDuplicates\<close> collects the elements in an unordered set and sorts them: the
  result is the sorted list of the distinct elements. Modulation names are ordered by
  their enumerator values.
\<close>

definition removeDuplicates_int :: "int list \<Rightarrow> int list" where
  "removeDuplicates_int aVector = sort (remdups aVector)"

definition removeDuplicates_mod :: "ModulationName list \<Rightarrow> ModulationName list" where
  "removeDuplicates_mod aVector = sort_key name_code (remdups aVector)"

section \<open>Text-tabular parser (CsvParser.cpp)\<close>

subsection \<open>Strings\<close>

text \<open>
  \<^verbatim>\<open>s.find( c, pos )\<close> for a one-character string \<open>c\<close>: the first index at or after \<open>pos\<close>
  that holds \<open>c\<close>, \<open>None\<close> for \<^verbatim>\<open>npos\<close>. \<^verbatim>\<open>s.substr( pos, len )\<close> is called with
  \<open>pos \<le> size\<close> everywhere in the parser, where it cannot throw.
\<close>

primrec find_index :: "char \<Rightarrow> string \<Rightarrow> nat option" where
  "find_index c [] = None"
| "find_index c (x # xs) = (if x = c then Some 0 else map_option Suc (find_index c xs))"

definition string_find :: "string \<Rightarrow> char \<Rightarrow> nat \<Rightarrow> nat option" where
  "string_find s c pos = map_option (\<lambda>i. pos + i) (find_index c (drop pos s))"

definition substr :: "string \<Rightarrow> nat \<Rightarrow> nat \<Rightarrow> string" where
  "substr s pos len = take len (drop pos s)"

text \<open>
  \<^verbatim>\<open>atof\<close> of the C library, for decimal input: leading white space, an optional sign,
  digits with an optional point, and an exponent when \<open>e\<close> or \<open>E\<close> is followed by an
  optionally signed digit sequence; the longest such prefix is converted and the rest of
  the string is ignored; 0 when there is no digit. The value is the exact decimal value:
  the rounding to \<^verbatim>\<open>double\<close>, and to \<^verbatim>\<open>float\<close> at the assignment, is not modelled, nor are
  the hexadecimal, infinity and NaN notations.
\<close>

definition is_space :: "char \<Rightarrow> bool" where
  "is_space c = (c \<in> set [CHR '' '', CHR 0x09, CHR 0x0A, CHR 0x0B, CHR 0x0C, CHR 0x0D])"

definition is_digit :: "char \<Rightarrow> bool" where
  "is_digit c = (c \<in> set ''0123456789'')"

definition digits_value :: "string \<Rightarrow> nat" where
  "digits_value ds = foldl (\<lambda>a c. 10 * a + (of_char c - 48)) 0 ds"

definition skip_sign :: "string \<Rightarrow> string" where
  "skip_sign s = (if s \<noteq> [] \<and> (hd s = CHR ''-'' \<or> hd s = CHR ''+'') then tl s else s)"

definition atof_exponent :: "string \<Rightarrow> int" where
  "atof_exponent r =
     (if r \<noteq> [] \<and> (hd r = CHR ''e'' \<or> hd r = CHR ''E'') then
        (let ds = takeWhile is_digit (skip_sign (tl r))
         in if ds = [] then 0
            else if tl r \<noteq> [] \<and> hd (tl r) = CHR ''-'' then - int (digits_value ds)
            else int (digits_value ds))
      else 0)"

definition atof :: "string \<Rightarrow> real" where
  "atof s =
     (let s1 = dropWhile is_space s;
          s2 = skip_sign s1;
          ip = takeWhile is_digit s2;
          r1 = dropWhile is_digit s2;
          has_point = (r1 \<noteq> [] \<and> hd r1 = CHR ''.'');
          fp = (if has_point then takeWhile is_digit (tl r1) else []);
          r2 = (if has_point then dropWhile is_digit (tl r1) else r1);
          mant = of_nat (digits_value ip) + of_nat (digits_value fp) / 10 ^ length fp;
          ex = atof_exponent r2;
          scaled = (if 0 \<le> ex then mant * 10 ^ nat ex else mant / 10 ^ nat (- ex))
      in if ip = [] \<and> fp = [] then 0
         else if s1 \<noteq> [] \<and> hd s1 = CHR ''-'' then - scaled
         else scaled)"

subsection \<open>getPoint\<close>

text \<open>
  The index at which the token is split: the first \<open>+\<close> at index 1 or later, and only
  when the token has none, the first \<open>-\<close> at index 1 or later.
\<close>

definition getPoint_sepSignIndex :: "string \<Rightarrow> nat option" where
  "getPoint_sepSignIndex aString =
     (case string_find aString CHR ''+'' 1 of
        None \<Rightarrow> string_find aString CHR ''-'' 1
      | Some i \<Rightarrow> Some i)"

definition getPoint :: "string \<Rightarrow> IQPoint" where
  "getPoint aString =
     (case getPoint_sepSignIndex aString of
        None \<Rightarrow> (0, 0)
      | Some sepSignIndex \<Rightarrow>
          (atof (substr aString 0 sepSignIndex),
           atof (substr aString sepSignIndex (length aString - sepSignIndex - 1))))"

subsection \<open>The tokens of one line\<close>

text \<open>
  The state of the inner loop is \<open>frameData\<close> and the running \<open>signalData.maxVal\<close>. Both
  branches of the loop body push the point of the token and raise \<open>maxVal\<close> to the
  absolute value of a component that exceeds it.
\<close>

definition push_point :: "IQPoint \<Rightarrow> FrameData \<times> real \<Rightarrow> FrameData \<times> real" where
  "push_point iqPoint st =
     (let m1 = (if \<bar>fst iqPoint\<bar> > snd st then \<bar>fst iqPoint\<bar> else snd st);
          m2 = (if \<bar>snd iqPoint\<bar> > m1 then \<bar>snd iqPoint\<bar> else m1)
      in (fst st @ [iqPoint], m2))"

lemma find_index_bound: "find_index c xs = Some i \<Longrightarrow> i < length xs"
  by (induction xs arbitrary: i) (auto split: if_splits)

lemma string_find_bound: "string_find s c pos = Some i \<Longrightarrow> pos \<le> i \<and> i < length s"
  by (auto simp: string_find_def dest!: find_index_bound)

text \<open>
  The loop over \<open>j\<close>. After a token that ends at a comma, \<open>j\<close> is the comma's index and
  the increment of the \<^verbatim>\<open>for\<close> moves it past the comma; after the last token \<open>j\<close> is
  the length of the line.
\<close>

function csv_tokens :: "string \<Rightarrow> nat \<Rightarrow> FrameData \<times> real \<Rightarrow> FrameData \<times> real" where
  "csv_tokens currentLine j st =
     (if j < length currentLine then
        (case string_find currentLine CHR '','' (j + 1) of
           Some commaIndex \<Rightarrow>
             csv_tokens currentLine (commaIndex + 1)
               (push_point (getPoint (substr currentLine j (commaIndex - j))) st)
         | None \<Rightarrow>
             csv_tokens currentLine (length currentLine + 1)
               (push_point (getPoint (substr currentLine j (length currentLine - j))) st))
      else st)"
  by pat_completeness auto
termination
  by (relation "measure (\<lambda>(currentLine, j, st). length currentLine + 1 - j)")
     (auto dest!: string_find_bound)

declare csv_tokens.simps [simp del]

subsection \<open>parseDataset\<close>

text \<open>
  The constants \<^verbatim>\<open>MODULATION_MAPPING\<close> (a map with distinct keys, only read with
  \<^verbatim>\<open>at\<close>) and \<^verbatim>\<open>MODULATION_SERIES\<close>.
\<close>

definition csv_MODULATION_MAPPING :: "(nat \<times> ModulationName) list" where
  "csv_MODULATION_MAPPING =
     [ ( 0, NAME_BPSK), (10, NAME_QPSK), (20, NAME_8PSK), (30, NAME_16PSK), (40, NAME_32PSK),
       (50, NAME_64PSK),
       ( 1, NAME_4QAM), (11, NAME_8QAM), (21, NAME_16QAM), (31, NAME_32QAM), (41, NAME_64QAM),
       (51, NAME_128QAM), (61, NAME_256QAM),
       ( 2, NAME_2FSK), (12, NAME_4FSK), (22, NAME_8FSK), (32, NAME_16FSK),
       ( 3, NAME_4PAM), (13, NAME_8PAM), (23, NAME_16PAM),
       ( 4, NAME_AM_DSB), (14, NAME_AM_DSB_SC), (24, NAME_AM_USB), (34, NAME_AM_LSB),
       (44, NAME_FM), (54, NAME_PM) ]"

definition MODULATION_SERIES :: "nat list" where
  "MODULATION_SERIES =
     [  4, 14, 44, 32,  2, 12, 22, 34, 23,  3,
       13, 54, 30,  0, 40, 10, 50, 20, 51, 21,
       61, 31,  1, 41, 11, 24 ]"

text \<open>
  Machine integers of the loop. \<open>crtLineNr\<close> is a \<^verbatim>\<open>size_t\<close> (64 bits). The SNR is
  computed in \<^verbatim>\<open>size_t\<close> arithmetic, \<open>-20\<close> being converted to \<open>2 ^ 64 - 20\<close>, and the
  result is converted to \<^verbatim>\<open>int\<close> (32 bits, two's complement).
\<close>

definition size_t_wrap :: "nat \<Rightarrow> nat" where
  "size_t_wrap n = n mod 2 ^ 64"

definition int_of_size_t :: "nat \<Rightarrow> int" where
  "int_of_size_t n =
     (let r = int (n mod 2 ^ 32) in if r < 2 ^ 31 then r else r - 2 ^ 32)"

definition NR_LINES_PER_SNR :: nat where
  "NR_LINES_PER_SNR =
     FRAMES_PER_MOD_SNR_NR DATASET_SOURCE_HISARMOD_2019_1 * MODULATIONS_NR DATASET_SOURCE_HISARMOD_2019_1"

definition csv_crtSnrDb :: "nat \<Rightarrow> int" where
  "csv_crtSnrDb crtLineNr =
     int_of_size_t (size_t_wrap (2 ^ 64 - 20 + 2 * (crtLineNr div NR_LINES_PER_SNR)))"

text \<open>
  The parser object and the locals of \<^verbatim>\<open>parseDataset\<close> that live across lines.
  \<open>signalData.maxVal\<close> is indeterminate until the first line sets it to 0; it is 0 here.
\<close>

record CsvRun =
  parser :: DatasetParser
  crtLineNr :: nat
  oldSnrDb :: int
  oldModInt :: nat
  modSnrPair :: ModulationSnrPair
  signalData :: SignalData
  parseFailed :: bool

definition csv_start :: "DatasetParser \<Rightarrow> CsvRun" where
  "csv_start p =
     \<lparr> parser = p\<lparr>mUniqueModVec := [], mUniqueSnrVec := [], mMap := Map.empty\<rparr>,
       crtLineNr = 0,
       oldSnrDb = - 100,
       oldModInt = 2 ^ 64 - 1,
       modSnrPair = (NAME_UNKNOWN, 0),
       signalData = \<lparr>frameDataVec = [], maxVal = 0\<rparr>,
       parseFailed = False \<rparr>"

text \<open>
  The body of the \<^verbatim>\<open>while\<close> loop for one line. The values of the variables after
  each statement are named: \<open>p1\<close>, \<open>pair1\<close> and \<open>sd1\<close> are the parser's vectors,
  \<open>modSnrPair\<close> and \<open>signalData\<close> after the block of \<open>newCombination\<close>; \<open>toks\<close> is
  \<open>frameData\<close> with the running \<open>maxVal\<close> after the loop over the tokens; \<open>sd3\<close> is
  \<open>signalData\<close> after the frame is pushed. A \<^verbatim>\<open>break\<close> is the state with \<open>parseFailed\<close>
  set, as it is at the \<^verbatim>\<open>break\<close>; an exception of \<^verbatim>\<open>at\<close> is \<open>Inl\<close>.
\<close>

definition csv_line :: "CsvRun \<Rightarrow> string \<Rightarrow> cpp_error + CsvRun" where
  "csv_line st currentLine =
     (let crtSnrDb = csv_crtSnrDb (crtLineNr st)
      in case vector_at MODULATION_SERIES
                ((crtLineNr st mod NR_LINES_PER_SNR)
                   div FRAMES_PER_MOD_SNR_NR DATASET_SOURCE_HISARMOD_2019_1) of
           Inl e \<Rightarrow> Inl e
         | Inr crtModInt \<Rightarrow>
             (case map_at csv_MODULATION_MAPPING crtModInt of
                Inl e \<Rightarrow> Inl e
              | Inr modName \<Rightarrow>
                  (let newCombination = (crtSnrDb \<noteq> oldSnrDb st \<or> crtModInt \<noteq> oldModInt st);
                       p1 = (if newCombination then
                               (parser st)
                                 \<lparr> mUniqueModVec := mUniqueModVec (parser st) @ [modName],
                                   mUniqueSnrVec := mUniqueSnrVec (parser st) @ [crtSnrDb] \<rparr>
                             else parser st);
                       pair1 = (if newCombination then (modName, crtSnrDb) else modSnrPair st);
                       sd1 = (if newCombination then \<lparr>frameDataVec = [], maxVal = 0\<rparr>
                              else signalData st);
                       toks = csv_tokens currentLine 0 ([], maxVal sd1)
                   in if FRAME_LENGTH DATASET_SOURCE_HISARMOD_2019_1 \<noteq> length (fst toks)
                      then Inr (st\<lparr> parser := p1, modSnrPair := pair1,
                                    signalData := sd1\<lparr>maxVal := snd toks\<rparr>,
                                    parseFailed := True \<rparr>)
                      else
                        (let sd3 = \<lparr> frameDataVec = frameDataVec sd1 @ [fst toks],
                                     maxVal = snd toks \<rparr>
                         in if crtLineNr st \<noteq> 0
                               \<and> 0 = size_t_wrap (crtLineNr st + 1)
                                       mod FRAMES_PER_MOD_SNR_NR DATASET_SOURCE_HISARMOD_2019_1
                            then
                              (if FRAMES_PER_MOD_SNR_NR DATASET_SOURCE_HISARMOD_2019_1
                                    \<noteq> length (frameDataVec sd3)
                               then Inr (st\<lparr> parser := p1, modSnrPair := pair1,
                                             signalData := sd3, parseFailed := True \<rparr>)
                               else Inr (st\<lparr> parser := p1\<lparr>mMap := map_insert (mMap p1) pair1 sd3\<rparr>,
                                             modSnrPair := pair1,
                                             signalData := sd3,
                                             oldSnrDb := crtSnrDb,
                                             oldModInt := crtModInt,
                                             crtLineNr := size_t_wrap (crtLineNr st + 1) \<rparr>))
                            else Inr (st\<lparr> parser := p1,
                                           modSnrPair := pair1,
                                           signalData := sd3,
                                           oldSnrDb := crtSnrDb,
                                           oldModInt := crtModInt,
                                           crtLineNr := size_t_wrap (crtLineNr st + 1) \<rparr>)))))"

text \<open>The \<^verbatim>\<open>while\<close> loop over the lines that \<^verbatim>\<open>std::getline\<close> delivers.\<close>

fun csv_loop :: "string list \<Rightarrow> CsvRun \<Rightarrow> cpp_error + CsvRun" where
  "csv_loop [] st = Inr st"
| "csv_loop (currentLine # rest) st =
     (case csv_line st currentLine of
        Inl e \<Rightarrow> Inl e
      | Inr st' \<Rightarrow> if parseFailed st' then Inr st' else csv_loop rest st')"

text \<open>
  \<^verbatim>\<open>CsvParser::parseDataset\<close>. The file is the list of its lines, \<open>None\<close> when it cannot be
  opened. The containers are cleared first; after the loop the two vectors are
  deduplicated and their sizes checked; \<open>mStatus\<close> is the negation of \<open>parseFailed\<close>.
\<close>

definition CsvParser_parseDataset :: "DatasetParser \<Rightarrow> string list option \<Rightarrow> cpp_error + DatasetParser" where
  "CsvParser_parseDataset p file =
     (case (case file of None \<Rightarrow> Inr (csv_start p) | Some ls \<Rightarrow> csv_loop ls (csv_start p)) of
        Inl e \<Rightarrow> Inl e
      | Inr st \<Rightarrow>
          (let mods = removeDuplicates_mod (mUniqueModVec (parser st));
               snrs = removeDuplicates_int (mUniqueSnrVec (parser st));
               failed = (parseFailed st
                         \<or> MODULATIONS_NR DATASET_SOURCE_HISARMOD_2019_1 \<noteq> length mods
                         \<or> SNRS_NR DATASET_SOURCE_HISARMOD_2019_1 \<noteq> length snrs)
           in Inr ((parser st)\<lparr>mUniqueModVec := mods, mUniqueSnrVec := snrs, mStatus := \<not> failed\<rparr>)))"

section \<open>Presenter (RadioModTx.cpp)\<close>

text \<open>
  The dataset store is the member \<^verbatim>\<open>mMap\<close> of \<^verbatim>\<open>RadioModTx\<close>, with its two vectors; the
  members carry the suffix \<open>_tx\<close> here, the parsers' members having the same names.
\<close>

record RadioModTx =
  mDatasetType :: DatasetSource
  mPklParser :: DatasetParser
  mHdf5Parser :: DatasetParser
  mCsvParser :: DatasetParser
  mParserStatus :: bool
  mMap_tx :: ModulationSnrSignalDataMap
  mUniqueModVec_tx :: "ModulationName list"
  mUniqueSnrVec_tx :: "int list"

text \<open>The constant \<^verbatim>\<open>Hdf5Parser::MODULATION_MAPPING\<close>.\<close>

definition hdf5_MODULATION_MAPPING :: "ModulationName list" where
  "hdf5_MODULATION_MAPPING =
     [ NAME_OOK, NAME_4ASK, NAME_8ASK,
       NAME_BPSK, NAME_QPSK, NAME_8PSK, NAME_16PSK, NAME_32PSK,
       NAME_16APSK, NAME_32APSK, NAME_64APSK, NAME_128APSK,
       NAME_16QAM, NAME_32QAM, NAME_64QAM, NAME_128QAM, NAME_256QAM,
       NAME_AM_SSB_WC, NAME_AM_SSB_SC, NAME_AM_DSB_WC, NAME_AM_DSB_SC,
       NAME_FM,
       NAME_GMSK,
       NAME_OQPSK ]"

text \<open>
  \<^verbatim>\<open>handleDatasetParseFinished\<close>, the slot run at the completion notification: the store
  and the status are taken from the parser of the current dataset type. The updates of
  the controls and of the sampling frequency do not touch the store and are left out.
\<close>

definition handleDatasetParseFinished :: "RadioModTx \<Rightarrow> RadioModTx" where
  "handleDatasetParseFinished st =
     (case mDatasetType st of
        DATASET_SOURCE_RADIOML_2016_10A \<Rightarrow>
          st\<lparr> mMap_tx := mMap (mPklParser st),
              mParserStatus := mStatus (mPklParser st),
              mUniqueModVec_tx := mUniqueModVec (mPklParser st),
              mUniqueSnrVec_tx := mUniqueSnrVec (mPklParser st) \<rparr>
      | DATASET_SOURCE_RADIOML_2018_01 \<Rightarrow>
          st\<lparr> mMap_tx := mMap (mHdf5Parser st),
              mParserStatus := mStatus (mHdf5Parser st),
              mUniqueModVec_tx := hdf5_MODULATION_MAPPING,
              mUniqueSnrVec_tx := mUniqueSnrVec (mHdf5Parser st) \<rparr>
      | DATASET_SOURCE_HISARMOD_2019_1 \<Rightarrow>
          st\<lparr> mMap_tx := mMap (mCsvParser st),
              mParserStatus := mStatus (mCsvParser st),
              mUniqueModVec_tx := mUniqueModVec (mCsvParser st),
              mUniqueSnrVec_tx := mUniqueSnrVec (mCsvParser st) \<rparr>)"

text \<open>
  One run of the text-tabular parser as the presenter sees it: the worker runs
  \<^verbatim>\<open>parseDataset\<close> on the parser object and the slot runs at its notification.
\<close>

definition csv_parse_run :: "RadioModTx \<Rightarrow> string list option \<Rightarrow> cpp_error + RadioModTx" where
  "csv_parse_run st file =
     (case CsvParser_parseDataset (mCsvParser st) file of
        Inl e \<Rightarrow> Inl e
      | Inr p \<Rightarrow> Inr (handleDatasetParseFinished (st\<lparr>mCsvParser := p\<rparr>)))"


section \<open>Hierarchical parser (Hdf5Parser.h, Hdf5Parser.cpp)\<close>

subsection \<open>Datasets of the file, the library and the allocator\<close>

text \<open>
  \<^verbatim>\<open>Hdf5Dataset\<close> with the members that
  \<^verbatim>\<open>loadTreeItem\<close> and the parse read: the dimensions
  (\<^verbatim>\<open>hsize_t\<close>, 64 bits), the size in bytes and the class of the
  native datatype, and whether \<^verbatim>\<open>mDataBuffer\<close> is set (not
  \<^verbatim>\<open>nullptr\<close>). Of the classes of
  \<^verbatim>\<open>H5T_class_t\<close> only \<^verbatim>\<open>H5T_FLOAT\<close> is
  compared with.
\<close>

datatype H5T_class_t = H5T_INTEGER | H5T_FLOAT | H5T_OTHER

datatype ItemType = ITEM_TYPE_ROOT | ITEM_TYPE_GROUP | ITEM_TYPE_VARIABLE | ITEM_TYPE_ATTRIBUTE

record Hdf5Dataset =
  mDataBuffer_set :: bool
  mDimensionsVec :: "nat list"
  mDatatypeSize :: nat
  mDatatypeClass :: H5T_class_t

text \<open>
  The dataspace arguments of \<^verbatim>\<open>H5Dread\<close>. The source passes
  \<^verbatim>\<open>H5S_ALL\<close> for the memory and for the file dataspace, which
  selects every element of the dataset.
\<close>

datatype H5S_selection = H5S_ALL

fun H5S_selected :: "H5S_selection \<Rightarrow> nat \<Rightarrow> nat set" where
  "H5S_selected H5S_ALL nrOfElements = {0..<nrOfElements}"

text \<open>
  What \<^verbatim>\<open>loadTreeItem\<close> asks of the allocator and of the library,
  in the order of the calls: \<^verbatim>\<open>malloc\<close> with its number of bytes,
  \<^verbatim>\<open>H5Dread\<close> with its two dataspaces,
  \<^verbatim>\<open>free\<close>.
\<close>

datatype Hdf5Effect = Malloc nat | H5Dread H5S_selection H5S_selection | Free

text \<open>
  The environment: whether \<^verbatim>\<open>malloc\<close> of a number of bytes returns
  a buffer, whether \<^verbatim>\<open>H5Dread\<close> succeeds, and the elements of the
  dataset in the order of the file, which the read with \<^verbatim>\<open>H5S_ALL\<close>
  leaves in the buffer in the same order. The elements are floats of 4 bytes, as
  \<^verbatim>\<open>fltBuf\<close> indexes them; the values are reals.
\<close>

record Hdf5Env =
  malloc_succeeds :: "nat \<Rightarrow> bool"
  H5Dread_succeeds :: bool
  X_floats :: "nat \<Rightarrow> real"

subsection \<open>loadTreeItem\<close>

text \<open>
  The linear lookup of \<open>modOffset\<close> in
  \<^verbatim>\<open>MODULATION_MAPPING\<close>; it stays 0 when the modulation is not in
  the table.
\<close>

fun h5_modOffset_from :: "ModulationName list \<Rightarrow> nat \<Rightarrow> ModulationName \<Rightarrow> nat" where
  "h5_modOffset_from [] i aName = 0"
| "h5_modOffset_from (x # xs) i aName = (if x = aName then i else h5_modOffset_from xs (i + 1) aName)"

definition h5_modOffset :: "ModulationName \<Rightarrow> nat" where
  "h5_modOffset aName = h5_modOffset_from hdf5_MODULATION_MAPPING 0 aName"

text \<open>
  The parser and the locals of the loop over the elements that live across iterations.
  \<open>h5_status\<close> is \<open>status\<close>: true when the loop is entered and
  false after a \<^verbatim>\<open>break\<close>.
\<close>

record Hdf5Run =
  h5_parser :: DatasetParser
  h5_oldSnrDb :: int
  h5_modSnrPair :: ModulationSnrPair
  h5_signalData :: SignalData
  h5_frameData :: FrameData
  h5_status :: bool

definition NR_ELEMENTS_PER_FRAME :: nat where
  "NR_ELEMENTS_PER_FRAME = 2 * FRAME_LENGTH DATASET_SOURCE_RADIOML_2018_01"

text \<open>
  The SNR of the element \<open>i\<close>, computed in \<^verbatim>\<open>hsize_t\<close>
  arithmetic (64 bits, like \<^verbatim>\<open>size_t\<close>) and converted to
  \<^verbatim>\<open>int\<close>.
\<close>

definition h5_crtSnrDb :: "nat \<Rightarrow> nat \<Rightarrow> nat \<Rightarrow> int" where
  "h5_crtSnrDb perMod perModSnr i =
     int_of_size_t (size_t_wrap (2 ^ 64 - 20 + 2 * ((i mod perMod) div perModSnr)))"

text \<open>
  One iteration of the outer loop, at the element \<open>i\<close>. \<open>limit\<close>
  is the number of floats that the read has left in the buffer. The inner loop pushes the
  1024 points \<open>(fltBuf[j], fltBuf[j + 1])\<close> for \<open>j = i, i + 2,
  \<dots>\<close> below \<open>i + 2048\<close>, so it reads the buffer up to the index
  \<open>i + 2047\<close>: a read at or after \<open>limit\<close> is undefined behaviour,
  as is a division by \<open>NR_ELEMENTS_PER_MOD\<close> or
  \<open>NR_ELEMENTS_PER_MOD_SNR\<close> when it is 0. When \<open>i + 2048\<close> wraps,
  the inner loop does not run; the frame is then accepted only in a state that a read
  outside the buffer has preceded. After the inner loop the source sets \<open>i = j -
  2\<close>, which is \<open>i + 2046\<close>, and the increment of the
  \<^verbatim>\<open>for\<close> moves to \<open>i + 2048\<close>.
\<close>

definition h5_iteration ::
    "(nat \<Rightarrow> real) \<Rightarrow> nat \<Rightarrow> nat \<Rightarrow> nat \<Rightarrow> nat \<Rightarrow> Hdf5Run \<Rightarrow> cpp_error + Hdf5Run" where
  "h5_iteration fltBuf limit perMod perModSnr i st =
     (if perMod = 0 \<or> perModSnr = 0 then Inl UndefinedBehaviour
      else
        (let crtSnrDb = h5_crtSnrDb perMod perModSnr i;
             new = (crtSnrDb \<noteq> h5_oldSnrDb st);
             p1 = (if new then (h5_parser st)
                                 \<lparr>mUniqueSnrVec := mUniqueSnrVec (h5_parser st) @ [crtSnrDb]\<rparr>
                   else h5_parser st);
             pair1 = (if new then (mSingleModulation (h5_parser st), crtSnrDb)
                      else h5_modSnrPair st);
             sd1 = (if new then \<lparr>frameDataVec = [], maxVal = 0\<rparr> else h5_signalData st);
             fd1 = (if i mod NR_ELEMENTS_PER_FRAME = 0 then [] else h5_frameData st)
         in if 2 ^ 64 \<le> i + NR_ELEMENTS_PER_FRAME then
              (if FRAME_LENGTH DATASET_SOURCE_RADIOML_2018_01 \<noteq> length fd1
               then Inr (st\<lparr> h5_parser := p1, h5_modSnrPair := pair1, h5_signalData := sd1,
                             h5_frameData := fd1, h5_status := False \<rparr>)
               else Inl UndefinedBehaviour)
            else if limit < i + NR_ELEMENTS_PER_FRAME then Inl UndefinedBehaviour
            else
              (let pts = map (\<lambda>k. (fltBuf (i + 2 * k), fltBuf (i + 2 * k + 1)))
                           [0..<NR_ELEMENTS_PER_FRAME div 2];
                   toks = foldl (\<lambda>acc iqPoint. push_point iqPoint acc) (fd1, maxVal sd1) pts
               in if FRAME_LENGTH DATASET_SOURCE_RADIOML_2018_01 \<noteq> length (fst toks)
                  then Inr (st\<lparr> h5_parser := p1, h5_modSnrPair := pair1,
                                h5_signalData := sd1\<lparr>maxVal := snd toks\<rparr>,
                                h5_frameData := fst toks, h5_status := False \<rparr>)
                  else
                    (let sd3 = \<lparr> frameDataVec = frameDataVec sd1 @ [fst toks],
                                 maxVal = snd toks \<rparr>;
                         i2 = i + NR_ELEMENTS_PER_FRAME - 2
                     in if i2 \<noteq> 0 \<and> 0 = size_t_wrap (i2 + 2) mod perModSnr
                        then
                          (if FRAMES_PER_MOD_SNR_NR DATASET_SOURCE_RADIOML_2018_01
                                \<noteq> length (frameDataVec sd3)
                           then Inr (st\<lparr> h5_parser := p1, h5_modSnrPair := pair1,
                                         h5_signalData := sd3, h5_frameData := fst toks,
                                         h5_status := False \<rparr>)
                           else Inr (st\<lparr> h5_parser := p1\<lparr>mMap := map_insert (mMap p1) pair1 sd3\<rparr>,
                                         h5_modSnrPair := pair1, h5_signalData := sd3,
                                         h5_frameData := fst toks,
                                         h5_oldSnrDb := crtSnrDb \<rparr>))
                        else Inr (st\<lparr> h5_parser := p1, h5_modSnrPair := pair1,
                                      h5_signalData := sd3, h5_frameData := fst toks,
                                      h5_oldSnrDb := crtSnrDb \<rparr>)))))"

text \<open>The outer loop from the element \<open>i\<close> to \<open>STOP_ELEMENT\<close>.\<close>

function h5_loop ::
    "(nat \<Rightarrow> real) \<Rightarrow> nat \<Rightarrow> nat \<Rightarrow> nat \<Rightarrow> nat \<Rightarrow> nat \<Rightarrow> Hdf5Run \<Rightarrow> cpp_error + Hdf5Run" where
  "h5_loop fltBuf limit perMod perModSnr STOP_ELEMENT i st =
     (if i < STOP_ELEMENT then
        (case h5_iteration fltBuf limit perMod perModSnr i st of
           Inl e \<Rightarrow> Inl e
         | Inr st' \<Rightarrow>
             if h5_status st'
             then h5_loop fltBuf limit perMod perModSnr STOP_ELEMENT
                    (i + NR_ELEMENTS_PER_FRAME) st'
             else Inr st')
      else Inr st)"
  by pat_completeness auto
termination
  by (relation "measure (\<lambda>(fltBuf, limit, perMod, perModSnr, STOP_ELEMENT, i, st). STOP_ELEMENT - i)")
     (auto simp: NR_ELEMENTS_PER_FRAME_def)

declare h5_loop.simps [simp del]

text \<open>
  \<^verbatim>\<open>loadTreeItem\<close>: the status, the parser and the calls made. The
  buffer is requested for \<open>TOTAL_BYTES\<close>, the size of the datatype times the
  number of elements of the whole dataset, and filled by one
  \<^verbatim>\<open>H5Dread\<close> with \<^verbatim>\<open>H5S_ALL\<close> twice; the
  loop then runs from \<open>START_ELEMENT\<close> to \<open>STOP_ELEMENT\<close>. The
  read leaves \<open>nrOfElements\<close> elements in a buffer that holds
  \<open>TOTAL_BYTES div 4\<close> floats.
\<close>

definition h5_nrOfElements :: "Hdf5Dataset \<Rightarrow> nat" where
  "h5_nrOfElements ds = foldl (\<lambda>n d. size_t_wrap (n * d)) 1 (mDimensionsVec ds)"

definition h5_TOTAL_BYTES :: "Hdf5Dataset \<Rightarrow> nat" where
  "h5_TOTAL_BYTES ds = size_t_wrap (mDatatypeSize ds * h5_nrOfElements ds)"

definition h5_start :: "DatasetParser \<Rightarrow> Hdf5Run" where
  "h5_start p =
     \<lparr> h5_parser = p\<lparr>mUniqueModVec := mUniqueModVec p @ [mSingleModulation p]\<rparr>,
       h5_oldSnrDb = - 100,
       h5_modSnrPair = (NAME_UNKNOWN, 0),
       h5_signalData = \<lparr>frameDataVec = [], maxVal = 0\<rparr>,
       h5_frameData = [],
       h5_status = True \<rparr>"

definition loadTreeItem ::
    "Hdf5Env \<Rightarrow> DatasetParser \<Rightarrow> ItemType \<Rightarrow> Hdf5Dataset
       \<Rightarrow> cpp_error + (bool \<times> DatasetParser \<times> Hdf5Effect list)" where
  "loadTreeItem env p itemType ds =
     (if itemType \<noteq> ITEM_TYPE_VARIABLE \<or> mDataBuffer_set ds then Inr (False, p, [])
      else
        (let nrOfElements = h5_nrOfElements ds;
             TOTAL_BYTES = h5_TOTAL_BYTES ds
         in if mDatatypeClass ds \<noteq> H5T_FLOAT then Inr (False, p, [])
            else if \<not> malloc_succeeds env TOTAL_BYTES then Inr (False, p, [Malloc TOTAL_BYTES])
            else if \<not> H5Dread_succeeds env
              then Inr (False, p, [Malloc TOTAL_BYTES, H5Dread H5S_ALL H5S_ALL])
            else
              (let NR_ELEMENTS_PER_MOD =
                     nrOfElements div MODULATIONS_NR DATASET_SOURCE_RADIOML_2018_01;
                   NR_ELEMENTS_PER_MOD_SNR =
                     NR_ELEMENTS_PER_MOD div SNRS_NR DATASET_SOURCE_RADIOML_2018_01;
                   START_ELEMENT =
                     size_t_wrap (h5_modOffset (mSingleModulation p) * NR_ELEMENTS_PER_MOD);
                   STOP_ELEMENT = size_t_wrap (START_ELEMENT + NR_ELEMENTS_PER_MOD)
               in case h5_loop (X_floats env) (min nrOfElements (TOTAL_BYTES div 4))
                         NR_ELEMENTS_PER_MOD NR_ELEMENTS_PER_MOD_SNR STOP_ELEMENT
                         START_ELEMENT (h5_start p) of
                    Inl e \<Rightarrow> Inl e
                  | Inr st \<Rightarrow>
                      Inr (h5_status st, h5_parser st,
                           [Malloc TOTAL_BYTES, H5Dread H5S_ALL H5S_ALL, Free]))))"

subsection \<open>parseDatasetSingleModulation\<close>

text \<open>
  The file is the list of the datasets at its root with their names, in the order of the
  iteration, \<open>None\<close> when it cannot be visited or opened. Every child of the
  root is an item of type \<^verbatim>\<open>ITEM_TYPE_VARIABLE\<close>. The scan of the
  children keeps \<open>parseFailed\<close> and the three flags; a
  \<^verbatim>\<open>break\<close> ends it. The test of the number of dimensions and of
  each dimension is the comparison of the vector with the expected one.
\<close>

record Hdf5Scan =
  scan_parser :: DatasetParser
  scan_parseFailed :: bool
  foundX :: bool
  foundY :: bool
  foundZ :: bool
  scan_effects :: "Hdf5Effect list"

definition ROWS_EXPECTED_NR :: nat where
  "ROWS_EXPECTED_NR =
     size_t_wrap (FRAMES_PER_MOD_SNR_NR DATASET_SOURCE_RADIOML_2018_01
                  * MODULATIONS_NR DATASET_SOURCE_RADIOML_2018_01
                  * SNRS_NR DATASET_SOURCE_RADIOML_2018_01)"

fun h5_scan :: "Hdf5Env \<Rightarrow> (string \<times> Hdf5Dataset) list \<Rightarrow> Hdf5Scan \<Rightarrow> cpp_error + Hdf5Scan" where
  "h5_scan env [] sc = Inr sc"
| "h5_scan env ((childName, ds) # rest) sc =
     (if childName = ''X'' then
        (if mDimensionsVec ds
                \<noteq> [ROWS_EXPECTED_NR, FRAME_LENGTH DATASET_SOURCE_RADIOML_2018_01, 2]
            \<or> scan_parseFailed sc
         then Inr (sc\<lparr>scan_parseFailed := True\<rparr>)
         else
           (case loadTreeItem env (scan_parser sc) ITEM_TYPE_VARIABLE ds of
              Inl e \<Rightarrow> Inl e
            | Inr (status, p, effects) \<Rightarrow>
                h5_scan env rest
                  (sc\<lparr> scan_parser := p, scan_parseFailed := \<not> status, foundX := status,
                       scan_effects := scan_effects sc @ effects \<rparr>)))
      else if childName = ''Y'' then
        (if mDimensionsVec ds
                \<noteq> [ROWS_EXPECTED_NR, MODULATIONS_NR DATASET_SOURCE_RADIOML_2018_01]
            \<or> scan_parseFailed sc
         then Inr (sc\<lparr>scan_parseFailed := True\<rparr>)
         else h5_scan env rest (sc\<lparr>foundY := True\<rparr>))
      else if childName = ''Z'' then
        (if mDimensionsVec ds \<noteq> [ROWS_EXPECTED_NR, 1]
            \<or> scan_parseFailed sc
         then Inr (sc\<lparr>scan_parseFailed := True\<rparr>)
         else h5_scan env rest (sc\<lparr>foundZ := True\<rparr>))
      else h5_scan env rest sc)"

text \<open>
  \<^verbatim>\<open>parseDatasetSingleModulation\<close>: the parser after the run and
  the calls that its \<^verbatim>\<open>loadTreeItem\<close> made.
\<close>

definition Hdf5Parser_parseDatasetSingleModulation ::
    "Hdf5Env \<Rightarrow> DatasetParser \<Rightarrow> (string \<times> Hdf5Dataset) list option
       \<Rightarrow> cpp_error + (DatasetParser \<times> Hdf5Effect list)" where
  "Hdf5Parser_parseDatasetSingleModulation env p file =
     (let p0 = p\<lparr>mUniqueModVec := [], mUniqueSnrVec := [], mMap := Map.empty\<rparr>
      in if NAME_UNKNOWN = mSingleModulation p0 then Inr (p0\<lparr>mStatus := False\<rparr>, [])
         else
           (case file of
              None \<Rightarrow> Inr (p0\<lparr>mStatus := False\<rparr>, [])
            | Some children \<Rightarrow>
                (case h5_scan env children
                        \<lparr> scan_parser = p0, scan_parseFailed = False, foundX = False,
                          foundY = False, foundZ = False, scan_effects = [] \<rparr> of
                   Inl e \<Rightarrow> Inl e
                 | Inr sc \<Rightarrow>
                     (if scan_parseFailed sc \<or> \<not> foundX sc \<or> \<not> foundY sc \<or> \<not> foundZ sc
                      then Inr ((scan_parser sc)\<lparr>mStatus := False\<rparr>, scan_effects sc)
                      else
                        (let snrs = removeDuplicates_int (mUniqueSnrVec (scan_parser sc))
                         in Inr ((scan_parser sc)
                                   \<lparr> mUniqueSnrVec := snrs,
                                     mStatus := (SNRS_NR DATASET_SOURCE_RADIOML_2018_01
                                                   = length snrs) \<rparr>,
                                 scan_effects sc))))))"
section \<open>Properties used in the statements\<close>

text \<open>
  The definitions of this section are not code of the program: they are the properties
  the theorems below state about it.
\<close>

subsection \<open>Alias tables\<close>

text \<open>
  \<open>aliases_ok tbl\<close>: every name other than \<open>NAME_UNKNOWN\<close> has a non-empty vector of
  strings, and no string stands in the vectors of two different names other than
  \<open>NAME_UNKNOWN\<close>.
\<close>

definition aliases_ok :: "alias_table \<Rightarrow> bool" where
  "aliases_ok tbl =
     ((\<forall>e \<in> set tbl. fst e \<noteq> NAME_UNKNOWN \<longrightarrow> snd e \<noteq> []) \<and>
      (\<forall>e1 \<in> set tbl. \<forall>e2 \<in> set tbl.
         fst e1 \<noteq> NAME_UNKNOWN \<and> fst e2 \<noteq> NAME_UNKNOWN \<and> fst e1 \<noteq> fst e2
           \<longrightarrow> set (snd e1) \<inter> set (snd e2) = {}))"

text \<open>
  \<open>shared_alias tbl d\<close>: the string \<open>d\<close> stands in the vectors of two different names
  other than \<open>NAME_UNKNOWN\<close>.
\<close>

definition shared_alias :: "alias_table \<Rightarrow> string \<Rightarrow> bool" where
  "shared_alias tbl d =
     (\<exists>e1 \<in> set tbl. \<exists>e2 \<in> set tbl.
        fst e1 \<noteq> NAME_UNKNOWN \<and> fst e2 \<noteq> NAME_UNKNOWN \<and> fst e1 \<noteq> fst e2 \<and>
        d \<in> set (snd e1) \<and> d \<in> set (snd e2))"

subsection \<open>Setters\<close>

text \<open>
  The contract of a setter that validates its argument against a cached range:
  outside the range it returns false and leaves the whole state as it was, so no write
  is attempted; inside the range it attempts exactly one write, of the argument, returns
  whether that write succeeded, and stores the argument in the cache exactly when it did.
\<close>

definition range_checked_setter ::
    "(iio_bus \<Rightarrow> AdiTrx \<Rightarrow> int \<Rightarrow> bool \<times> AdiTrx) \<Rightarrow> (AdiTrx \<Rightarrow> IntegerRange) \<Rightarrow> (AdiTrx \<Rightarrow> int) \<Rightarrow> bool" where
  "range_checked_setter setter params cached =
     (\<forall>bus st a.
        (a < min_limit (params st) \<or> max_limit (params st) < a
           \<longrightarrow> setter bus st a = (False, st)) \<and>
        (min_limit (params st) \<le> a \<and> a \<le> max_limit (params st)
           \<longrightarrow> (\<exists>chn attr.
                  fst (setter bus st a) = (bus chn attr a = 0) \<and>
                  attr_writes (snd (setter bus st a)) = attr_writes st @ [(chn, attr, a)] \<and>
                  cached (snd (setter bus st a)) = (if bus chn attr a = 0 then a else cached st))))"


text \<open>
  The same contract for a setter of a \<^verbatim>\<open>double\<close> parameter with a cached range.
\<close>

definition range_checked_double_setter ::
    "(iio_bus_double \<Rightarrow> AdiTrx \<Rightarrow> real \<Rightarrow> bool \<times> AdiTrx) \<Rightarrow> (AdiTrx \<Rightarrow> DoubleRange) \<Rightarrow> (AdiTrx \<Rightarrow> real) \<Rightarrow> bool" where
  "range_checked_double_setter setter params cached =
     (\<forall>dbus st a.
        (a < min_dbl (params st) \<or> max_dbl (params st) < a
           \<longrightarrow> setter dbus st a = (False, st)) \<and>
        (min_dbl (params st) \<le> a \<and> a \<le> max_dbl (params st)
           \<longrightarrow> (\<exists>chn attr.
                  fst (setter dbus st a) = (dbus chn attr a = 0) \<and>
                  attr_writes_double (snd (setter dbus st a))
                    = attr_writes_double st @ [(chn, attr, a)] \<and>
                  cached (snd (setter dbus st a)) = (if dbus chn attr a = 0 then a else cached st))))"

text \<open>
  The contract of a setter that validates its argument against the fixed range
  \<open>[lo, hi]\<close>, with nothing said of a cache: outside the range it returns false and leaves
  the whole state as it was; inside the range it attempts exactly one write, of the
  argument, and returns whether that write succeeded.
\<close>

definition range_checked_writer ::
    "(iio_bus_double \<Rightarrow> AdiTrx \<Rightarrow> real \<Rightarrow> bool \<times> AdiTrx) \<Rightarrow> real \<Rightarrow> real \<Rightarrow> bool" where
  "range_checked_writer setter lo hi =
     (\<forall>dbus st a.
        (a < lo \<or> hi < a \<longrightarrow> setter dbus st a = (False, st)) \<and>
        (lo \<le> a \<and> a \<le> hi
           \<longrightarrow> (\<exists>chn attr.
                  fst (setter dbus st a) = (dbus chn attr a = 0) \<and>
                  attr_writes_double (snd (setter dbus st a))
                    = attr_writes_double st @ [(chn, attr, a)])))"

text \<open>
  A pinned setter returns false for every argument and leaves the whole state as it was,
  so that it attempts no write.
\<close>

definition pinned_setter :: "('s \<Rightarrow> 'a \<Rightarrow> bool \<times> 's) \<Rightarrow> bool" where
  "pinned_setter setter = (\<forall>st a. setter st a = (False, st))"

subsection \<open>Lines of the text-tabular file\<close>

text \<open>
  \<open>line_frame l\<close> is the frame the loop over the tokens builds from the line \<open>l\<close>, and a
  list of lines is well formed when every line gives a frame of \<open>FRAME_LENGTH\<close> points,
  which is what the parser checks line by line.
\<close>

definition line_frame :: "string \<Rightarrow> FrameData" where
  "line_frame currentLine = fst (csv_tokens currentLine 0 ([], 0))"

definition well_formed_lines :: "string list \<Rightarrow> bool" where
  "well_formed_lines ls =
     list_all (\<lambda>l. length (line_frame l) = FRAME_LENGTH DATASET_SOURCE_HISARMOD_2019_1) ls"

text \<open>A line of 1024 tokens \<open>0+0i\<close>.\<close>

definition zero_line :: string where
  "zero_line = concat (replicate 1023 (''0+0i'' @ '','')) @ ''0+0i''"

text \<open>
  The presenter once the text-tabular source is chosen, with a given content of the
  store, its parsers as constructed.
\<close>

definition csv_presenter :: "ModulationSnrSignalDataMap \<Rightarrow> RadioModTx" where
  "csv_presenter store =
     \<lparr> mDatasetType = DATASET_SOURCE_HISARMOD_2019_1,
       mPklParser = DatasetParser_init,
       mHdf5Parser = DatasetParser_init,
       mCsvParser = DatasetParser_init,
       mParserStatus = False,
       mMap_tx = store,
       mUniqueModVec_tx = [],
       mUniqueSnrVec_tx = [] \<rparr>"

subsection \<open>The split of a token as the specification words it\<close>

text \<open>
  The specification splits a token at the first sign character at index 1 or later,
  whichever of \<open>+\<close> and \<open>-\<close> it is. \<open>getPoint_first_sign\<close> follows these words, to be
  compared with \<open>getPoint\<close>.
\<close>

definition first_sign_index :: "string \<Rightarrow> nat option" where
  "first_sign_index aString =
     (case (string_find aString CHR ''+'' 1, string_find aString CHR ''-'' 1) of
        (None, None) \<Rightarrow> None
      | (Some i, None) \<Rightarrow> Some i
      | (None, Some j) \<Rightarrow> Some j
      | (Some i, Some j) \<Rightarrow> Some (min i j))"

definition getPoint_first_sign :: "string \<Rightarrow> IQPoint" where
  "getPoint_first_sign aString =
     (case first_sign_index aString of
        None \<Rightarrow> (0, 0)
      | Some k \<Rightarrow>
          (atof (substr aString 0 k),
           atof (substr aString k (length aString - k - 1))))"

subsection \<open>The run of the parser over well-formed lines, in closed form\<close>

text \<open>The token strings of a line, as the loop of \<open>csv_tokens\<close> cuts them.\<close>

function split_tokens :: "string \<Rightarrow> string list" where
  "split_tokens s =
     (if s = [] then []
      else case find_index CHR '','' (tl s) of
             Some i \<Rightarrow> take (i + 1) s # split_tokens (drop (i + 2) s)
           | None \<Rightarrow> [s])"
  by pat_completeness auto
termination
  by (relation "measure length") auto

declare split_tokens.simps [simp del]

definition frame_of :: "string \<Rightarrow> FrameData" where
  "frame_of currentLine = map getPoint (split_tokens currentLine)"

definition raise_max :: "real \<Rightarrow> IQPoint \<Rightarrow> real" where
  "raise_max m p = max (max m \<bar>fst p\<bar>) \<bar>snd p\<bar>"

text \<open>
  The lines come in blocks of 500. Block \<open>b\<close> has the code \<open>block_code b\<close> of the series,
  the modulation \<open>block_mod b\<close> and the SNR \<open>block_snr b\<close>; \<open>series_mods\<close> is the series
  with each code replaced by its modulation.
\<close>

definition series_mods :: "ModulationName list" where
  "series_mods =
     [ NAME_AM_DSB, NAME_AM_DSB_SC, NAME_FM, NAME_16FSK, NAME_2FSK, NAME_4FSK, NAME_8FSK,
       NAME_AM_LSB, NAME_16PAM, NAME_4PAM, NAME_8PAM, NAME_PM, NAME_16PSK, NAME_BPSK,
       NAME_32PSK, NAME_QPSK, NAME_64PSK, NAME_8PSK, NAME_128QAM, NAME_16QAM, NAME_256QAM,
       NAME_32QAM, NAME_4QAM, NAME_64QAM, NAME_8QAM, NAME_AM_USB ]"

definition block_code :: "nat \<Rightarrow> nat" where
  "block_code b = MODULATION_SERIES ! (b mod 26)"

definition block_mod :: "nat \<Rightarrow> ModulationName" where
  "block_mod b = series_mods ! (b mod 26)"

definition block_snr :: "nat \<Rightarrow> int" where
  "block_snr b = - 20 + 2 * int (b div 26)"

definition block_key :: "nat \<Rightarrow> ModulationSnrPair" where
  "block_key b = (block_mod b, block_snr b)"

text \<open>
  \<open>block_data ls b r\<close> is the signal data of the first \<open>r\<close> lines of block \<open>b\<close>,
  \<open>block_map ls B\<close> the map after \<open>B\<close> complete blocks, and \<open>csv_state p ls n\<close> the state of
  the loop after \<open>n\<close> lines.
\<close>

definition block_data :: "string list \<Rightarrow> nat \<Rightarrow> nat \<Rightarrow> SignalData" where
  "block_data ls b r =
     \<lparr> frameDataVec = map frame_of (take r (drop (500 * b) ls)),
       maxVal = foldl raise_max 0 (concat (map frame_of (take r (drop (500 * b) ls)))) \<rparr>"

fun block_map :: "string list \<Rightarrow> nat \<Rightarrow> ModulationSnrSignalDataMap" where
  "block_map ls 0 = Map.empty"
| "block_map ls (Suc b) = map_insert (block_map ls b) (block_key b) (block_data ls b 500)"

definition csv_state :: "DatasetParser \<Rightarrow> string list \<Rightarrow> nat \<Rightarrow> CsvRun" where
  "csv_state p ls n =
     (if n = 0 then csv_start p
      else
        \<lparr> parser = p\<lparr> mUniqueModVec := map block_mod [0..<Suc ((n - 1) div 500)],
                       mUniqueSnrVec := map block_snr [0..<Suc ((n - 1) div 500)],
                       mMap := block_map ls (n div 500) \<rparr>,
          crtLineNr = n,
          oldSnrDb = block_snr ((n - 1) div 500),
          oldModInt = block_code ((n - 1) div 500),
          modSnrPair = block_key ((n - 1) div 500),
          signalData = block_data ls ((n - 1) div 500) (n - 500 * ((n - 1) div 500)),
          parseFailed = False \<rparr>)"

text \<open>A store with one entry, as a previous parse may have left it.\<close>

definition example_store :: ModulationSnrSignalDataMap where
  "example_store = [(NAME_BPSK, 0) \<mapsto> \<lparr>frameDataVec = [[(1, 0)]], maxVal = 1\<rparr>]"

subsection \<open>A file of the hierarchical dataset and a host\<close>

text \<open>
  The dataset \<open>X\<close> of the hierarchical file, of shape (2555904, 1024, 2) and 4-byte floats,
  and a file with the three datasets that the parse looks for. A host of a given memory
  grants the requests of at most that many bytes; the elements of its \<open>X\<close> are all 0.
\<close>

definition X_cube :: Hdf5Dataset where
  "X_cube = \<lparr> mDataBuffer_set = False, mDimensionsVec = [2555904, 1024, 2],
              mDatatypeSize = 4, mDatatypeClass = H5T_FLOAT \<rparr>"

definition radioml_file :: "(string \<times> Hdf5Dataset) list" where
  "radioml_file =
     [ (''X'', X_cube),
       (''Y'', \<lparr> mDataBuffer_set = False, mDimensionsVec = [2555904, 24],
                 mDatatypeSize = 8, mDatatypeClass = H5T_INTEGER \<rparr>),
       (''Z'', \<lparr> mDataBuffer_set = False, mDimensionsVec = [2555904, 1],
                 mDatatypeSize = 8, mDatatypeClass = H5T_INTEGER \<rparr>) ]"

definition host_with_memory :: "nat \<Rightarrow> Hdf5Env" where
  "host_with_memory bytes =
     \<lparr> malloc_succeeds = (\<lambda>n. n \<le> bytes), H5Dread_succeeds = True, X_floats = (\<lambda>j. 0) \<rparr>"

text \<open>The parser as constructed, with the modulation chosen by the caller.\<close>

definition hdf5_parser_for :: "ModulationName \<Rightarrow> DatasetParser" where
  "hdf5_parser_for aName = DatasetParser_init\<lparr>mSingleModulation := aName\<rparr>"

subsection \<open>The run of the hierarchical loop over a slab, in closed form\<close>

text \<open>
  The slab of a modulation starts at the element \<open>START\<close> and holds 26 blocks of 4096
  frames of 2048 floats, one block for each SNR. \<open>h5_frame X START F\<close> is the frame
  number \<open>F\<close> of the slab, read from the elements \<open>X\<close>; \<open>h5_snr s\<close> is the SNR of the block
  \<open>s\<close>; \<open>h5_block X START s r\<close> is the signal data of the first \<open>r\<close> frames of the block
  \<open>s\<close>; \<open>h5_map\<close> is the map after the insertion of the first \<open>B\<close> blocks, and
  \<open>h5_state p X START F\<close> the state of the loop after \<open>F\<close> frames.
\<close>

definition h5_frame :: "(nat \<Rightarrow> real) \<Rightarrow> nat \<Rightarrow> nat \<Rightarrow> FrameData" where
  "h5_frame X START F =
     map (\<lambda>k. (X (START + 2048 * F + 2 * k), X (START + 2048 * F + 2 * k + 1))) [0..<1024]"

definition h5_snr :: "nat \<Rightarrow> int" where
  "h5_snr s = - 20 + 2 * int s"

definition h5_block :: "(nat \<Rightarrow> real) \<Rightarrow> nat \<Rightarrow> nat \<Rightarrow> nat \<Rightarrow> SignalData" where
  "h5_block X START s r =
     \<lparr> frameDataVec = map (h5_frame X START) [4096 * s..<4096 * s + r],
       maxVal = foldl raise_max 0 (concat (map (h5_frame X START) [4096 * s..<4096 * s + r])) \<rparr>"

fun h5_map ::
    "ModulationSnrSignalDataMap \<Rightarrow> (nat \<Rightarrow> real) \<Rightarrow> nat \<Rightarrow> ModulationName \<Rightarrow> nat
       \<Rightarrow> ModulationSnrSignalDataMap" where
  "h5_map m0 X START aName 0 = m0"
| "h5_map m0 X START aName (Suc b) =
     map_insert (h5_map m0 X START aName b) (aName, h5_snr b) (h5_block X START b 4096)"

definition h5_state :: "DatasetParser \<Rightarrow> (nat \<Rightarrow> real) \<Rightarrow> nat \<Rightarrow> nat \<Rightarrow> Hdf5Run" where
  "h5_state p X START F =
     (if F = 0 then h5_start p
      else
        \<lparr> h5_parser = p\<lparr> mUniqueModVec := mUniqueModVec p @ [mSingleModulation p],
                          mUniqueSnrVec := mUniqueSnrVec p @ map h5_snr [0..<Suc ((F - 1) div 4096)],
                          mMap := h5_map (mMap p) X START (mSingleModulation p) (F div 4096) \<rparr>,
          h5_oldSnrDb = h5_snr ((F - 1) div 4096),
          h5_modSnrPair = (mSingleModulation p, h5_snr ((F - 1) div 4096)),
          h5_signalData = h5_block X START ((F - 1) div 4096) (F - 4096 * ((F - 1) div 4096)),
          h5_frameData = h5_frame X START (F - 1),
          h5_status = True \<rparr>)"
section \<open>Verification: modulation registry\<close>

lemma map_at_mem: "map_at tbl k = Inr v \<Longrightarrow> (k, v) \<in> set tbl"
  by (induction tbl) (auto split: if_splits)

lemma table_round_trip:
  "\<forall>e \<in> set MODULATION_NAME_ALIAS. \<forall>a \<in> set (snd e). getModulationName a = fst e"
  by (simp add: MODULATION_NAME_ALIAS_def getModulationName_def)

lemma first_alias:
  "n \<noteq> NAME_UNKNOWN \<Longrightarrow>
   \<exists>s rest. map_at MODULATION_NAME_ALIAS n = Inr (s # rest) \<and> getModulationString n = Inr s"
  by (cases n)
     (simp_all add: MODULATION_NAME_ALIAS_def getModulationString_def getModulationString_in_def
        vector_at_def)

text \<open>
  Claim C8. For every modulation name other than \<open>NAME_UNKNOWN\<close> the vector of strings
  of the name in \<open>MODULATION_NAME_ALIAS\<close> is non-empty and its first element is what
  \<open>getModulationString\<close> returns for the name; and for every name and every string of
  its vector, \<open>getModulationName\<close> of the string is that name.
\<close>

theorem alias_table_round_trip:
  "(\<forall>n. n \<noteq> NAME_UNKNOWN \<longrightarrow>
        (\<exists>s rest. map_at MODULATION_NAME_ALIAS n = Inr (s # rest) \<and> getModulationString n = Inr s))
   \<and> (\<forall>n strVec a. map_at MODULATION_NAME_ALIAS n = Inr strVec \<and> a \<in> set strVec
          \<longrightarrow> getModulationName a = n)"
proof (intro conjI allI impI)
  fix n assume "n \<noteq> NAME_UNKNOWN"
  then show "\<exists>s rest. map_at MODULATION_NAME_ALIAS n = Inr (s # rest) \<and> getModulationString n = Inr s"
    by (rule first_alias)
next
  fix n strVec a
  assume "map_at MODULATION_NAME_ALIAS n = Inr strVec \<and> a \<in> set strVec"
  then have "(n, strVec) \<in> set MODULATION_NAME_ALIAS" and "a \<in> set strVec"
    by (simp_all add: map_at_mem)
  with table_round_trip show "getModulationName a = n" by fastforce
qed

theorem alias_table_round_trip_witness:
  "map_at MODULATION_NAME_ALIAS NAME_OOK = Inr [''OOK'', ''2ASK'', ''ASK2'']
   \<and> getModulationString NAME_OOK = Inr ''OOK''
   \<and> getModulationName ''ASK2'' = NAME_OOK"
proof -
  have m: "map_at MODULATION_NAME_ALIAS NAME_OOK = Inr [''OOK'', ''2ASK'', ''ASK2'']"
    by (simp add: MODULATION_NAME_ALIAS_def)
  have ne: "NAME_OOK \<noteq> NAME_UNKNOWN" by simp
  from alias_table_round_trip ne m
  have "getModulationString NAME_OOK = Inr ''OOK''"
    by (metis Inr_inject list.inject)
  moreover from alias_table_round_trip m
  have "getModulationName ''ASK2'' = NAME_OOK"
    by (metis list.set_intros(1) list.set_intros(2))
  ultimately show ?thesis using m by simp
qed

subsection \<open>verifyAliasNames\<close>

lemma verify_strOne_fst:
  "fst (verify_strOne strOneVec strTwo st) = (fst st \<and> strTwo \<notin> set strOneVec)"
  by (induction strOneVec) auto

lemma verify_strTwo_fst:
  "fst (verify_strTwo strOneVec strTwoVec st) = (fst st \<and> set strOneVec \<inter> set strTwoVec = {})"
  by (induction strTwoVec arbitrary: st) (auto simp: verify_strOne_fst)

lemma verify_mapTwo_fst:
  "fst (verify_mapTwo strOneVec rest st) =
     (fst st \<and> (\<forall>e \<in> set rest. snd e \<noteq> [] \<and> set strOneVec \<inter> set (snd e) = {}))"
proof (induction rest arbitrary: st)
  case Nil
  then show ?case by simp
next
  case (Cons e rest)
  obtain n2 strTwoVec where e: "e = (n2, strTwoVec)" by (cases e)
  show ?case
    unfolding e by (simp add: Cons.IH verify_strTwo_fst)
qed

lemma name_code_0: "name_code n = 0 \<longleftrightarrow> n = NAME_UNKNOWN"
  by (cases n) simp_all

lemma wf_alias_table_Cons:
  "wf_alias_table (e # rest) \<Longrightarrow>
     wf_alias_table rest \<and> (\<forall>e' \<in> set rest. fst e' \<noteq> NAME_UNKNOWN \<and> fst e' \<noteq> fst e)"
  unfolding wf_alias_table_def
  by (auto simp: name_code_0 [symmetric] simp del: name_code.simps)

lemma verify_mapOne_fst:
  "wf_alias_table tbl \<Longrightarrow> fst (verify_mapOne tbl st) = (fst st \<and> aliases_ok tbl)"
proof (induction tbl arbitrary: st)
  case Nil
  then show ?case by (simp add: aliases_ok_def)
next
  case (Cons e rest)
  obtain n1 strOneVec where e: "e = (n1, strOneVec)" by (cases e)
  from wf_alias_table_Cons [OF Cons.prems]
  have wf: "wf_alias_table rest"
    and later: "\<forall>e' \<in> set rest. fst e' \<noteq> NAME_UNKNOWN \<and> fst e' \<noteq> n1"
    by (simp_all add: e)
  note IH = Cons.IH [OF wf]
  show ?case
  proof (cases "n1 = NAME_UNKNOWN")
    case True
    then have "aliases_ok (e # rest) = aliases_ok rest"
      using later unfolding aliases_ok_def e by auto
    then show ?thesis by (simp add: e True IH)
  next
    case False
    have split: "\<And>v. aliases_ok ((n1, v) # rest) =
        (v \<noteq> [] \<and> (\<forall>e' \<in> set rest. snd e' \<noteq> [] \<and> set v \<inter> set (snd e') = {})
         \<and> aliases_ok rest)"
      using later False unfolding aliases_ok_def
      by (auto simp: Int_commute disjoint_iff) (metis fst_conv snd_conv)+
    show ?thesis
      by (simp add: e False IH verify_mapTwo_fst split)
  qed
qed

lemma verify_strOne_cases:
  "verify_strOne strOneVec strTwo st = st \<or>
   (verify_strOne strOneVec strTwo st = (False, strTwo) \<and> strTwo \<in> set strOneVec)"
  by (induction strOneVec) auto

lemma verify_strTwo_cases:
  "verify_strTwo strOneVec strTwoVec st = st \<or>
   (\<exists>d. verify_strTwo strOneVec strTwoVec st = (False, d) \<and> d \<in> set strOneVec \<and> d \<in> set strTwoVec)"
proof (induction strTwoVec arbitrary: st)
  case Nil
  then show ?case by simp
next
  case (Cons strTwo strTwoVec)
  from verify_strOne_cases [of strOneVec strTwo st] Cons.IH [of "verify_strOne strOneVec strTwo st"]
  show ?case by auto
qed

lemma verify_mapTwo_cases:
  "\<forall>e \<in> set rest. snd e \<noteq> [] \<Longrightarrow>
   verify_mapTwo strOneVec rest st = st \<or>
   (\<exists>d. \<exists>e \<in> set rest. verify_mapTwo strOneVec rest st = (False, d)
       \<and> d \<in> set strOneVec \<and> d \<in> set (snd e))"
proof (induction rest arbitrary: st)
  case Nil
  then show ?case by simp
next
  case (Cons e rest)
  obtain n2 strTwoVec where e: "e = (n2, strTwoVec)" by (cases e)
  from Cons.prems have ne: "strTwoVec \<noteq> []" and rest: "\<forall>e \<in> set rest. snd e \<noteq> []"
    by (simp_all add: e)
  from verify_strTwo_cases [of strOneVec strTwoVec st]
    Cons.IH [OF rest, of "verify_strTwo strOneVec strTwoVec st"]
  show ?case by (auto simp: e ne)
qed

lemma shared_alias_Cons: "shared_alias rest d \<Longrightarrow> shared_alias (e # rest) d"
  unfolding shared_alias_def by auto

lemma verify_mapOne_cases:
  "wf_alias_table tbl \<Longrightarrow> \<forall>e \<in> set tbl. fst e \<noteq> NAME_UNKNOWN \<longrightarrow> snd e \<noteq> [] \<Longrightarrow>
   verify_mapOne tbl st = st \<or> (\<exists>d. verify_mapOne tbl st = (False, d) \<and> shared_alias tbl d)"
proof (induction tbl arbitrary: st)
  case Nil
  then show ?case by simp
next
  case (Cons e rest)
  obtain n1 strOneVec where e: "e = (n1, strOneVec)" by (cases e)
  from wf_alias_table_Cons [OF Cons.prems(1)]
  have wf: "wf_alias_table rest"
    and later: "\<forall>e' \<in> set rest. fst e' \<noteq> NAME_UNKNOWN \<and> fst e' \<noteq> n1"
    by (simp_all add: e)
  from Cons.prems(2) later have ne_rest: "\<forall>e \<in> set rest. snd e \<noteq> []"
    and ne_rest': "\<forall>e \<in> set rest. fst e \<noteq> NAME_UNKNOWN \<longrightarrow> snd e \<noteq> []"
    by auto
  note IH = Cons.IH [OF wf ne_rest']
  show ?case
  proof (cases "n1 = NAME_UNKNOWN")
    case True
    with IH [of st] show ?thesis by (auto simp: e intro: shared_alias_Cons)
  next
    case False
    with Cons.prems(2) have ne: "strOneVec \<noteq> []" by (simp add: e)
    have here: "shared_alias (e # rest) d"
      if "e' \<in> set rest" "d \<in> set strOneVec" "d \<in> set (snd e')" for d e'
      unfolding shared_alias_def using that later False
      by (intro bexI [of _ e] bexI [of _ e']) (auto simp: e)
    from verify_mapTwo_cases [OF ne_rest, of strOneVec st]
      IH [of "verify_mapTwo strOneVec rest st"]
    show ?thesis
      by (auto simp: e False ne intro: shared_alias_Cons here [unfolded e])
  qed
qed

text \<open>
  Claim C9, as amended. For every table (a map, so its keys strictly increase),
  \<open>verifyAliasNames\<close> returns true if and only if every name other than \<open>NAME_UNKNOWN\<close>
  has a non-empty vector of strings and no string stands in the vectors of two different
  names other than \<open>NAME_UNKNOWN\<close>; and when it returns false on a table whose named
  vectors are all non-empty, the string it reports is one that stands in the vectors of
  two different names other than \<open>NAME_UNKNOWN\<close>.
\<close>

theorem verifyAliasNames_checks_named_entries:
  assumes "wf_alias_table tbl"
  shows "fst (verifyAliasNames_in tbl aDuplicate) = aliases_ok tbl
     \<and> ((\<forall>e \<in> set tbl. fst e \<noteq> NAME_UNKNOWN \<longrightarrow> snd e \<noteq> [])
          \<longrightarrow> (\<forall>d. verifyAliasNames_in tbl aDuplicate = (False, d) \<longrightarrow> shared_alias tbl d))"
proof (intro conjI impI allI)
  show "fst (verifyAliasNames_in tbl aDuplicate) = aliases_ok tbl"
    by (simp add: verifyAliasNames_in_def verify_mapOne_fst [OF assms])
next
  fix d
  assume ne: "\<forall>e \<in> set tbl. fst e \<noteq> NAME_UNKNOWN \<longrightarrow> snd e \<noteq> []"
    and res: "verifyAliasNames_in tbl aDuplicate = (False, d)"
  from verify_mapOne_cases [OF assms ne, of "(True, aDuplicate)"] res
  show "shared_alias tbl d" by (auto simp: verifyAliasNames_in_def)
qed

theorem verifyAliasNames_checks_named_entries_witness:
  "wf_alias_table MODULATION_NAME_ALIAS
   \<and> fst (verifyAliasNames [])
   \<and> aliases_ok MODULATION_NAME_ALIAS
   \<and> wf_alias_table [(NAME_AM_SSB, [''x'']), (NAME_FM, [''x''])]
   \<and> verifyAliasNames_in [(NAME_AM_SSB, [''x'']), (NAME_FM, [''x''])] [] = (False, ''x'')
   \<and> \<not> aliases_ok [(NAME_AM_SSB, [''x'']), (NAME_FM, [''x''])]
   \<and> shared_alias [(NAME_AM_SSB, [''x'']), (NAME_FM, [''x''])] ''x''"
proof -
  let ?T = "[(NAME_AM_SSB, [''x'']), (NAME_FM, [''x''])]"
  have wf1: "wf_alias_table MODULATION_NAME_ALIAS"
    by (simp add: wf_alias_table_def MODULATION_NAME_ALIAS_def)
  have r1: "verifyAliasNames [] = (True, [])"
    by (simp add: verifyAliasNames_def verifyAliasNames_in_def MODULATION_NAME_ALIAS_def)
  have wf2: "wf_alias_table ?T" by (simp add: wf_alias_table_def)
  have r2: "verifyAliasNames_in ?T [] = (False, ''x'')"
    by (simp add: verifyAliasNames_in_def)
  have ne2: "\<forall>e \<in> set ?T. fst e \<noteq> NAME_UNKNOWN \<longrightarrow> snd e \<noteq> []" by simp
  from verifyAliasNames_checks_named_entries [OF wf1, of "[]"] r1
  have "aliases_ok MODULATION_NAME_ALIAS" by (simp add: verifyAliasNames_def)
  moreover from verifyAliasNames_checks_named_entries [OF wf2, of "[]"] r2 ne2
  have "\<not> aliases_ok ?T" and "shared_alias ?T ''x''" by auto
  ultimately show ?thesis using wf1 r1 wf2 r2 by simp
qed

text \<open>
  The claim as stated fails on the entry of \<open>NAME_UNKNOWN\<close>, which the check skips: the
  empty string stands in the vectors of two names and the check still returns true.
\<close>

theorem verifyAliasNames_counterexample:
  "wf_alias_table [(NAME_UNKNOWN, ['''']), (NAME_AM_SSB, [''''])]
   \<and> map_at [(NAME_UNKNOWN, ['''']), (NAME_AM_SSB, [''''])] NAME_UNKNOWN = Inr ['''']
   \<and> map_at [(NAME_UNKNOWN, ['''']), (NAME_AM_SSB, [''''])] NAME_AM_SSB = Inr ['''']
   \<and> fst (verifyAliasNames_in [(NAME_UNKNOWN, ['''']), (NAME_AM_SSB, [''''])] [])"
  by (simp add: wf_alias_table_def verifyAliasNames_in_def)

text \<open>
  The string reported need not be the first duplicate met: the \<^verbatim>\<open>break\<close> after a match
  leaves the innermost loop only, the comparison goes on, and a later match overwrites
  \<open>aDuplicate\<close>. Here \<open>''x''\<close> is met first and \<open>''y''\<close> is reported.
\<close>

lemma verifyAliasNames_reports_last_match:
  "verifyAliasNames_in
     [(NAME_AM_SSB, [''x'', ''y'']), (NAME_FM, [''x'']), (NAME_PM, [''y''])] []
   = (False, ''y'')"
  by (simp add: verifyAliasNames_in_def)

section \<open>Verification: transceivers\<close>

subsection \<open>Setters\<close>

lemma AdiTrxAd9361_setTxLoFrequency_contract:
  "range_checked_setter AdiTrxAd9361_setTxLoFrequency mTxLoFrequencyParams mTxLoFrequency"
  unfolding range_checked_setter_def
proof (intro allI conjI impI)
  fix bus :: iio_bus and st :: AdiTrx and a :: int
  assume "a < min_limit (mTxLoFrequencyParams st) \<or> max_limit (mTxLoFrequencyParams st) < a"
  then show "AdiTrxAd9361_setTxLoFrequency bus st a = (False, st)"
    by (auto simp: AdiTrxAd9361_setTxLoFrequency_def)
next
  fix bus :: iio_bus and st :: AdiTrx and a :: int
  assume "min_limit (mTxLoFrequencyParams st) \<le> a \<and> a \<le> max_limit (mTxLoFrequencyParams st)"
  then show "\<exists>chn attr.
      fst (AdiTrxAd9361_setTxLoFrequency bus st a) = (bus chn attr a = 0) \<and>
      attr_writes (snd (AdiTrxAd9361_setTxLoFrequency bus st a)) = attr_writes st @ [(chn, attr, a)] \<and>
      mTxLoFrequency (snd (AdiTrxAd9361_setTxLoFrequency bus st a))
        = (if bus chn attr a = 0 then a else mTxLoFrequency st)"
    by (intro exI [of _ TxLoChan] exI [of _ "''frequency''"])
       (simp add: AdiTrxAd9361_setTxLoFrequency_def iio_channel_attr_write_longlong_def)
qed

lemma AdiTrxAdrv9009_setTxLoFrequency_contract:
  "range_checked_setter AdiTrxAdrv9009_setTxLoFrequency mTxLoFrequencyParams mTxLoFrequency"
  unfolding range_checked_setter_def
proof (intro allI conjI impI)
  fix bus :: iio_bus and st :: AdiTrx and a :: int
  assume "a < min_limit (mTxLoFrequencyParams st) \<or> max_limit (mTxLoFrequencyParams st) < a"
  then show "AdiTrxAdrv9009_setTxLoFrequency bus st a = (False, st)"
    by (auto simp: AdiTrxAdrv9009_setTxLoFrequency_def)
next
  fix bus :: iio_bus and st :: AdiTrx and a :: int
  assume "min_limit (mTxLoFrequencyParams st) \<le> a \<and> a \<le> max_limit (mTxLoFrequencyParams st)"
  then show "\<exists>chn attr.
      fst (AdiTrxAdrv9009_setTxLoFrequency bus st a) = (bus chn attr a = 0) \<and>
      attr_writes (snd (AdiTrxAdrv9009_setTxLoFrequency bus st a)) = attr_writes st @ [(chn, attr, a)] \<and>
      mTxLoFrequency (snd (AdiTrxAdrv9009_setTxLoFrequency bus st a))
        = (if bus chn attr a = 0 then a else mTxLoFrequency st)"
    by (intro exI [of _ TxLoChan] exI [of _ "''frequency''"])
       (simp add: AdiTrxAdrv9009_setTxLoFrequency_def iio_channel_attr_write_longlong_def)
qed

lemma AdiTrxAd9081_setTxLoFrequency_contract:
  "range_checked_setter AdiTrxAd9081_setTxLoFrequency mTxLoFrequencyParams mTxLoFrequency"
  unfolding range_checked_setter_def
proof (intro allI conjI impI)
  fix bus :: iio_bus and st :: AdiTrx and a :: int
  assume "a < min_limit (mTxLoFrequencyParams st) \<or> max_limit (mTxLoFrequencyParams st) < a"
  then show "AdiTrxAd9081_setTxLoFrequency bus st a = (False, st)"
    by (auto simp: AdiTrxAd9081_setTxLoFrequency_def)
next
  fix bus :: iio_bus and st :: AdiTrx and a :: int
  assume "min_limit (mTxLoFrequencyParams st) \<le> a \<and> a \<le> max_limit (mTxLoFrequencyParams st)"
  then show "\<exists>chn attr.
      fst (AdiTrxAd9081_setTxLoFrequency bus st a) = (bus chn attr a = 0) \<and>
      attr_writes (snd (AdiTrxAd9081_setTxLoFrequency bus st a)) = attr_writes st @ [(chn, attr, a)] \<and>
      mTxLoFrequency (snd (AdiTrxAd9081_setTxLoFrequency bus st a))
        = (if bus chn attr a = 0 then a else mTxLoFrequency st)"
    by (intro exI [of _ TxNcoChan] exI [of _ "''main_nco_frequency''"])
       (simp add: AdiTrxAd9081_setTxLoFrequency_def iio_channel_attr_write_longlong_def)
qed

lemma AdiTrxAd9361_setTxBandwidth_contract:
  "range_checked_setter AdiTrxAd9361_setTxBandwidth mTxBandwidthParams mTxBandwidth"
  unfolding range_checked_setter_def
proof (intro allI conjI impI)
  fix bus :: iio_bus and st :: AdiTrx and a :: int
  assume "a < min_limit (mTxBandwidthParams st) \<or> max_limit (mTxBandwidthParams st) < a"
  then show "AdiTrxAd9361_setTxBandwidth bus st a = (False, st)"
    by (auto simp: AdiTrxAd9361_setTxBandwidth_def)
next
  fix bus :: iio_bus and st :: AdiTrx and a :: int
  assume "min_limit (mTxBandwidthParams st) \<le> a \<and> a \<le> max_limit (mTxBandwidthParams st)"
  then show "\<exists>chn attr.
      fst (AdiTrxAd9361_setTxBandwidth bus st a) = (bus chn attr a = 0) \<and>
      attr_writes (snd (AdiTrxAd9361_setTxBandwidth bus st a)) = attr_writes st @ [(chn, attr, a)] \<and>
      mTxBandwidth (snd (AdiTrxAd9361_setTxBandwidth bus st a))
        = (if bus chn attr a = 0 then a else mTxBandwidth st)"
    by (intro exI [of _ TxPhyChan] exI [of _ "''rf_bandwidth''"])
       (simp add: AdiTrxAd9361_setTxBandwidth_def iio_channel_attr_write_longlong_def)
qed

lemma AdiTrxAd9361_setTxSamplingFrequency_contract:
  "range_checked_setter AdiTrxAd9361_setTxSamplingFrequency
     mTxSamplingFrequencyParams mTxSamplingFrequency"
  unfolding range_checked_setter_def
proof (intro allI conjI impI)
  fix bus :: iio_bus and st :: AdiTrx and a :: int
  assume "a < min_limit (mTxSamplingFrequencyParams st) \<or> max_limit (mTxSamplingFrequencyParams st) < a"
  then show "AdiTrxAd9361_setTxSamplingFrequency bus st a = (False, st)"
    by (auto simp: AdiTrxAd9361_setTxSamplingFrequency_def)
next
  fix bus :: iio_bus and st :: AdiTrx and a :: int
  assume "min_limit (mTxSamplingFrequencyParams st) \<le> a \<and> a \<le> max_limit (mTxSamplingFrequencyParams st)"
  then show "\<exists>chn attr.
      fst (AdiTrxAd9361_setTxSamplingFrequency bus st a) = (bus chn attr a = 0) \<and>
      attr_writes (snd (AdiTrxAd9361_setTxSamplingFrequency bus st a)) = attr_writes st @ [(chn, attr, a)] \<and>
      mTxSamplingFrequency (snd (AdiTrxAd9361_setTxSamplingFrequency bus st a))
        = (if bus chn attr a = 0 then a else mTxSamplingFrequency st)"
    by (intro exI [of _ TxPhyChan] exI [of _ "''sampling_frequency''"])
       (simp add: AdiTrxAd9361_setTxSamplingFrequency_def iio_channel_attr_write_longlong_def)
qed

lemma AdiTrxAd9361_setTxHwGain_contract:
  "range_checked_double_setter AdiTrxAd9361_setTxHwGain mTxHwGainDbParams mTxHwGainDb"
  unfolding range_checked_double_setter_def
proof (intro allI conjI impI)
  fix dbus :: iio_bus_double and st :: AdiTrx and a :: real
  assume "a < min_dbl (mTxHwGainDbParams st) \<or> max_dbl (mTxHwGainDbParams st) < a"
  then show "AdiTrxAd9361_setTxHwGain dbus st a = (False, st)"
    by (auto simp: AdiTrxAd9361_setTxHwGain_def)
next
  fix dbus :: iio_bus_double and st :: AdiTrx and a :: real
  assume "min_dbl (mTxHwGainDbParams st) \<le> a \<and> a \<le> max_dbl (mTxHwGainDbParams st)"
  then show "\<exists>chn attr.
      fst (AdiTrxAd9361_setTxHwGain dbus st a) = (dbus chn attr a = 0) \<and>
      attr_writes_double (snd (AdiTrxAd9361_setTxHwGain dbus st a))
        = attr_writes_double st @ [(chn, attr, a)] \<and>
      mTxHwGainDb (snd (AdiTrxAd9361_setTxHwGain dbus st a))
        = (if dbus chn attr a = 0 then a else mTxHwGainDb st)"
    by (intro exI [of _ TxPhyChan] exI [of _ "''hardwaregain''"])
       (simp add: AdiTrxAd9361_setTxHwGain_def iio_channel_attr_write_double_def)
qed

lemma AdiTrxAdrv9009_setTxHwGain_contract:
  "range_checked_double_setter AdiTrxAdrv9009_setTxHwGain mTxHwGainDbParams mTxHwGainDb"
  unfolding range_checked_double_setter_def
proof (intro allI conjI impI)
  fix dbus :: iio_bus_double and st :: AdiTrx and a :: real
  assume "a < min_dbl (mTxHwGainDbParams st) \<or> max_dbl (mTxHwGainDbParams st) < a"
  then show "AdiTrxAdrv9009_setTxHwGain dbus st a = (False, st)"
    by (auto simp: AdiTrxAdrv9009_setTxHwGain_def)
next
  fix dbus :: iio_bus_double and st :: AdiTrx and a :: real
  assume "min_dbl (mTxHwGainDbParams st) \<le> a \<and> a \<le> max_dbl (mTxHwGainDbParams st)"
  then show "\<exists>chn attr.
      fst (AdiTrxAdrv9009_setTxHwGain dbus st a) = (dbus chn attr a = 0) \<and>
      attr_writes_double (snd (AdiTrxAdrv9009_setTxHwGain dbus st a))
        = attr_writes_double st @ [(chn, attr, a)] \<and>
      mTxHwGainDb (snd (AdiTrxAdrv9009_setTxHwGain dbus st a))
        = (if dbus chn attr a = 0 then a else mTxHwGainDb st)"
    by (intro exI [of _ TxPhyChan] exI [of _ "''hardwaregain''"])
       (simp add: AdiTrxAdrv9009_setTxHwGain_def iio_channel_attr_write_double_def)
qed

lemma AdiTrxAd9081_setTxNcoGainScale_contract:
  "range_checked_writer AdiTrxAd9081_setTxNcoGainScale 0 1"
  unfolding range_checked_writer_def
proof (intro allI conjI impI)
  fix dbus :: iio_bus_double and st :: AdiTrx and a :: real
  assume "a < 0 \<or> 1 < a"
  then show "AdiTrxAd9081_setTxNcoGainScale dbus st a = (False, st)"
    by (auto simp: AdiTrxAd9081_setTxNcoGainScale_def)
next
  fix dbus :: iio_bus_double and st :: AdiTrx and a :: real
  assume "0 \<le> a \<and> a \<le> 1"
  then show "\<exists>chn attr.
      fst (AdiTrxAd9081_setTxNcoGainScale dbus st a) = (dbus chn attr a = 0) \<and>
      attr_writes_double (snd (AdiTrxAd9081_setTxNcoGainScale dbus st a))
        = attr_writes_double st @ [(chn, attr, a)]"
    by (intro exI [of _ TxNcoChan] exI [of _ "''channel_nco_gain_scale''"])
       (auto simp: AdiTrxAd9081_setTxNcoGainScale_def iio_channel_attr_write_double_def)
qed

lemma pinned_setters:
  "pinned_setter AdiTrxAdrv9009_setTxBandwidth"
  "pinned_setter AdiTrxAdrv9009_setTxSamplingFrequency"
  "pinned_setter AdiTrxAdrv9009_setTxNcoGainScale"
  "pinned_setter AdiTrxAd9361_setTxNcoGainScale"
  "pinned_setter AdiTrxAd9081_setTxBandwidth"
  "pinned_setter AdiTrxAd9081_setTxHwGain"
  "pinned_setter AdiTrxAd9081_setTxSamplingFrequency"
  by (simp_all add: pinned_setter_def AdiTrxAdrv9009_setTxBandwidth_def
      AdiTrxAdrv9009_setTxSamplingFrequency_def AdiTrxAdrv9009_setTxNcoGainScale_def
      AdiTrxAd9361_setTxNcoGainScale_def AdiTrxAd9081_setTxBandwidth_def
      AdiTrxAd9081_setTxHwGain_def AdiTrxAd9081_setTxSamplingFrequency_def)

lemma TxHal_setTxSamplingFrequency_contract:
  "range_checked_setter (TxHal_setTxSamplingFrequency TX_DEVICE_AD9361)
     mTxSamplingFrequencyParams mTxSamplingFrequency"
  "dev \<noteq> TX_DEVICE_AD9361 \<Longrightarrow> pinned_setter (TxHal_setTxSamplingFrequency dev bus)"
proof -
  have "TxHal_setTxSamplingFrequency TX_DEVICE_AD9361 = AdiTrxAd9361_setTxSamplingFrequency"
    by (simp add: fun_eq_iff)
  then show "range_checked_setter (TxHal_setTxSamplingFrequency TX_DEVICE_AD9361)
     mTxSamplingFrequencyParams mTxSamplingFrequency"
    using AdiTrxAd9361_setTxSamplingFrequency_contract by simp
  show "dev \<noteq> TX_DEVICE_AD9361 \<Longrightarrow> pinned_setter (TxHal_setTxSamplingFrequency dev bus)"
    by (cases dev) (simp_all add: pinned_setter_def)
qed

lemma TxHal_setTxNcoGainScale_contract:
  "range_checked_writer (TxHal_setTxNcoGainScale TX_DEVICE_AD9081) 0 1"
  "dev \<noteq> TX_DEVICE_AD9081 \<Longrightarrow> pinned_setter (TxHal_setTxNcoGainScale dev dbus)"
proof -
  have "TxHal_setTxNcoGainScale TX_DEVICE_AD9081 = AdiTrxAd9081_setTxNcoGainScale"
    by (simp add: fun_eq_iff)
  then show "range_checked_writer (TxHal_setTxNcoGainScale TX_DEVICE_AD9081) 0 1"
    using AdiTrxAd9081_setTxNcoGainScale_contract by simp
  show "dev \<noteq> TX_DEVICE_AD9081 \<Longrightarrow> pinned_setter (TxHal_setTxNcoGainScale dev dbus)"
    by (cases dev)
       (simp_all add: pinned_setter_def AdiTrxAd9361_setTxNcoGainScale_def
          AdiTrxAdrv9009_setTxNcoGainScale_def)
qed

text \<open>
  Claim C7, as amended. The setters of the five parameters (LO frequency, sampling
  frequency, bandwidth, hardware gain, NCO gain scale) of the three variants are of two
  kinds. The setter of a parameter that the variant pins or does not have (the bandwidth and
  the sampling frequency of ADRV9009 and of AD9081, the hardware gain of AD9081, the NCO
  gain scale of AD9361 and of ADRV9009) returns false for every argument and attempts no
  write. Every other setter validates its argument against the range of the parameter:
  the cached range for the LO frequency of the three variants, the bandwidth, the
  sampling frequency and the hardware gain of AD9361 and the hardware gain of ADRV9009,
  the range \<open>[0, 1]\<close> for the NCO gain scale of AD9081. For an argument outside the range it
  returns false, attempts no write and leaves the cached value, and the whole state,
  unchanged. For an argument inside the range it attempts one write of the argument and
  returns whether the write succeeded; a setter with a cached range stores the argument in
  the cache exactly when the write succeeded. The dispatch of \<open>TxHal\<close> keeps these
  contracts.
\<close>

theorem setters_validate_then_write:
  "range_checked_setter AdiTrxAd9361_setTxLoFrequency mTxLoFrequencyParams mTxLoFrequency
   \<and> range_checked_setter AdiTrxAdrv9009_setTxLoFrequency mTxLoFrequencyParams mTxLoFrequency
   \<and> range_checked_setter AdiTrxAd9081_setTxLoFrequency mTxLoFrequencyParams mTxLoFrequency
   \<and> range_checked_setter AdiTrxAd9361_setTxBandwidth mTxBandwidthParams mTxBandwidth
   \<and> range_checked_setter AdiTrxAd9361_setTxSamplingFrequency
         mTxSamplingFrequencyParams mTxSamplingFrequency
   \<and> (\<forall>dev. dev \<noteq> TX_DEVICE_UNKNOWN
         \<longrightarrow> range_checked_setter (TxHal_setTxLoFrequency dev) mTxLoFrequencyParams mTxLoFrequency)
   \<and> range_checked_double_setter AdiTrxAd9361_setTxHwGain mTxHwGainDbParams mTxHwGainDb
   \<and> range_checked_double_setter AdiTrxAdrv9009_setTxHwGain mTxHwGainDbParams mTxHwGainDb
   \<and> range_checked_writer AdiTrxAd9081_setTxNcoGainScale 0 1
   \<and> pinned_setter AdiTrxAdrv9009_setTxBandwidth
   \<and> pinned_setter AdiTrxAdrv9009_setTxSamplingFrequency
   \<and> pinned_setter AdiTrxAdrv9009_setTxNcoGainScale
   \<and> pinned_setter AdiTrxAd9361_setTxNcoGainScale
   \<and> pinned_setter AdiTrxAd9081_setTxBandwidth
   \<and> pinned_setter AdiTrxAd9081_setTxHwGain
   \<and> pinned_setter AdiTrxAd9081_setTxSamplingFrequency
   \<and> range_checked_setter (TxHal_setTxSamplingFrequency TX_DEVICE_AD9361)
         mTxSamplingFrequencyParams mTxSamplingFrequency
   \<and> (\<forall>dev bus. dev \<noteq> TX_DEVICE_AD9361
         \<longrightarrow> pinned_setter (TxHal_setTxSamplingFrequency dev bus))
   \<and> range_checked_writer (TxHal_setTxNcoGainScale TX_DEVICE_AD9081) 0 1
   \<and> (\<forall>dev dbus. dev \<noteq> TX_DEVICE_AD9081
         \<longrightarrow> pinned_setter (TxHal_setTxNcoGainScale dev dbus))"
proof -
  have lo: "range_checked_setter (TxHal_setTxLoFrequency dev) mTxLoFrequencyParams mTxLoFrequency"
    if "dev \<noteq> TX_DEVICE_UNKNOWN" for dev
  proof -
    from that have "TxHal_setTxLoFrequency dev = AdiTrxAd9361_setTxLoFrequency
        \<or> TxHal_setTxLoFrequency dev = AdiTrxAd9081_setTxLoFrequency
        \<or> TxHal_setTxLoFrequency dev = AdiTrxAdrv9009_setTxLoFrequency"
      by (cases dev) (auto simp: fun_eq_iff)
    then show ?thesis
      using AdiTrxAd9361_setTxLoFrequency_contract AdiTrxAd9081_setTxLoFrequency_contract
        AdiTrxAdrv9009_setTxLoFrequency_contract
      by auto
  qed
  show ?thesis
    by (intro conjI allI impI lo AdiTrxAd9361_setTxLoFrequency_contract
        AdiTrxAdrv9009_setTxLoFrequency_contract AdiTrxAd9081_setTxLoFrequency_contract
        AdiTrxAd9361_setTxBandwidth_contract AdiTrxAd9361_setTxSamplingFrequency_contract
        AdiTrxAd9361_setTxHwGain_contract AdiTrxAdrv9009_setTxHwGain_contract
        AdiTrxAd9081_setTxNcoGainScale_contract pinned_setters
        TxHal_setTxSamplingFrequency_contract TxHal_setTxNcoGainScale_contract)
qed

text \<open>
  The range of ADRV9009 is \<open>[70 000 000, 6 000 000 000]\<close>. On a bus whose writes succeed,
  69 999 999 is rejected with the state unchanged and 70 000 000 is written and cached.
  The sampling frequency of ADRV9009 is pinned at 122 880 000, and its setter returns false
  for this value.
\<close>

theorem setters_validate_then_write_witness:
  "TxHal_setTxLoFrequency TX_DEVICE_ADRV9009 (\<lambda>chn attr v. 0)
       (snd (AdiTrxAdrv9009_getTxLoFrequencyParams AdiTrx_init)) 69999999
     = (False, snd (AdiTrxAdrv9009_getTxLoFrequencyParams AdiTrx_init))
   \<and> fst (TxHal_setTxLoFrequency TX_DEVICE_ADRV9009 (\<lambda>chn attr v. 0)
            (snd (AdiTrxAdrv9009_getTxLoFrequencyParams AdiTrx_init)) 70000000)
   \<and> mTxLoFrequency (snd (TxHal_setTxLoFrequency TX_DEVICE_ADRV9009 (\<lambda>chn attr v. 0)
            (snd (AdiTrxAdrv9009_getTxLoFrequencyParams AdiTrx_init)) 70000000)) = 70000000
   \<and> length (attr_writes (snd (TxHal_setTxLoFrequency TX_DEVICE_ADRV9009 (\<lambda>chn attr v. 0)
            (snd (AdiTrxAdrv9009_getTxLoFrequencyParams AdiTrx_init)) 70000000))) = 1
   \<and> AdiTrxAdrv9009_setTxSamplingFrequency
        (snd (AdiTrxAdrv9009_getTxSamplingFrequencyParams AdiTrx_init)) 122880000
     = (False, snd (AdiTrxAdrv9009_getTxSamplingFrequencyParams AdiTrx_init))"
proof -
  let ?st = "snd (AdiTrxAdrv9009_getTxLoFrequencyParams AdiTrx_init)"
  let ?bus = "\<lambda>(chn :: iio_channel) (attr :: string) (v :: int). 0 :: int"
  have range: "min_limit (mTxLoFrequencyParams ?st) = 70000000"
    "max_limit (mTxLoFrequencyParams ?st) = 6000000000" "attr_writes ?st = []"
    by (simp_all add: AdiTrxAdrv9009_getTxLoFrequencyParams_def AdiTrx_init_def)
  from setters_validate_then_write
  have c: "range_checked_setter (TxHal_setTxLoFrequency TX_DEVICE_ADRV9009)
             mTxLoFrequencyParams mTxLoFrequency"
    and pin: "pinned_setter AdiTrxAdrv9009_setTxSamplingFrequency"
    by simp_all
  note c' = c [unfolded range_checked_setter_def, THEN spec [of _ ?bus], THEN spec [of _ ?st]]
  from c' [THEN spec [of _ 69999999]]
  have low: "TxHal_setTxLoFrequency TX_DEVICE_ADRV9009 ?bus ?st 69999999 = (False, ?st)"
    using range by simp
  from c' [THEN spec [of _ 70000000]]
  have "fst (TxHal_setTxLoFrequency TX_DEVICE_ADRV9009 ?bus ?st 70000000)"
    and "mTxLoFrequency (snd (TxHal_setTxLoFrequency TX_DEVICE_ADRV9009 ?bus ?st 70000000)) = 70000000"
    and "length (attr_writes (snd (TxHal_setTxLoFrequency TX_DEVICE_ADRV9009 ?bus ?st 70000000))) = 1"
    using range by auto
  with low pin show ?thesis by (simp add: pinned_setter_def)
qed

text \<open>
  The claim as stated fails when the write fails: 70 000 000 lies inside the range of
  ADRV9009 and the setter returns false on a bus whose write returns an error code. It
  fails on a pinned parameter too: 122 880 000 lies inside the range of the sampling
  frequency of ADRV9009 and its setter returns false.
\<close>

theorem setters_counterexample:
  "fst (AdiTrxAdrv9009_setTxLoFrequency (\<lambda>chn attr v. - 5)
          (snd (AdiTrxAdrv9009_getTxLoFrequencyParams AdiTrx_init)) 70000000) = False
   \<and> min_limit (mTxLoFrequencyParams (snd (AdiTrxAdrv9009_getTxLoFrequencyParams AdiTrx_init)))
        \<le> 70000000
   \<and> 70000000
        \<le> max_limit (mTxLoFrequencyParams (snd (AdiTrxAdrv9009_getTxLoFrequencyParams AdiTrx_init)))
   \<and> fst (AdiTrxAdrv9009_setTxSamplingFrequency
            (snd (AdiTrxAdrv9009_getTxSamplingFrequencyParams AdiTrx_init)) 122880000) = False
   \<and> min_limit (mTxSamplingFrequencyParams
                   (snd (AdiTrxAdrv9009_getTxSamplingFrequencyParams AdiTrx_init)))
        \<le> 122880000
   \<and> 122880000
        \<le> max_limit (mTxSamplingFrequencyParams
                        (snd (AdiTrxAdrv9009_getTxSamplingFrequencyParams AdiTrx_init)))"
  by (simp add: AdiTrxAdrv9009_setTxLoFrequency_def AdiTrxAdrv9009_getTxLoFrequencyParams_def
      iio_channel_attr_write_longlong_def AdiTrx_init_def
      AdiTrxAdrv9009_setTxSamplingFrequency_def AdiTrxAdrv9009_getTxSamplingFrequencyParams_def)

text \<open>
  \<^verbatim>\<open>setTxNcoGainScale\<close> of AD9081 is the one validating setter that leaves the cached
  member as it was after a write that succeeded; the statement above says nothing of the
  cache of the NCO gain scale.
\<close>

lemma AdiTrxAd9081_setTxNcoGainScale_keeps_cache:
  "mTxNcoGainScale (snd (AdiTrxAd9081_setTxNcoGainScale dbus st a)) = mTxNcoGainScale st"
  by (simp add: AdiTrxAd9081_setTxNcoGainScale_def iio_channel_attr_write_double_def
      split: prod.splits)

subsection \<open>getSignalData\<close>

text \<open>
  Claim C10, as amended. For every \<open>SignalData\<close> whose vector of frames is non-empty
  and has fewer than 65536 frames, the first of fewer than 65536 points,
  \<open>getSignalData\<close> raises nothing, stores the data, and caches the number of frames and
  the length of the first frame (the two members are \<^verbatim>\<open>uint16_t\<close>). For an empty vector
  of frames the access to element 0 raises \<^verbatim>\<open>std::out_of_range\<close>.
\<close>

theorem getSignalData_caches_sizes:
  "(frameDataVec sd \<noteq> [] \<and> length (frameDataVec sd) < 65536
      \<and> length (frameDataVec sd ! 0) < 65536
      \<longrightarrow> (\<exists>st'. getSignalData st sd = (None, st') \<and> mSignalData st' = sd
             \<and> unat (mFramesNr st') = length (frameDataVec sd)
             \<and> unat (mFrameLength st') = length (frameDataVec sd ! 0)))
   \<and> (frameDataVec sd = [] \<longrightarrow> fst (getSignalData st sd) = Some OutOfRange)"
  by (simp add: getSignalData_def vector_at_def Let_def unat_of_nat)

theorem getSignalData_caches_sizes_witness:
  "fst (getSignalData AdiTrx_init \<lparr>frameDataVec = [[(0, 0), (1, 1)], [(2, 2), (3, 3)], [(4, 4), (5, 5)]], maxVal = 5\<rparr>) = None
   \<and> unat (mFramesNr (snd (getSignalData AdiTrx_init
        \<lparr>frameDataVec = [[(0, 0), (1, 1)], [(2, 2), (3, 3)], [(4, 4), (5, 5)]], maxVal = 5\<rparr>))) = 3
   \<and> unat (mFrameLength (snd (getSignalData AdiTrx_init
        \<lparr>frameDataVec = [[(0, 0), (1, 1)], [(2, 2), (3, 3)], [(4, 4), (5, 5)]], maxVal = 5\<rparr>))) = 2
   \<and> fst (getSignalData AdiTrx_init \<lparr>frameDataVec = [], maxVal = 0\<rparr>) = Some OutOfRange"
  using getSignalData_caches_sizes
      [of "\<lparr>frameDataVec = [[(0, 0), (1, 1)], [(2, 2), (3, 3)], [(4, 4), (5, 5)]], maxVal = 5\<rparr>" AdiTrx_init]
    getSignalData_caches_sizes [of "\<lparr>frameDataVec = [], maxVal = 0\<rparr>" AdiTrx_init]
  by auto

text \<open>
  The claim as stated fails on the width of the two members: with 65536 frames the cached
  number of frames is 0.
\<close>

theorem getSignalData_counterexample:
  "fst (getSignalData AdiTrx_init \<lparr>frameDataVec = replicate 65536 [], maxVal = 1\<rparr>) = None
   \<and> unat (mFramesNr (snd (getSignalData AdiTrx_init
        \<lparr>frameDataVec = replicate 65536 [], maxVal = 1\<rparr>))) = 0
   \<and> length (frameDataVec \<lparr>frameDataVec = replicate 65536 ([] :: FrameData), maxVal = 1\<rparr>) = 65536"
  by (simp add: getSignalData_def vector_at_def Let_def)

subsection \<open>startTxStreaming\<close>

lemma rnd_product_bound:
  fixes rnd :: "real \<Rightarrow> real" and K m x :: real
  assumes acc: "\<forall>y. \<bar>rnd y - y\<bar> \<le> \<bar>y\<bar> / 2 ^ 52"
    and m: "0 < m" and x: "\<bar>x\<bar> \<le> m" and K: "0 \<le> K" "K \<le> 32767"
  shows "\<bar>rnd (x * rnd (K / m))\<bar> < K + 1"
proof -
  define e :: real where "e = 1 / 2 ^ 52"
  have e: "0 < e" "e \<le> 1 / 2 ^ 52" by (simp_all add: e_def)
  have r: "\<bar>rnd y\<bar> \<le> \<bar>y\<bar> * (1 + e)" for y
  proof -
    from acc have "\<bar>rnd y - y\<bar> \<le> \<bar>y\<bar> * e" by (simp add: e_def)
    then have "\<bar>rnd y\<bar> \<le> \<bar>y\<bar> + \<bar>y\<bar> * e" by linarith
    then show ?thesis by (simp add: algebra_simps)
  qed
  have s: "\<bar>rnd (K / m)\<bar> \<le> K / m * (1 + e)"
    using r [of "K / m"] m K by simp
  have "\<bar>x * rnd (K / m)\<bar> = \<bar>x\<bar> * \<bar>rnd (K / m)\<bar>" by (simp add: abs_mult)
  also have "\<dots> \<le> m * (K / m * (1 + e))"
    using x s m by (intro mult_mono) auto
  also have "\<dots> = K * (1 + e)" using m by simp
  finally have p: "\<bar>x * rnd (K / m)\<bar> \<le> K * (1 + e)" .
  have "\<bar>rnd (x * rnd (K / m))\<bar> \<le> \<bar>x * rnd (K / m)\<bar> * (1 + e)" by (rule r)
  also have "\<dots> \<le> K * (1 + e) * (1 + e)"
    using p e by (intro mult_right_mono) auto
  also have "\<dots> = K + K * (2 * e + e * e)" by (simp add: algebra_simps)
  also have "\<dots> < K + 1"
  proof -
    have "2 * e + e * e \<le> 3 * e" using e by (simp add: e_def)
    then have "K * (2 * e + e * e) \<le> 32767 * (3 * e)"
      using K e by (intro mult_mono) auto
    also have "\<dots> < 1" by (simp add: e_def)
    finally show ?thesis by simp
  qed
  finally show ?thesis .
qed

lemma trunc_toward_zero_bound:
  assumes "\<bar>y\<bar> < of_int k + 1"
  shows "\<bar>trunc_toward_zero y\<bar> \<le> k"
proof (cases "0 \<le> y")
  case True
  then have "y < of_int (k + 1)" using assms by simp
  then have "\<lfloor>y\<rfloor> < k + 1" by (simp only: floor_less_iff)
  moreover have "0 \<le> \<lfloor>y\<rfloor>" using True by simp
  ultimately show ?thesis using True by (simp add: trunc_toward_zero_def)
next
  case False
  then have "of_int (- (k + 1)) < y" using assms by simp
  then have "- (k + 1) < \<lceil>y\<rceil>" by (simp only: less_ceiling_iff)
  moreover have "\<lceil>y\<rceil> \<le> 0" using False by (simp add: ceiling_le_iff)
  ultimately show ?thesis using False by (simp add: trunc_toward_zero_def)
qed

lemma int16_wrap_id: "- 32768 \<le> v \<Longrightarrow> v \<le> 32767 \<Longrightarrow> int16_wrap v = v"
  by (simp add: int16_wrap_def)

lemma convert_component_ok:
  fixes rnd :: "real \<Rightarrow> real"
  assumes acc: "\<forall>y. \<bar>rnd y - y\<bar> \<le> \<bar>y\<bar> / 2 ^ 52"
    and m: "0 < m" and x: "\<bar>x\<bar> \<le> m"
    and KS: "(K, S) \<in> {(2047, 4), (8191, 2), (32767, 0)}"
  shows "convert_component rnd (SCALE_RATIO rnd (of_int K) m) S x
           = Inr (trunc_toward_zero (rnd (x * rnd (of_int K / m))) * 2 ^ S)
         \<and> - 32768 \<le> trunc_toward_zero (rnd (x * rnd (of_int K / m))) * 2 ^ S
         \<and> trunc_toward_zero (rnd (x * rnd (of_int K / m))) * 2 ^ S \<le> 32767"
proof -
  let ?t = "trunc_toward_zero (rnd (x * rnd (of_int K / m)))"
  from KS have K: "0 \<le> K" "K \<le> 32767" by auto
  have "\<bar>rnd (x * rnd (of_int K / m))\<bar> < of_int K + 1"
    using rnd_product_bound [OF acc m x, of "of_int K"] K by simp
  then have t: "\<bar>?t\<bar> \<le> K" by (rule trunc_toward_zero_bound)
  then have t16: "- 32768 \<le> ?t" "?t \<le> 32767" using K by linarith+
  have sh: "- 32768 \<le> ?t * 2 ^ S \<and> ?t * 2 ^ S \<le> 32767"
    using KS t by auto
  show ?thesis
    using m t16 sh
    by (simp add: convert_component_def SCALE_RATIO_def cast_i16_def Let_def int16_wrap_id)
qed

lemma tx_fill_all:
  "\<forall>i \<in> set slots. f i = Inr (g i) \<Longrightarrow> tx_fill f slots = Inr (map g slots)"
  by (induction slots) auto

lemma startTx_slot_ok:
  fixes rnd :: "real \<Rightarrow> real"
  assumes acc: "\<forall>y. \<bar>rnd y - y\<bar> \<le> \<bar>y\<bar> / 2 ^ 52"
    and KS: "(K, S) \<in> {(2047, 4), (8191, 2), (32767, 0)}"
    and sd: "mSignalData st = sd"
    and L: "unat (mFrameLength st) = L" "0 < L" "L < 65536"
    and F: "length (frameDataVec sd) < 65536"
    and frames: "\<forall>f \<in> set (frameDataVec sd). length f = L"
    and m: "0 < maxVal sd"
    and bound: "\<forall>f \<in> set (frameDataVec sd). \<forall>p \<in> set f. \<bar>fst p\<bar> \<le> maxVal sd \<and> \<bar>snd p\<bar> \<le> maxVal sd"
    and i: "i < L * length (frameDataVec sd)"
  shows "startTx_slot rnd (of_int K) S st i =
           Inr (trunc_toward_zero (rnd (fst (frameDataVec sd ! (i div L) ! (i mod L)) * rnd (of_int K / maxVal sd))) * 2 ^ S,
                trunc_toward_zero (rnd (snd (frameDataVec sd ! (i div L) ! (i mod L)) * rnd (of_int K / maxVal sd))) * 2 ^ S)"
proof -
  let ?fr = "i div L"
  have fr: "?fr < length (frameDataVec sd)"
    using i L by (simp add: less_mult_imp_div_less mult.commute)
  then have fr16: "?fr mod 65536 = ?fr" using F by simp
  have frame: "frameDataVec sd ! ?fr \<in> set (frameDataVec sd)" using fr by simp
  then have len: "length (frameDataVec sd ! ?fr) = L" using frames by blast
  have "i mod L < L" using L by simp
  then have "i mod L < 65536" using L(3) by (rule less_trans)
  then have small: "i mod L mod 65536 = i mod L" by (rule mod_less)
  have pt_idx: "(if ?fr \<noteq> 0 then i mod L else i) mod 65536 = i mod L"
  proof (cases "?fr = 0")
    case True
    then have "i < L" using L by (simp add: div_eq_0_iff)
    then show ?thesis using True small by simp
  next
    case False
    then show ?thesis using small by simp
  qed
  have pt_lt: "i mod L < length (frameDataVec sd ! ?fr)" using len L by simp
  then have pt: "frameDataVec sd ! ?fr ! (i mod L) \<in> set (frameDataVec sd ! ?fr)" by simp
  from bound frame pt
  have b: "\<bar>fst (frameDataVec sd ! ?fr ! (i mod L))\<bar> \<le> maxVal sd"
          "\<bar>snd (frameDataVec sd ! ?fr ! (i mod L))\<bar> \<le> maxVal sd"
    by blast+
  note ci = convert_component_ok [OF acc m b(1) KS, THEN conjunct1]
  note cq = convert_component_ok [OF acc m b(2) KS, THEN conjunct1]
  show ?thesis
    unfolding startTx_slot_def Let_def sd L(1) fr16 pt_idx
    using fr pt_lt by (simp add: vector_at_def ci cq)
qed

lemma startTxStreaming_body_ok:
  fixes rnd :: "real \<Rightarrow> real"
  assumes acc: "\<forall>y. \<bar>rnd y - y\<bar> \<le> \<bar>y\<bar> / 2 ^ 52"
    and KS: "(K, S) \<in> {(2047, 4), (8191, 2), (32767, 0)}"
    and sd: "mSignalData st = sd"
    and L: "unat (mFrameLength st) = L" "0 < L" "L < 65536"
    and F: "unat (mFramesNr st) = length (frameDataVec sd)" "frameDataVec sd \<noteq> []"
           "length (frameDataVec sd) < 65536"
    and n: "L * length (frameDataVec sd) < 2 ^ 31"
    and frames: "\<forall>f \<in> set (frameDataVec sd). length f = L"
    and m: "0 < maxVal sd"
    and bound: "\<forall>f \<in> set (frameDataVec sd). \<forall>p \<in> set f. \<bar>fst p\<bar> \<le> maxVal sd \<and> \<bar>snd p\<bar> \<le> maxVal sd"
    and ok: "create_ok (L * length (frameDataVec sd))"
  shows "startTxStreaming_body rnd (of_int K) S create_ok st =
           Inr (st\<lparr>mTxBufIqPairsCount := L * length (frameDataVec sd)\<rparr>,
                Some (map (\<lambda>i.
                  (trunc_toward_zero (rnd (fst (frameDataVec sd ! (i div L) ! (i mod L)) * rnd (of_int K / maxVal sd))) * 2 ^ S,
                   trunc_toward_zero (rnd (snd (frameDataVec sd ! (i div L) ! (i mod L)) * rnd (of_int K / maxVal sd))) * 2 ^ S))
                  [0..<L * length (frameDataVec sd)]))"
proof -
  let ?st1 = "st\<lparr>mTxBufIqPairsCount := L * length (frameDataVec sd)\<rparr>"
  have pos: "0 < L * length (frameDataVec sd)" using L F by simp
  have slots: "\<forall>i \<in> set [0..<L * length (frameDataVec sd)].
      startTx_slot rnd (of_int K) S ?st1 i =
        Inr (trunc_toward_zero (rnd (fst (frameDataVec sd ! (i div L) ! (i mod L)) * rnd (of_int K / maxVal sd))) * 2 ^ S,
             trunc_toward_zero (rnd (snd (frameDataVec sd ! (i div L) ! (i mod L)) * rnd (of_int K / maxVal sd))) * 2 ^ S)"
  proof
    fix i assume "i \<in> set [0..<L * length (frameDataVec sd)]"
    then have i: "i < L * length (frameDataVec sd)" by simp
    show "startTx_slot rnd (of_int K) S ?st1 i =
        Inr (trunc_toward_zero (rnd (fst (frameDataVec sd ! (i div L) ! (i mod L)) * rnd (of_int K / maxVal sd))) * 2 ^ S,
             trunc_toward_zero (rnd (snd (frameDataVec sd ! (i div L) ! (i mod L)) * rnd (of_int K / maxVal sd))) * 2 ^ S)"
      by (rule startTx_slot_ok [OF acc KS _ _ L(2,3) F(3) frames m bound i]) (simp_all add: sd L)
  qed
  show ?thesis
    unfolding startTxStreaming_body_def Let_def L(1) F(1)
    using n pos ok by (simp add: tx_fill_all [OF slots])
qed

lemma getSignalData_None:
  assumes "getSignalData st0 sd = (None, st)"
  shows "frameDataVec sd \<noteq> [] \<and> mSignalData st = sd
         \<and> mFramesNr st = of_nat (length (frameDataVec sd))
         \<and> mFrameLength st = of_nat (length (frameDataVec sd ! 0))"
  using assms by (auto simp: getSignalData_def vector_at_def Let_def split: if_splits)

text \<open>
  Claim C1. Let \<open>W\<close> be the DAC width of the variant (12 for AD9361, 14 for ADRV9009, 16
  for AD9081), \<open>SCALE\<close> the \<^verbatim>\<open>double\<close> quotient of \<open>2 ^ (W - 1) - 1\<close> by \<open>maxVal\<close>, and
  \<open>out x\<close> the truncation toward zero of the \<^verbatim>\<open>double\<close> product \<open>x * SCALE\<close>, shifted left
  by \<open>16 - W\<close>. For a loaded \<open>SignalData\<close> whose frames all have the same non-zero length
  \<open>L\<close>, with \<open>maxVal > 0\<close> bounding every component, \<open>startTxStreaming\<close> pushes a buffer
  of one slot per sample, slot \<open>k\<close> holding \<open>(out i, out q)\<close> for the sample \<open>(i, q)\<close> at
  point \<open>k mod L\<close> of frame \<open>k div L\<close>, and every value written lies within \<^verbatim>\<open>int16_t\<close>.
  The rounding \<open>rnd\<close> of the two \<^verbatim>\<open>double\<close> operations is any function with relative error
  at most \<open>2 ^ - 52\<close>; exact arithmetic is the instance \<open>rnd x = x\<close>. The sizes are those
  the \<^verbatim>\<open>uint16_t\<close> members and the \<^verbatim>\<open>int\<close> product can hold, and the buffer is assumed
  to be created.
\<close>

theorem startTxStreaming_converts_every_sample:
  fixes rnd :: "real \<Rightarrow> real"
  assumes dev: "dev \<noteq> TX_DEVICE_UNKNOWN"
    and acc: "\<forall>y. \<bar>rnd y - y\<bar> \<le> \<bar>y\<bar> / 2 ^ 52"
    and loaded: "getSignalData st0 sd = (None, st)"
    and F: "length (frameDataVec sd) < 65536"
    and frames: "\<forall>f \<in> set (frameDataVec sd). length f = L"
    and L: "0 < L" "L < 65536"
    and n: "L * length (frameDataVec sd) < 2 ^ 31"
    and m: "0 < maxVal sd"
    and bound: "\<forall>f \<in> set (frameDataVec sd). \<forall>p \<in> set f. \<bar>fst p\<bar> \<le> maxVal sd \<and> \<bar>snd p\<bar> \<le> maxVal sd"
    and ok: "create_ok (L * length (frameDataVec sd))"
  shows "let W = dac_width dev;
             SCALE = rnd ((2 ^ (W - 1) - 1) / maxVal sd);
             out = (\<lambda>x. trunc_toward_zero (rnd (x * SCALE)) * 2 ^ (16 - W))
         in \<exists>st' buf.
              TxHal_startStreaming dev rnd create_ok st = Inr (st', Some buf)
              \<and> length buf = L * length (frameDataVec sd)
              \<and> (\<forall>k < L * length (frameDataVec sd).
                    buf ! k = (out (fst (frameDataVec sd ! (k div L) ! (k mod L))),
                               out (snd (frameDataVec sd ! (k div L) ! (k mod L))))
                    \<and> - 32768 \<le> out (fst (frameDataVec sd ! (k div L) ! (k mod L)))
                    \<and> out (fst (frameDataVec sd ! (k div L) ! (k mod L))) \<le> 32767
                    \<and> - 32768 \<le> out (snd (frameDataVec sd ! (k div L) ! (k mod L)))
                    \<and> out (snd (frameDataVec sd ! (k div L) ! (k mod L))) \<le> 32767)"
proof -
  from getSignalData_None [OF loaded]
  have ne: "frameDataVec sd \<noteq> []" and sd: "mSignalData st = sd"
    and Fw: "mFramesNr st = of_nat (length (frameDataVec sd))"
    and Lw: "mFrameLength st = of_nat (length (frameDataVec sd ! 0))"
    by simp_all
  from ne have "frameDataVec sd ! 0 \<in> set (frameDataVec sd)" by simp
  with frames have "length (frameDataVec sd ! 0) = L" by blast
  with Lw L have uL: "unat (mFrameLength st) = L" by (simp add: unat_of_nat)
  from Fw F have uF: "unat (mFramesNr st) = length (frameDataVec sd)" by (simp add: unat_of_nat)
  have in_range: "- 32768 \<le> trunc_toward_zero (rnd (x * rnd (of_int K / maxVal sd))) * 2 ^ S
      \<and> trunc_toward_zero (rnd (x * rnd (of_int K / maxVal sd))) * 2 ^ S \<le> 32767"
    if "(K, S) \<in> {(2047, 4), (8191, 2), (32767, 0)}" "\<bar>x\<bar> \<le> maxVal sd" for K S x
    using convert_component_ok [OF acc m that(2) that(1)] by simp
  have pt: "\<bar>fst (frameDataVec sd ! (k div L) ! (k mod L))\<bar> \<le> maxVal sd
          \<and> \<bar>snd (frameDataVec sd ! (k div L) ! (k mod L))\<bar> \<le> maxVal sd"
    if "k < L * length (frameDataVec sd)" for k
  proof -
    have fr: "k div L < length (frameDataVec sd)"
      using that L by (simp add: less_mult_imp_div_less mult.commute)
    then have mem: "frameDataVec sd ! (k div L) \<in> set (frameDataVec sd)" by simp
    with frames have "length (frameDataVec sd ! (k div L)) = L" by blast
    then have "frameDataVec sd ! (k div L) ! (k mod L) \<in> set (frameDataVec sd ! (k div L))"
      using L by simp
    with bound mem show ?thesis by blast
  qed
  have body: "startTxStreaming_body rnd (of_int K) S create_ok st =
           Inr (st\<lparr>mTxBufIqPairsCount := L * length (frameDataVec sd)\<rparr>,
                Some (map (\<lambda>i.
                  (trunc_toward_zero (rnd (fst (frameDataVec sd ! (i div L) ! (i mod L)) * rnd (of_int K / maxVal sd))) * 2 ^ S,
                   trunc_toward_zero (rnd (snd (frameDataVec sd ! (i div L) ! (i mod L)) * rnd (of_int K / maxVal sd))) * 2 ^ S))
                  [0..<L * length (frameDataVec sd)]))"
    if "(K, S) \<in> {(2047, 4), (8191, 2), (32767, 0)}" for K S
    using acc that sd uL L uF ne F n frames m bound ok by (rule startTxStreaming_body_ok)
  show ?thesis
  proof (cases dev)
    case TX_DEVICE_UNKNOWN
    with dev show ?thesis by simp
  next
    case TX_DEVICE_AD9361
    have KS: "(2047, 4) \<in> {(2047, 4), (8191, 2), (32767, 0 :: nat)} " by simp
    show ?thesis
      using body [OF KS] in_range [OF KS] pt
      by (simp add: TX_DEVICE_AD9361 AdiTrxAd9361_startTxStreaming_def Let_def)
  next
    case TX_DEVICE_AD9081
    have KS: "(32767, 0) \<in> {(2047, 4), (8191, 2), (32767, 0 :: nat)} " by simp
    show ?thesis
      using body [OF KS] in_range [OF KS] pt
      by (simp add: TX_DEVICE_AD9081 AdiTrxAd9081_startTxStreaming_def Let_def)
  next
    case TX_DEVICE_ADRV9009
    have KS: "(8191, 2) \<in> {(2047, 4), (8191, 2), (32767, 0 :: nat)} " by simp
    show ?thesis
      using body [OF KS] in_range [OF KS] pt
      by (simp add: TX_DEVICE_ADRV9009 AdiTrxAdrv9009_startTxStreaming_def Let_def)
  qed
qed

theorem startTxStreaming_converts_every_sample_witness:
  "\<exists>st'. TxHal_startStreaming TX_DEVICE_AD9361 (\<lambda>x. x) (\<lambda>n. True)
           (snd (getSignalData AdiTrx_init \<lparr>frameDataVec = [[(1 / 2, - 1)]], maxVal = 1\<rparr>))
         = Inr (st', Some [(16368, - 32752)])"
proof -
  let ?sd = "\<lparr>frameDataVec = [[(1 / 2, - 1 :: real)]], maxVal = 1\<rparr>"
  let ?st = "snd (getSignalData AdiTrx_init ?sd)"
  have loaded: "getSignalData AdiTrx_init ?sd = (None, ?st)"
    by (simp add: getSignalData_def vector_at_def Let_def)
  have acc: "\<forall>y :: real. \<bar>(\<lambda>x. x) y - y\<bar> \<le> \<bar>y\<bar> / 2 ^ 52" by simp
  have t1: "trunc_toward_zero (2047 / 2) = 1023"
    by (simp add: trunc_toward_zero_def floor_eq_iff)
  have t2: "trunc_toward_zero (- 2047) = - 2047"
    by (simp add: trunc_toward_zero_def)
  from startTxStreaming_converts_every_sample
    [of TX_DEVICE_AD9361 "\<lambda>x. x" AdiTrx_init ?sd ?st 1 "\<lambda>n. True", OF _ acc loaded]
  obtain st' buf where run: "TxHal_startStreaming TX_DEVICE_AD9361 (\<lambda>x. x) (\<lambda>n. True) ?st = Inr (st', Some buf)"
    and len: "length buf = 1" and b0: "buf ! 0 = (16368, - 32752)"
    by (auto simp: Let_def t1 t2)
  from len b0 have "buf = [(16368, - 32752)]"
    by (cases buf) auto
  with run show ?thesis by blast
qed

section \<open>Proofs: text-tabular parser\<close>

lemma csv_tokens_done: "length currentLine \<le> j \<Longrightarrow> csv_tokens currentLine j st = st"
  by (subst csv_tokens.simps) simp

lemma csv_tokens_split:
  "csv_tokens currentLine j st =
     foldl (\<lambda>acc tok. push_point (getPoint tok) acc) st (split_tokens (drop j currentLine))"
proof (induction currentLine j st rule: csv_tokens.induct)
  case (1 currentLine j st)
  show ?case
  proof (cases "j < length currentLine")
    case False
    then show ?thesis
      by (simp add: csv_tokens.simps [of currentLine j] split_tokens.simps [of "[]"])
  next
    case True
    then have ne: "drop j currentLine \<noteq> []" by simp
    have tl: "tl (drop j currentLine) = drop (j + 1) currentLine"
      by (simp add: drop_Suc tl_drop)
    show ?thesis
    proof (cases "find_index CHR '','' (drop (j + 1) currentLine)")
      case None
      then have sf: "string_find currentLine CHR '','' (j + 1) = None"
        by (simp add: string_find_def)
      have "csv_tokens currentLine (length currentLine + 1)
              (push_point (getPoint (substr currentLine j (length currentLine - j))) st)
            = push_point (getPoint (substr currentLine j (length currentLine - j))) st"
        by (simp add: csv_tokens_done)
      then show ?thesis
        using True None sf ne tl
        by (simp add: csv_tokens.simps [of currentLine j] split_tokens.simps [of "drop j currentLine"]
            substr_def)
    next
      case (Some i)
      then have sf: "string_find currentLine CHR '','' (j + 1) = Some (j + 1 + i)"
        by (simp add: string_find_def)
      have d: "drop (i + 2) (drop j currentLine) = drop (j + 1 + i + 1) currentLine"
        by (simp add: add.commute add.left_commute)
      from "1.IH"(2) [OF True sf]
      show ?thesis
        using True Some sf ne tl d
        by (simp add: csv_tokens.simps [of currentLine j] split_tokens.simps [of "drop j currentLine"]
            substr_def)
    qed
  qed
qed

lemma push_point_raise: "push_point p (fd, m) = (fd @ [p], raise_max m p)"
  by (auto simp: push_point_def raise_max_def Let_def max_def)

lemma foldl_push_point:
  "foldl (\<lambda>acc tok. push_point (getPoint tok) acc) (fd, m) toks
     = (fd @ map getPoint toks, foldl raise_max m (map getPoint toks))"
  by (induction toks arbitrary: fd m) (simp_all add: push_point_raise)

lemma csv_tokens_frame:
  "csv_tokens currentLine 0 (fd, m) = (fd @ frame_of currentLine, foldl raise_max m (frame_of currentLine))"
  by (simp add: csv_tokens_split foldl_push_point frame_of_def)

lemma frame_of_tokens: "fst (csv_tokens currentLine 0 ([], m)) = frame_of currentLine"
  by (simp add: csv_tokens_frame)

text \<open>Tokens joined by commas are cut back into the tokens.\<close>

lemma find_index_none: "c \<notin> set xs \<Longrightarrow> find_index c xs = None"
  by (induction xs) auto

lemma find_index_append: "c \<notin> set xs \<Longrightarrow> find_index c (xs @ c # ys) = Some (length xs)"
  by (induction xs) auto

lemma split_tokens_single:
  "tok \<noteq> [] \<Longrightarrow> CHR '','' \<notin> set (tl tok) \<Longrightarrow> split_tokens tok = [tok]"
  by (subst split_tokens.simps) (simp add: find_index_none)

lemma split_tokens_cons:
  assumes "tok \<noteq> []" "CHR '','' \<notin> set (tl tok)"
  shows "split_tokens (tok @ CHR '','' # rest) = tok # split_tokens rest"
proof -
  from assms(1) obtain c cs where tok: "tok = c # cs" by (cases tok) auto
  with assms(2) have "find_index CHR '','' (cs @ CHR '','' # rest) = Some (length cs)"
    by (simp add: find_index_append)
  then show ?thesis
    by (subst split_tokens.simps) (simp add: tok)
qed

lemma split_tokens_replicate:
  assumes "tok \<noteq> []" "CHR '','' \<notin> set tok"
  shows "split_tokens (concat (replicate n (tok @ '','')) @ tok) = replicate (Suc n) tok"
proof -
  from assms have tl: "CHR '','' \<notin> set (tl tok)" by (meson list.set_sel(2))
  show ?thesis
  proof (induction n)
    case 0
    from assms(1) tl show ?case by (simp add: split_tokens_single)
  next
    case (Suc n)
    with assms(1) tl show ?case by (simp add: split_tokens_cons)
  qed
qed

lemma series_lookup:
  "map (map_at csv_MODULATION_MAPPING) MODULATION_SERIES = map Inr series_mods"
  by (simp add: csv_MODULATION_MAPPING_def MODULATION_SERIES_def series_mods_def)

lemma series_length: "length MODULATION_SERIES = 26" "length series_mods = 26"
  by (simp_all add: MODULATION_SERIES_def series_mods_def)

lemma series_distinct: "distinct MODULATION_SERIES" "distinct series_mods"
  by (simp_all add: MODULATION_SERIES_def series_mods_def)

lemma block_code_mod: "map_at csv_MODULATION_MAPPING (block_code b) = Inr (block_mod b)"
proof -
  have i: "b mod 26 < 26" by simp
  have "map_at csv_MODULATION_MAPPING (MODULATION_SERIES ! (b mod 26))
      = map (map_at csv_MODULATION_MAPPING) MODULATION_SERIES ! (b mod 26)"
    using i by (simp only: nth_map series_length)
  also have "\<dots> = map Inr series_mods ! (b mod 26)" by (simp only: series_lookup)
  also have "\<dots> = Inr (series_mods ! (b mod 26))"
    using i by (simp only: nth_map series_length)
  finally show ?thesis by (simp only: block_code_def block_mod_def)
qed

lemma line_block_index: "((n :: nat) mod 13000) div 500 = (n div 500) mod 26"
proof -
  have "n mod (500 * 26) = 500 * ((n div 500) mod 26) + n mod 500"
    by (rule mod_mult2_eq)
  then show ?thesis by simp
qed

lemma line_snr_index: "(n :: nat) div 13000 = (n div 500) div 26"
proof -
  have "n div (500 * 26) = (n div 500) div 26" by (rule div_mult2_eq)
  then show ?thesis by simp
qed

lemma mod_split: "r < m \<Longrightarrow> (a * m + r) mod m = (r :: nat)"
  by simp

lemma w2: 
  assumes "q < 10" 
  shows "(18446744073709551596 + 2 * q) mod 4294967296 = 4294967276 + 2 * (q::nat)"
proof -
  have "18446744073709551596 + 2 * q = 4294967295 * 4294967296 + (4294967276 + 2 * q)" by simp
  moreover have "4294967276 + 2 * q < 4294967296" using assms by simp
  ultimately show ?thesis by (simp only: mod_split)
qed

lemma w3: 
  assumes "\<not> q < 10" "q \<le> 1073741824"
  shows "(18446744073709551596 + 2 * q) mod 18446744073709551616 = 2 * (q::nat) - 20"
proof -
  have "18446744073709551596 + 2 * q = 1 * 18446744073709551616 + (2 * q - 20)" using assms by simp
  moreover have "2 * q - 20 < 18446744073709551616" using assms by simp
  ultimately show ?thesis by (simp only: mod_split)
qed

lemma int_of_size_t_snr:
  assumes "q \<le> 2 ^ 30"
  shows "int_of_size_t (size_t_wrap (2 ^ 64 - 20 + 2 * q)) = - 20 + 2 * int q"
proof (cases "q < 10")
  case True
  then have "size_t_wrap (2 ^ 64 - 20 + 2 * q) = 18446744073709551596 + 2 * q"
    by (simp add: size_t_wrap_def)
  then show ?thesis using True w2 [OF True] by (simp add: int_of_size_t_def Let_def)
next
  case False
  from assms have q: "q \<le> 1073741824" by simp
  have "size_t_wrap (2 ^ 64 - 20 + 2 * q) = 2 * q - 20"
    using w3 [OF False q] by (simp add: size_t_wrap_def)
  moreover have "(2 * q - 20) mod 4294967296 = 2 * q - 20" using q by simp
  ultimately show ?thesis using False q by (simp add: int_of_size_t_def Let_def)
qed

lemma csv_crtSnrDb_block:
  assumes "n < 13000 * 2 ^ 30"
  shows "csv_crtSnrDb n = block_snr (n div 500)"
proof -
  from assms have "n div 13000 < 2 ^ 30" by (simp add: less_mult_imp_div_less)
  then have "n div 13000 \<le> 2 ^ 30" by simp
  from int_of_size_t_snr [OF this] show ?thesis
    by (simp add: csv_crtSnrDb_def NR_LINES_PER_SNR_def block_snr_def line_snr_index)
qed

lemma series_at_block:
  "vector_at MODULATION_SERIES ((n mod NR_LINES_PER_SNR)
      div FRAMES_PER_MOD_SNR_NR DATASET_SOURCE_HISARMOD_2019_1) = Inr (block_code (n div 500))"
  by (simp add: NR_LINES_PER_SNR_def line_block_index vector_at_def series_length block_code_def)

lemma block_data_0: "block_data ls b 0 = \<lparr>frameDataVec = [], maxVal = 0\<rparr>"
  by (simp add: block_data_def)

lemma block_data_Suc:
  assumes "500 * b + r < length ls"
  shows "block_data ls b (Suc r)
     = \<lparr>frameDataVec = frameDataVec (block_data ls b r) @ [frame_of (ls ! (500 * b + r))],
        maxVal = foldl raise_max (maxVal (block_data ls b r)) (frame_of (ls ! (500 * b + r)))\<rparr>"
proof -
  have "take (Suc r) (drop (500 * b) ls) = take r (drop (500 * b) ls) @ [ls ! (500 * b + r)]"
    using assms by (simp add: take_Suc_conv_app_nth)
  then show ?thesis by (simp add: block_data_def)
qed

lemma size_t_wrap_small: "n < 2 ^ 64 \<Longrightarrow> size_t_wrap n = n"
  by (simp add: size_t_wrap_def)

lemma same_block:
  fixes n :: nat
  assumes "0 < n" "n mod 500 \<noteq> 0"
  shows "(n - 1) div 500 = n div 500"
proof -
  obtain m where n: "n = Suc m" using assms(1) by (cases n) auto
  have "Suc m div 500 = m div 500" using assms(2) by (simp add: n div_Suc)
  then show ?thesis by (simp add: n)
qed

lemma block_changes: "block_snr (Suc b) \<noteq> block_snr b \<or> block_code (Suc b) \<noteq> block_code b"
proof (cases "Suc b mod 26 = 0")
  case True
  then have "Suc b div 26 = Suc (b div 26)" by (simp add: div_Suc)
  then show ?thesis by (simp add: block_snr_def)
next
  case False
  then have m: "Suc b mod 26 = Suc (b mod 26)" by (simp add: mod_Suc split: if_splits)
  have "b mod 26 < 26" by simp
  then have lt: "Suc (b mod 26) < 26" using m
    by (metis mod_less_divisor zero_less_numeral)
  have "MODULATION_SERIES ! Suc (b mod 26) \<noteq> MODULATION_SERIES ! (b mod 26)"
    using series_distinct(1) lt
    by (simp add: distinct_conv_nth series_length)
  then show ?thesis by (simp add: block_code_def m)
qed

lemma csv_line_simp:
  assumes n: "crtLineNr st = n" "n < 13000 * 2 ^ 30"
    and valid: "length (frame_of l) = 1024"
  shows "csv_line st l =
     (let b = n div 500;
          new = (block_snr b \<noteq> oldSnrDb st \<or> block_code b \<noteq> oldModInt st);
          p1 = (if new then (parser st)
                              \<lparr> mUniqueModVec := mUniqueModVec (parser st) @ [block_mod b],
                                mUniqueSnrVec := mUniqueSnrVec (parser st) @ [block_snr b] \<rparr>
                else parser st);
          pair1 = (if new then block_key b else modSnrPair st);
          sd1 = (if new then \<lparr>frameDataVec = [], maxVal = 0\<rparr> else signalData st);
          sd3 = \<lparr> frameDataVec = frameDataVec sd1 @ [frame_of l],
                  maxVal = foldl raise_max (maxVal sd1) (frame_of l) \<rparr>
      in if n \<noteq> 0 \<and> Suc n mod 500 = 0 then
           (if 500 \<noteq> length (frameDataVec sd3)
            then Inr (st\<lparr>parser := p1, modSnrPair := pair1, signalData := sd3, parseFailed := True\<rparr>)
            else Inr (st\<lparr> parser := p1\<lparr>mMap := map_insert (mMap p1) pair1 sd3\<rparr>,
                          modSnrPair := pair1, signalData := sd3,
                          oldSnrDb := block_snr b, oldModInt := block_code b,
                          crtLineNr := Suc n \<rparr>))
         else Inr (st\<lparr> parser := p1, modSnrPair := pair1, signalData := sd3,
                        oldSnrDb := block_snr b, oldModInt := block_code b,
                        crtLineNr := Suc n \<rparr>))"
proof -
  have w: "size_t_wrap (Suc n) = Suc n"
    using n(2) size_t_wrap_small [of "Suc n"] by simp
  have snr: "csv_crtSnrDb n = block_snr (n div 500)"
    using n(2) by (rule csv_crtSnrDb_block)
  have w0: "size_t_wrap (Suc 0) = Suc 0"
    by (simp add: size_t_wrap_def)
  show ?thesis
  proof (cases "n = 0")
    case True
    show ?thesis
      unfolding csv_line_def n(1) snr series_at_block
      by (simp add: True block_code_mod csv_tokens_frame valid w0 Let_def block_key_def)
  next
    case False
    then show ?thesis
      unfolding csv_line_def n(1) snr series_at_block
      by (simp add: block_code_mod csv_tokens_frame valid w Let_def block_key_def
          eq_commute [of 0])
  qed
qed

lemma block_data_length:
  "500 * b + r \<le> length ls \<Longrightarrow> length (frameDataVec (block_data ls b r)) = r"
  by (simp add: block_data_def)

lemma suc_mod_500:
  "(n::nat) mod 500 = 0 \<Longrightarrow> Suc n mod 500 \<noteq> 0"
  "(n::nat) mod 500 = 0 \<Longrightarrow> Suc n div 500 = n div 500"
  "Suc n mod 500 = 0 \<Longrightarrow> Suc n div 500 = Suc (n div 500)"
  "Suc n mod 500 \<noteq> 0 \<Longrightarrow> Suc n div 500 = n div 500"
  using div_Suc [of n 500] mod_Suc [of n 500] by simp_all

lemma suc_mod_500_full:
  assumes a: "Suc n mod 500 = 0"
  shows "Suc (n - 500 * (n div 500)) = 500"
proof -
  have "n mod 500 = 499" using a mod_Suc [of n 500] by (simp split: if_splits)
  moreover have "n - 500 * (n div 500) = n mod 500" by (simp add: minus_mult_div_eq_mod)
  ultimately show ?thesis by simp
qed

lemma csv_step:
  assumes valid: "length (frame_of (ls ! n)) = 1024"
    and n: "n < length ls" "n < 13000 * 2 ^ 30"
  shows "csv_line (csv_state p ls n) (ls ! n) = Inr (csv_state p ls (Suc n))"
proof (cases "n = 0")
  case True
  have c: "crtLineNr (csv_state p ls 0) = 0" by (simp add: csv_state_def csv_start_def)
  have d: "block_data ls 0 (Suc 0)
     = \<lparr>frameDataVec = [frame_of (ls ! 0)], maxVal = foldl raise_max 0 (frame_of (ls ! 0))\<rparr>"
    using n(1) True block_data_Suc [of 0 0 ls] by (simp add: block_data_0)
  have o: "block_snr 0 \<noteq> - 100" by (simp add: block_snr_def)
  show ?thesis
    using valid
    unfolding True
    by (subst csv_line_simp [OF c]) (simp_all add: csv_state_def csv_start_def d o)
next
  case False
  define b where "b = n div 500"
  have c: "crtLineNr (csv_state p ls n) = n" using False by (simp add: csv_state_def)
  show ?thesis
  proof (cases "n mod 500 = 0")
    case True
    have nb: "n = 500 * b"
      using True mult_div_mod_eq [of 500 n] by (simp add: b_def)
    then obtain b' where b': "b = Suc b'" using False by (cases b) auto
    have prev: "(n - Suc 0) div 500 = b'"
      using nb b' by simp
    have nxt: "Suc n mod 500 \<noteq> 0" using True by (rule suc_mod_500)
    have sd: "Suc n div 500 = b" unfolding b_def using True by (rule suc_mod_500)
    have new: "block_snr b \<noteq> block_snr b' \<or> block_code b \<noteq> block_code b'"
      unfolding b' by (rule block_changes)
    have d: "block_data ls b (Suc 0)
       = \<lparr>frameDataVec = [frame_of (ls ! n)], maxVal = foldl raise_max 0 (frame_of (ls ! n))\<rparr>"
      using n(1) block_data_Suc [of b 0 ls] by (simp add: block_data_0 nb)
    have r: "Suc n - 500 * b = Suc 0" using nb by simp
    have r': "n - (499 + 500 * b') = Suc 0" using nb b' by simp
    note d' = d [unfolded b']
    show ?thesis
      using valid new False nxt
      by (subst csv_line_simp [OF c n(2)])
         (simp_all add: csv_state_def prev b_def [symmetric] sd d' r r' b')
  next
    case mid: False
    have prev: "(n - Suc 0) div 500 = b"
      using False mid same_block [of n] by (simp add: b_def)
    have le: "500 * b \<le> n" by (simp add: b_def)
    have idx: "500 * b + (n - 500 * b) = n" using le by simp
    have d: "block_data ls b (Suc (n - 500 * b))
       = \<lparr>frameDataVec = frameDataVec (block_data ls b (n - 500 * b)) @ [frame_of (ls ! n)],
          maxVal = foldl raise_max (maxVal (block_data ls b (n - 500 * b))) (frame_of (ls ! n))\<rparr>"
      using n(1) block_data_Suc [of b "n - 500 * b" ls] by (simp only: idx)
    have r: "Suc n - 500 * b = Suc (n - 500 * b)" using le by simp
    have len: "length (frameDataVec (block_data ls b (n - 500 * b))) = n - 500 * b"
      using n(1) by (intro block_data_length) (simp only: idx)
    show ?thesis
    proof (cases "Suc n mod 500 = 0")
      case True
      have sd: "Suc n div 500 = Suc b" unfolding b_def using True by (rule suc_mod_500)
      have full: "Suc (n - 500 * b) = 500"
        unfolding b_def using True by (rule suc_mod_500_full)
      then have full': "n - 500 * b = 499" by simp
      note d5 = d [unfolded full' full]
      note len5 = len [unfolded full']
      show ?thesis
        using valid False True
        by (subst csv_line_simp [OF c n(2)])
           (simp_all add: csv_state_def prev b_def [symmetric] sd d5 [symmetric] r len5 full
              full' Let_def)
    next
      case nf: False
      have sd: "Suc n div 500 = b" unfolding b_def using nf by (rule suc_mod_500)
      show ?thesis
        using valid False nf
        by (subst csv_line_simp [OF c n(2)])
           (simp_all add: csv_state_def prev b_def [symmetric] sd d [symmetric] r)
    qed
  qed
qed

lemma csv_state_0: "csv_state p ls 0 = csv_start p"
  by (simp add: csv_state_def)

lemma csv_state_ok: "parseFailed (csv_state p ls n) = False"
  by (simp add: csv_state_def csv_start_def)

lemma csv_loop_from:
  assumes valid: "well_formed_lines ls" and len: "length ls \<le> 13000 * 2 ^ 30"
  shows "k \<le> length ls
     \<Longrightarrow> csv_loop (drop k ls) (csv_state p ls k) = Inr (csv_state p ls (length ls))"
proof (induction "length ls - k" arbitrary: k)
  case 0
  then show ?case by simp
next
  case (Suc d)
  then have k: "k < length ls" by simp
  have v: "length (frame_of (ls ! k)) = 1024"
    using valid k by (simp add: well_formed_lines_def line_frame_def frame_of_tokens list_all_length)
  have kb: "k < 13000 * 2 ^ 30" using k len by simp
  have step: "csv_line (csv_state p ls k) (ls ! k) = Inr (csv_state p ls (Suc k))"
    using v k kb by (rule csv_step)
  have d: "drop k ls = ls ! k # drop (Suc k) ls"
    using k by (simp add: Cons_nth_drop_Suc)
  have "csv_loop (drop (Suc k) ls) (csv_state p ls (Suc k)) = Inr (csv_state p ls (length ls))"
    using Suc.hyps(2) k by (intro Suc.hyps(1)) simp_all
  then show ?case
    by (simp add: d step csv_state_ok)
qed

lemma csv_loop_all:
  assumes "well_formed_lines ls" "length ls \<le> 13000 * 2 ^ 30"
  shows "csv_loop ls (csv_start p) = Inr (csv_state p ls (length ls))"
  using csv_loop_from [OF assms, of 0 p] by (simp add: csv_state_0)

lemma block_mod_inj: "block_mod a = block_mod b \<Longrightarrow> a mod 26 = b mod 26"
proof -
  assume e: "block_mod a = block_mod b"
  have "a mod 26 < length series_mods" "b mod 26 < length series_mods"
    by (simp_all add: series_length)
  with e show ?thesis
    using series_distinct(2) by (simp add: block_mod_def nth_eq_iff_index_eq)
qed

lemma block_key_inj:
  assumes "block_key a = block_key b"
  shows "a = b"
proof -
  from assms have e: "block_mod a = block_mod b" and s: "block_snr a = block_snr b"
    by (simp_all add: block_key_def)
  from e have m: "a mod 26 = b mod 26" by (rule block_mod_inj)
  from s have d: "a div 26 = b div 26" by (simp add: block_snr_def)
  have "a = 26 * (a div 26) + a mod 26" by simp
  also have "\<dots> = 26 * (b div 26) + b mod 26" by (simp only: m d)
  also have "\<dots> = b" by simp
  finally show ?thesis .
qed

lemma map_insert_dom: "dom (map_insert m k v) = insert k (dom m)"
  by (auto simp: map_insert_def split: option.splits)

lemma block_map_dom: "dom (block_map ls B) = block_key ` {0..<B}"
  by (induction B) (simp_all add: map_insert_dom atLeastLessThanSuc)

lemma block_map_lookup:
  "b < B \<Longrightarrow> block_map ls B (block_key b) = Some (block_data ls b 500)"
proof (induction B)
  case 0
  then show ?case by simp
next
  case (Suc B)
  show ?case
  proof (cases "b = B")
    case True
    have "block_key B \<notin> dom (block_map ls B)"
    proof
      assume "block_key B \<in> dom (block_map ls B)"
      then obtain x where "x < B" "block_key B = block_key x" by (auto simp: block_map_dom)
      then show False using block_key_inj [of B x] by simp
    qed
    then have "block_map ls B (block_key B) = None" by (simp add: domIff)
    then show ?thesis by (simp add: True map_insert_def)
  next
    case False
    with Suc have "block_map ls B (block_key b) = Some (block_data ls b 500)" by simp
    then show ?thesis by (auto simp: map_insert_def split: option.splits)
  qed
qed

lemma block_map_card: "card (dom (block_map ls B)) = B"
proof -
  have "inj_on block_key {0..<B}" using block_key_inj by (auto intro: inj_onI)
  then show ?thesis by (simp add: block_map_dom card_image)
qed

lemma block_map_entry:
  assumes "block_map ls B k = Some sd"
  shows "\<exists>b<B. k = block_key b \<and> sd = block_data ls b 500"
proof -
  from assms have "k \<in> dom (block_map ls B)" by (simp add: domIff)
  then obtain b where b: "b < B" "k = block_key b" by (auto simp: block_map_dom)
  with assms block_map_lookup [of b B ls] show ?thesis by auto
qed

lemma csv_state_map: "mMap (parser (csv_state p ls n)) = block_map ls (n div 500)"
  by (simp add: csv_state_def csv_start_def)

lemma parse_result:
  assumes "well_formed_lines ls" "length ls \<le> 13000 * 2 ^ 30"
  shows "\<exists>p'. CsvParser_parseDataset p (Some ls) = Inr p'
            \<and> mMap p' = block_map ls (length ls div 500)
            \<and> mStatus p' =
                (length (removeDuplicates_mod (mUniqueModVec (parser (csv_state p ls (length ls))))) = 26
               \<and> length (removeDuplicates_int (mUniqueSnrVec (parser (csv_state p ls (length ls))))) = 20)"
  by (simp add: CsvParser_parseDataset_def csv_loop_all [OF assms] csv_state_ok
      csv_state_map Let_def eq_commute [of 26] eq_commute [of 20])

lemma line_in_block:
  assumes "500 * (n div 500) + 500 \<le> length ls"
  shows "frameDataVec (block_data ls (n div 500) 500) ! (n mod 500) = frame_of (ls ! n)"
    and "length (frameDataVec (block_data ls (n div 500) 500)) = 500"
proof -
  have i: "n mod 500 < length (take 500 (drop (500 * (n div 500)) ls))"
    using assms by simp
  have "take 500 (drop (500 * (n div 500)) ls) ! (n mod 500) = ls ! (500 * (n div 500) + n mod 500)"
    using assms by simp
  then show "frameDataVec (block_data ls (n div 500) 500) ! (n mod 500) = frame_of (ls ! n)"
    using i by (simp add: block_data_def del: length_take length_drop)
  show "length (frameDataVec (block_data ls (n div 500) 500)) = 500"
    using assms by (simp add: block_data_def)
qed

lemma block_key_line:
  "block_key (n div 500) = (block_mod (n div 500), - 20 + 2 * int (n div 13000))"
  by (simp add: block_key_def block_snr_def line_snr_index)

lemma series_at_line:
  "map_at csv_MODULATION_MAPPING (MODULATION_SERIES ! ((n mod 13000) div 500))
     = Inr (block_mod (n div 500))"
  using block_code_mod [of "n div 500"] by (simp add: block_code_def line_block_index)

subsection \<open>Lines of equal tokens\<close>

lemma frame_of_replicate:
  assumes "tok \<noteq> []" "CHR '','' \<notin> set tok"
  shows "frame_of (concat (replicate n (tok @ '','')) @ tok) = replicate (Suc n) (getPoint tok)"
  using split_tokens_replicate [OF assms, of n] by (simp add: frame_of_def)

lemma getPoint_zero: "getPoint ''0+0i'' = (0, 0)"
  by (simp add: getPoint_def getPoint_sepSignIndex_def string_find_def substr_def atof_def
      is_space_def is_digit_def skip_sign_def digits_value_def atof_exponent_def Let_def)

lemma frame_of_zero_line: "frame_of zero_line = replicate 1024 (0, 0)"
  unfolding zero_line_def by (subst frame_of_replicate) (simp_all add: getPoint_zero)

lemma line_frame_eq: "line_frame l = frame_of l"
  by (simp add: line_frame_def frame_of_tokens)

lemma well_formed_replicate:
  "length (frame_of l) = 1024 \<Longrightarrow> well_formed_lines (replicate k l)"
  by (simp add: well_formed_lines_def line_frame_eq list_all_iff)

subsection \<open>The result of the parse\<close>

lemma parse_block:
  assumes wf: "well_formed_lines ls" and len: "length ls \<le> 13000 * 2 ^ 30"
    and blk: "500 * (n div 500) + 500 \<le> length ls"
  shows "\<exists>p' sd. CsvParser_parseDataset p (Some ls) = Inr p'
           \<and> vector_at MODULATION_SERIES ((n mod 13000) div 500) = Inr (block_code (n div 500))
           \<and> map_at csv_MODULATION_MAPPING (block_code (n div 500)) = Inr (block_mod (n div 500))
           \<and> mMap p' (block_mod (n div 500), - 20 + 2 * int (n div 13000)) = Some sd
           \<and> length (frameDataVec sd) = 500
           \<and> frameDataVec sd = map line_frame (take 500 (drop (500 * (n div 500)) ls))
           \<and> frameDataVec sd ! (n mod 500) = line_frame (ls ! n)
           \<and> card (dom (mMap p')) = length ls div 500"
proof -
  from parse_result [OF wf len, of p]
  obtain p' where p': "CsvParser_parseDataset p (Some ls) = Inr p'"
    and m: "mMap p' = block_map ls (length ls div 500)" by blast
  have lt: "n div 500 < length ls div 500"
  proof -
    have "500 * Suc (n div 500) \<le> length ls" using blk by simp
    then have "Suc (n div 500) \<le> length ls div 500"
      by (simp only: less_eq_div_iff_mult_less_eq [of 500, simplified] mult.commute)
    then show ?thesis by simp
  qed
  have look: "mMap p' (block_mod (n div 500), - 20 + 2 * int (n div 13000))
      = Some (block_data ls (n div 500) 500)"
    using block_map_lookup [OF lt, of ls] by (simp add: m block_key_line)
  have fr: "frameDataVec (block_data ls (n div 500) 500)
      = map line_frame (take 500 (drop (500 * (n div 500)) ls))"
    by (simp add: block_data_def line_frame_eq [abs_def])
  have ser: "vector_at MODULATION_SERIES ((n mod 13000) div 500) = Inr (block_code (n div 500))"
    using series_at_block [of n] by (simp add: NR_LINES_PER_SNR_def)
  show ?thesis
    using p' look fr ser line_in_block [OF blk]
    by (simp add: block_code_mod line_frame_eq m block_map_card)
qed

lemma well_formed_take: "well_formed_lines ls \<Longrightarrow> well_formed_lines (take k ls)"
  by (auto simp: well_formed_lines_def list_all_iff dest: in_set_takeD)

lemma csv_state_pair:
  "modSnrPair (csv_state p ls (Suc n)) = (block_mod (n div 500), - 20 + 2 * int (n div 13000))"
  by (simp add: csv_state_def block_key_line)

lemma csv_state_frames:
  assumes "n < length ls"
  shows "frameDataVec (signalData (csv_state p (take (Suc n) ls) (Suc n)))
     = map line_frame (take (Suc (n mod 500)) (drop (500 * (n div 500)) ls))"
proof -
  have r: "Suc n - 500 * (n div 500) = Suc (n mod 500)"
    by (simp add: Suc_diff_le minus_mult_div_eq_mod)
  have "take (Suc (n mod 500)) (drop (500 * (n div 500)) (take (Suc n) ls))
      = take (Suc (n mod 500)) (drop (500 * (n div 500)) ls)"
    by (simp add: drop_take r)
  then show ?thesis
    by (simp add: csv_state_def block_data_def r line_frame_eq [abs_def])
qed

lemma parse_line:
  assumes wf: "well_formed_lines ls" and len: "length ls \<le> 13000 * 2 ^ 30"
    and n: "n < length ls"
  shows "\<exists>st. csv_loop (take (Suc n) ls) (csv_start p) = Inr st
           \<and> crtLineNr st = Suc n
           \<and> modSnrPair st = (block_mod (n div 500), - 20 + 2 * int (n div 13000))
           \<and> frameDataVec (signalData st)
               = map line_frame (take (Suc (n mod 500)) (drop (500 * (n div 500)) ls))"
proof -
  have l: "length (take (Suc n) ls) = Suc n" using n by simp
  have "csv_loop (take (Suc n) ls) (csv_start p)
      = Inr (csv_state p (take (Suc n) ls) (length (take (Suc n) ls)))"
    using well_formed_take [OF wf] len by (intro csv_loop_all) simp_all
  then show ?thesis
    unfolding l using csv_state_frames [OF n, of p]
    by (simp add: csv_state_pair) (simp add: csv_state_def)
qed

text \<open>
  Claim C5. Let the lines of the file be well formed (1024 tokens each) and at most
  13000 * 2^30, so that the 32-bit SNR does not wrap. When the parser has processed line
  \<open>n\<close> (0-based), the pair it holds is the modulation
  \<open>MODULATION_MAPPING[MODULATION_SERIES[(n mod 13000) / 500]]\<close> with the SNR
  \<open>-20 + 2 * (n / 13000)\<close>, and the signal data it accumulates holds the
  frames of the lines of the block of 500 that \<open>n\<close> lies in, up to line
  \<open>n\<close>. When that block is complete in the file, the map of the finished parse
  holds under this pair a signal data of exactly 500 frames, the frames of the 500 lines
  of the block, and the map has one entry for every complete block of 500 lines.
\<close>

theorem csv_lines_grouped_by_500:
  assumes "well_formed_lines ls" and "length ls \<le> 13000 * 2 ^ 30" and "n < length ls"
  shows "\<exists>code m st.
           vector_at MODULATION_SERIES ((n mod 13000) div 500) = Inr code
         \<and> map_at csv_MODULATION_MAPPING code = Inr m
         \<and> csv_loop (take (Suc n) ls) (csv_start p) = Inr st
         \<and> crtLineNr st = Suc n
         \<and> modSnrPair st = (m, - 20 + 2 * int (n div 13000))
         \<and> frameDataVec (signalData st)
             = map line_frame (take (Suc (n mod 500)) (drop (500 * (n div 500)) ls))
         \<and> (500 * (n div 500) + 500 \<le> length ls \<longrightarrow>
              (\<exists>p' sd. CsvParser_parseDataset p (Some ls) = Inr p'
                 \<and> mMap p' (m, - 20 + 2 * int (n div 13000)) = Some sd
                 \<and> length (frameDataVec sd) = 500
                 \<and> frameDataVec sd = map line_frame (take 500 (drop (500 * (n div 500)) ls))
                 \<and> frameDataVec sd ! (n mod 500) = line_frame (ls ! n)
                 \<and> card (dom (mMap p')) = length ls div 500))"
proof -
  from parse_line [OF assms, of p] obtain st where
    st: "csv_loop (take (Suc n) ls) (csv_start p) = Inr st" "crtLineNr st = Suc n"
      "modSnrPair st = (block_mod (n div 500), - 20 + 2 * int (n div 13000))"
      "frameDataVec (signalData st)
         = map line_frame (take (Suc (n mod 500)) (drop (500 * (n div 500)) ls))"
    by blast
  have ser: "vector_at MODULATION_SERIES ((n mod 13000) div 500) = Inr (block_code (n div 500))"
    using series_at_block [of n] by (simp add: NR_LINES_PER_SNR_def)
  have fin: "\<exists>p' sd. CsvParser_parseDataset p (Some ls) = Inr p'
                 \<and> mMap p' (block_mod (n div 500), - 20 + 2 * int (n div 13000)) = Some sd
                 \<and> length (frameDataVec sd) = 500
                 \<and> frameDataVec sd = map line_frame (take 500 (drop (500 * (n div 500)) ls))
                 \<and> frameDataVec sd ! (n mod 500) = line_frame (ls ! n)
                 \<and> card (dom (mMap p')) = length ls div 500"
    if "500 * (n div 500) + 500 \<le> length ls"
    using parse_block [OF assms(1,2) that, of p] by blast
  show ?thesis
    using ser block_code_mod [of "n div 500"] st fin by blast
qed

theorem csv_lines_grouped_by_500_witness:
  "\<exists>st p' sd.
       csv_loop (take 500 (replicate 500 zero_line)) (csv_start DatasetParser_init) = Inr st
     \<and> crtLineNr st = 500
     \<and> modSnrPair st = (NAME_AM_DSB, - 20)
     \<and> CsvParser_parseDataset DatasetParser_init (Some (replicate 500 zero_line)) = Inr p'
     \<and> mMap p' (NAME_AM_DSB, - 20) = Some sd
     \<and> length (frameDataVec sd) = 500
     \<and> card (dom (mMap p')) = 1"
proof -
  have wf: "well_formed_lines (replicate 500 zero_line)"
    by (rule well_formed_replicate) (simp add: frame_of_zero_line)
  have code: "vector_at MODULATION_SERIES 0 = Inr 4"
    by (simp add: vector_at_def MODULATION_SERIES_def)
  have m: "map_at csv_MODULATION_MAPPING 4 = Inr NAME_AM_DSB"
    by (simp add: csv_MODULATION_MAPPING_def)
  show ?thesis
    using csv_lines_grouped_by_500 [of "replicate 500 zero_line" 499 DatasetParser_init] wf
    by (auto simp: code m)
qed

lemma string_find_token:
  assumes "I \<noteq> []" "c \<notin> set (tl I)"
  shows "string_find (I @ c # R) c 1 = Some (length I)"
proof -
  from assms(1) obtain x xs where I: "I = x # xs" by (cases I) auto
  with assms(2) show ?thesis
    by (simp add: string_find_def find_index_append)
qed

lemma string_find_token_none:
  assumes "I \<noteq> []" "c \<notin> set (tl I)" "c \<notin> set R"
  shows "string_find (I @ R) c 1 = None"
proof -
  from assms(1) obtain x xs where I: "I = x # xs" by (cases I) auto
  with assms(2,3) show ?thesis
    by (simp add: string_find_def find_index_none)
qed

lemma getPoint_split:
  assumes "getPoint_sepSignIndex (I @ c # Q @ [t]) = Some (length I)"
  shows "getPoint (I @ c # Q @ [t]) = (atof I, atof (c # Q))"
  using assms by (simp add: getPoint_def substr_def)

lemma getPoint_plus:
  assumes "I \<noteq> []" "CHR ''+'' \<notin> set (tl I)"
  shows "getPoint (I @ CHR ''+'' # Q @ [t]) = (atof I, atof (CHR ''+'' # Q))"
proof (rule getPoint_split)
  show "getPoint_sepSignIndex (I @ CHR ''+'' # Q @ [t]) = Some (length I)"
    using string_find_token [OF assms] by (simp add: getPoint_sepSignIndex_def)
qed

lemma getPoint_minus:
  assumes "I \<noteq> []" "CHR ''+'' \<notin> set (tl I)" "CHR ''-'' \<notin> set (tl I)"
    "CHR ''+'' \<notin> set Q" "t \<noteq> CHR ''+''"
  shows "getPoint (I @ CHR ''-'' # Q @ [t]) = (atof I, atof (CHR ''-'' # Q))"
proof (rule getPoint_split)
  have "string_find (I @ CHR ''-'' # Q @ [t]) CHR ''+'' 1 = None"
    using assms by (intro string_find_token_none) simp_all
  then show "getPoint_sepSignIndex (I @ CHR ''-'' # Q @ [t]) = Some (length I)"
    using string_find_token [OF assms(1,3)] by (simp add: getPoint_sepSignIndex_def)
qed

lemmas atof_eval = atof_def is_space_def is_digit_def skip_sign_def digits_value_def
  atof_exponent_def Let_def

lemmas getPoint_eval = getPoint_def getPoint_sepSignIndex_def string_find_def substr_def atof_eval

lemma csv_tokens_two:
  assumes "tok1 \<noteq> []" "CHR '','' \<notin> set (tl tok1)" "tok2 \<noteq> []" "CHR '','' \<notin> set (tl tok2)"
  shows "csv_tokens (tok1 @ CHR '','' # tok2 @ CHR '','' # rest) 0 st
     = csv_tokens rest 0 (push_point (getPoint tok2) (push_point (getPoint tok1) st))"
  using assms by (simp add: csv_tokens_split split_tokens_cons)

lemma example_points:
  "getPoint ''1.5+2.25i'' = (3 / 2, 9 / 4)" "getPoint ''-0.5-0.75i'' = (- 1 / 2, - 3 / 4)"
  by (simp_all add: getPoint_eval)

lemma example_prefix:
  "csv_tokens (''1.5+2.25i,-0.5-0.75i,'' @ rest) 0 ([], 0)
     = csv_tokens rest 0 ([(3 / 2, 9 / 4), (- 1 / 2, - 3 / 4)], 9 / 4)"
proof -
  have "csv_tokens (''1.5+2.25i'' @ CHR '','' # ''-0.5-0.75i'' @ CHR '','' # rest) 0 ([], 0)
     = csv_tokens rest 0 (push_point (getPoint ''-0.5-0.75i'')
         (push_point (getPoint ''1.5+2.25i'') ([], 0)))"
    by (rule csv_tokens_two) simp_all
  then show ?thesis
    by (simp add: example_points push_point_def Let_def)
qed

lemma example_line:
  "csv_tokens ''1.5+2.25i,-0.5-0.75i'' 0 ([], 0) = ([(3 / 2, 9 / 4), (- 1 / 2, - 3 / 4)], 9 / 4)"
proof -
  have "split_tokens (''1.5+2.25i'' @ CHR '','' # ''-0.5-0.75i'')
      = ''1.5+2.25i'' # split_tokens ''-0.5-0.75i''"
    by (rule split_tokens_cons) simp_all
  moreover have "split_tokens ''-0.5-0.75i'' = [''-0.5-0.75i'']"
    by (rule split_tokens_single) simp_all
  ultimately show ?thesis
    by (simp add: csv_tokens_split example_points push_point_def Let_def)
qed

text \<open>
  Claim C6, as amended. A token \<open>I+Qt\<close> whose part \<open>I\<close> has no \<open>+\<close> after its first
  character is split at that \<open>+\<close>, also when a \<open>-\<close> stands in \<open>I\<close> before it, and gives the
  point \<open>(atof I, atof (+Q))\<close>. A token \<open>I-Qt\<close> whose part \<open>I\<close> has no sign after its first
  character and whose part \<open>Q\<close> has no \<open>+\<close> is split at that \<open>-\<close>, the first sign at index
  1 or later, and gives \<open>(atof I, atof (-Q))\<close>. The last character \<open>t\<close> is dropped whatever
  it is. A line that starts with the tokens \<open>1.5+2.25i\<close> and \<open>-0.5-0.75i\<close> goes on with the
  points (1.5, 2.25) and (-0.5, -0.75) in the frame and the running maximum 2.25, and the
  line of these two tokens alone gives this frame and this maximum.
\<close>

theorem getPoint_splits_at_plus_then_minus:
  "(I \<noteq> [] \<and> CHR ''+'' \<notin> set (tl I)
      \<longrightarrow> getPoint (I @ CHR ''+'' # Q @ [t]) = (atof I, atof (CHR ''+'' # Q)))
   \<and> (I \<noteq> [] \<and> CHR ''+'' \<notin> set (tl I) \<and> CHR ''-'' \<notin> set (tl I) \<and> CHR ''+'' \<notin> set Q
        \<and> t \<noteq> CHR ''+''
      \<longrightarrow> getPoint (I @ CHR ''-'' # Q @ [t]) = (atof I, atof (CHR ''-'' # Q)))
   \<and> csv_tokens (''1.5+2.25i,-0.5-0.75i,'' @ rest) 0 ([], 0)
        = csv_tokens rest 0 ([(3 / 2, 9 / 4), (- 1 / 2, - 3 / 4)], 9 / 4)
   \<and> csv_tokens ''1.5+2.25i,-0.5-0.75i'' 0 ([], 0)
        = ([(3 / 2, 9 / 4), (- 1 / 2, - 3 / 4)], 9 / 4)"
  using getPoint_plus [of I Q t] getPoint_minus [of I Q t] example_prefix [of rest] example_line
  by simp

theorem getPoint_splits_at_plus_then_minus_witness:
  "getPoint (''1.5'' @ CHR ''+'' # ''2.25'' @ ''i'') = (3 / 2, 9 / 4)
   \<and> getPoint (''1.5'' @ CHR ''-'' # ''2.25'' @ ''i'') = (3 / 2, - 9 / 4)
   \<and> csv_tokens (''1.5+2.25i,-0.5-0.75i,'' @ ''0+0i'') 0 ([], 0)
        = ([(3 / 2, 9 / 4), (- 1 / 2, - 3 / 4), (0, 0)], 9 / 4)"
proof -
  have a: "atof ''1.5'' = 3 / 2" "atof ''+2.25'' = 9 / 4" "atof ''-2.25'' = - 9 / 4"
    by (simp_all add: atof_eval)
  have z: "csv_tokens ''0+0i'' 0 ([(3 / 2, 9 / 4), (- 1 / 2, - 3 / 4)], 9 / 4)
      = ([(3 / 2, 9 / 4), (- 1 / 2, - 3 / 4), (0, 0)], 9 / 4)"
    by (simp add: csv_tokens_frame frame_of_def split_tokens_single getPoint_zero raise_max_def)
  show ?thesis
    using getPoint_splits_at_plus_then_minus [of "''1.5''" "''2.25''" "CHR ''i''" "''0+0i''"] z
    by (simp add: a)
qed

text \<open>
  The claim as stated fails on a token whose real part has a negative exponent: in
  \<open>1e-5+2i\<close> the first sign at index 1 or later is the \<open>-\<close> at index 2, and the split
  there gives (1, -5); \<open>getPoint\<close> looks for \<open>+\<close> first, splits at the \<open>+\<close> at index 4 and
  gives the number that the token denotes, (0.00001, 2).
\<close>

theorem getPoint_counterexample:
  "getPoint ''1e-5+2i'' = (1 / 100000, 2) \<and> getPoint_first_sign ''1e-5+2i'' = (1, - 5)"
  by (simp add: getPoint_eval getPoint_first_sign_def first_sign_index_def)

text \<open>
  The search of \<open>+\<close> before \<open>-\<close> misses the tokens \<open>I-Qt\<close> whose part \<open>Q\<close> has a \<open>+\<close> in
  its exponent: \<open>1-2e+3i\<close> denotes (1, -2000), and \<open>getPoint\<close> splits it at the \<open>+\<close>. The
  statement above says nothing of these tokens.
\<close>

lemma getPoint_minus_before_plus: "getPoint ''1-2e+3i'' = (1, 3)"
  by (simp add: getPoint_eval)

subsection \<open>The file of the whole dataset\<close>

lemma mods_count: "length (removeDuplicates_mod (map block_mod [0..<520])) = 26"
proof -
  have "block_mod ` {0..<520} = set series_mods"
  proof
    show "block_mod ` {0..<520} \<subseteq> set series_mods"
      by (auto simp: block_mod_def series_length)
    show "set series_mods \<subseteq> block_mod ` {0..<520}"
    proof
      fix x assume "x \<in> set series_mods"
      then obtain i where i: "i < 26" "x = series_mods ! i"
        by (auto simp: in_set_conv_nth series_length)
      then have "x = block_mod i" "i \<in> {0..<520}" by (simp_all add: block_mod_def)
      then show "x \<in> block_mod ` {0..<520}" by blast
    qed
  qed
  then have "card (set (map block_mod [0..<520])) = card (set series_mods)" by simp
  also have "\<dots> = 26" using series_distinct(2) by (simp add: distinct_card series_length)
  finally show ?thesis by (simp add: removeDuplicates_mod_def length_remdups_card_conv)
qed

lemma snrs_count: "length (removeDuplicates_int (map block_snr [0..<520])) = 20"
proof -
  have "block_snr ` {0..<520} = (\<lambda>q. - 20 + 2 * int q) ` {0..<20}"
  proof
    show "block_snr ` {0..<520} \<subseteq> (\<lambda>q. - 20 + 2 * int q) ` {0..<20}"
    proof
      fix x assume "x \<in> block_snr ` {0..<520}"
      then obtain b where b: "b < 520" "x = block_snr b" by auto
      then have "b div 26 < 20" by (simp add: less_mult_imp_div_less)
      with b show "x \<in> (\<lambda>q. - 20 + 2 * int q) ` {0..<20}"
        by (auto simp: block_snr_def)
    qed
    show "(\<lambda>q. - 20 + 2 * int q) ` {0..<20} \<subseteq> block_snr ` {0..<520}"
    proof
      fix x assume "x \<in> (\<lambda>q. - 20 + 2 * int q) ` {0..<20}"
      then obtain q where q: "q < 20" "x = - 20 + 2 * int q" by auto
      then have "x = block_snr (26 * q)" "26 * q \<in> {0..<520}" by (simp_all add: block_snr_def)
      then show "x \<in> block_snr ` {0..<520}" by blast
    qed
  qed
  then have "card (set (map block_snr [0..<520])) = card ((\<lambda>q. - 20 + 2 * int q) ` {0..<20})"
    by simp
  also have "\<dots> = card {0..<20::nat}"
    by (rule card_image) (simp add: inj_on_def)
  finally show ?thesis by (simp add: removeDuplicates_int_def length_remdups_card_conv)
qed

lemma raise_max_zeros: "\<forall>pt \<in> set pts. pt = (0, 0) \<Longrightarrow> foldl raise_max 0 pts = 0"
  by (induction pts) (simp_all add: raise_max_def)

lemma block_data_zero:
  assumes "\<forall>l \<in> set ls. \<forall>pt \<in> set (line_frame l). pt = (0, 0)"
  shows "maxVal (block_data ls b r) = 0"
proof -
  have "\<forall>pt \<in> set (concat (map frame_of (take r (drop (500 * b) ls)))). pt = (0, 0)"
    using assms by (auto simp: line_frame_eq dest!: in_set_takeD in_set_dropD)
  then show ?thesis by (simp add: block_data_def raise_max_zeros)
qed

lemma parse_whole_dataset:
  assumes wf: "well_formed_lines ls" and len: "length ls = 260000"
  shows "\<exists>p'. CsvParser_parseDataset p (Some ls) = Inr p' \<and> mStatus p'
             \<and> mMap p' = block_map ls 520"
proof -
  have "length ls \<le> 13000 * 2 ^ 30" by (simp add: len)
  from parse_result [OF wf this, of p] show ?thesis
    by (auto simp: len csv_state_def mods_count snrs_count)
qed

lemma run_whole_dataset:
  assumes wf: "well_formed_lines ls" and len: "length ls = 260000"
    and ty: "mDatasetType st = DATASET_SOURCE_HISARMOD_2019_1"
  shows "\<exists>st'. csv_parse_run st (Some ls) = Inr st' \<and> mParserStatus st'
             \<and> mMap_tx st' = block_map ls 520"
proof -
  from parse_whole_dataset [OF wf len, of "mCsvParser st"] obtain p' where
    "CsvParser_parseDataset (mCsvParser st) (Some ls) = Inr p'" "mStatus p'"
    "mMap p' = block_map ls 520" by blast
  then show ?thesis
    by (simp add: csv_parse_run_def handleDatasetParseFinished_def ty)
qed

lemma block_map_entries:
  assumes "length ls = 260000" "block_map ls 520 k = Some sd"
  shows "length (frameDataVec sd) = 500"
proof -
  from block_map_entry [OF assms(2)] obtain b where b: "b < 520" "sd = block_data ls b 500"
    by blast
  then have "500 * b + 500 \<le> length ls" by (simp add: assms(1))
  then show ?thesis by (simp add: b(2) block_data_length)
qed

text \<open>
  The text-tabular parser has no guard on \<open>maxVal\<close>: every file of the shape of the
  dataset (260000 well-formed lines) whose samples are all zero is parsed with success,
  and the store after the completion notification holds 520 entries of 500 frames, each
  with \<open>maxVal = 0\<close>.
\<close>

lemma all_zero_file_accepted:
  assumes "well_formed_lines ls" and "length ls = 260000"
    and "\<forall>l \<in> set ls. \<forall>pt \<in> set (line_frame l). pt = (0, 0)"
    and "mDatasetType st = DATASET_SOURCE_HISARMOD_2019_1"
  shows "\<exists>st'. csv_parse_run st (Some ls) = Inr st' \<and> mParserStatus st'
           \<and> card (dom (mMap_tx st')) = 520
           \<and> (\<forall>k sd. mMap_tx st' k = Some sd
                 \<longrightarrow> maxVal sd = 0 \<and> length (frameDataVec sd) = 500)"
proof -
  from run_whole_dataset [OF assms(1,2,4)] obtain st' where
    st': "csv_parse_run st (Some ls) = Inr st'" "mParserStatus st'"
      "mMap_tx st' = block_map ls 520" by blast
  have "maxVal sd = 0 \<and> length (frameDataVec sd) = 500" if "mMap_tx st' k = Some sd" for k sd
  proof -
    from that have e: "block_map ls 520 k = Some sd" by (simp add: st'(3))
    from block_map_entry [OF e] obtain b where "sd = block_data ls b 500" by blast
    then show ?thesis
      using block_data_zero [OF assms(3)] block_map_entries [OF assms(2) e] by simp
  qed
  then show ?thesis using st' by (simp add: block_map_card)
qed

lemma zero_lines_facts:
  "well_formed_lines (replicate 260000 zero_line)"
  "\<forall>l \<in> set (replicate 260000 zero_line). \<forall>pt \<in> set (line_frame l). pt = (0, 0)"
proof -
  show "well_formed_lines (replicate 260000 zero_line)"
    by (rule well_formed_replicate) (simp add: frame_of_zero_line)
  show "\<forall>l \<in> set (replicate 260000 zero_line). \<forall>pt \<in> set (line_frame l). pt = (0, 0)"
    by (simp add: line_frame_eq frame_of_zero_line)
qed

lemma tx_fill_first_fails:
  "0 < n \<Longrightarrow> f 0 = Inl e \<Longrightarrow> tx_fill f [0..<n] = Inl e"
  by (simp add: upt_conv_Cons)

lemma zero_block:
  "block_data (replicate 260000 zero_line) 0 500
     = \<lparr>frameDataVec = replicate 500 (replicate 1024 (0, 0)), maxVal = 0\<rparr>"
proof -
  have "maxVal (block_data (replicate 260000 zero_line) 0 500) = 0"
    by (rule block_data_zero) (rule zero_lines_facts(2))
  moreover have "frameDataVec (block_data (replicate 260000 zero_line) 0 500)
      = replicate 500 (replicate 1024 (0, 0))"
    by (simp add: block_data_def frame_of_zero_line)
  ultimately show ?thesis by simp
qed

lemma zero_signal_streaming:
  assumes dev: "dev \<noteq> TX_DEVICE_UNKNOWN"
  shows "TxHal_startStreaming dev rnd (\<lambda>n. True)
           (snd (getSignalData AdiTrx_init
                   \<lparr>frameDataVec = replicate 500 (replicate 1024 (0, 0)), maxVal = 0\<rparr>))
         = Inl UndefinedBehaviour"
proof -
  let ?sd = "\<lparr>frameDataVec = replicate 500 (replicate 1024 (0, 0)), maxVal = 0\<rparr> :: SignalData"
  let ?st = "snd (getSignalData AdiTrx_init ?sd)"
  have sd: "mSignalData ?st = ?sd" and fl: "unat (mFrameLength ?st) = 1024"
    and fn: "unat (mFramesNr ?st) = 500"
    by (simp_all add: getSignalData_def vector_at_def Let_def)
  have slot: "startTx_slot rnd K S (?st\<lparr>mTxBufIqPairsCount := 512000\<rparr>) 0 = Inl UndefinedBehaviour"
    for K S
    by (simp add: startTx_slot_def Let_def sd fl vector_at_def SCALE_RATIO_def
        convert_component_def)
  have fill: "tx_fill (startTx_slot rnd K S (?st\<lparr>mTxBufIqPairsCount := 512000\<rparr>)) [0..<512000]
      = Inl UndefinedBehaviour" for K S
    by (rule tx_fill_first_fails) (simp, rule slot)
  have body: "startTxStreaming_body rnd K S (\<lambda>n. True) ?st = Inl UndefinedBehaviour" for K S
    unfolding startTxStreaming_body_def Let_def fl fn
    by (simp add: fill)
  show ?thesis
    using dev
    by (cases dev)
       (simp_all add: AdiTrxAd9361_startTxStreaming_def AdiTrxAd9081_startTxStreaming_def
          AdiTrxAdrv9009_startTxStreaming_def body)
qed

text \<open>
  Claim C2. The claim is what the division by \<open>maxVal\<close> needs, and the code does not do it.
  The file of 260000 lines of 1024 tokens \<open>0+0i\<close> is parsed with \<open>maxVal = 0\<close> and is not
  rejected: the run returns with the status true, which enables the start of the
  streaming, and the store holds under (AM-DSB, -20) the 500 all-zero frames with
  \<open>maxVal = 0\<close>. When this signal data is loaded into a transceiver and the streaming is
  started, the scale \<open>K / maxVal\<close> is a division by zero and the conversion of the first
  sample to \<^verbatim>\<open>int16_t\<close> is undefined, for each of the three variants and whatever the
  rounding of the \<^verbatim>\<open>double\<close> operations.
\<close>

theorem all_zero_file_reaches_division_by_zero:
  "\<not> isl (csv_parse_run (csv_presenter Map.empty) (Some (replicate 260000 zero_line)))
   \<and> mParserStatus
       (projr (csv_parse_run (csv_presenter Map.empty) (Some (replicate 260000 zero_line))))
   \<and> mMap_tx (projr (csv_parse_run (csv_presenter Map.empty)
                        (Some (replicate 260000 zero_line))))
        (NAME_AM_DSB, - 20)
       = Some \<lparr>frameDataVec = replicate 500 (replicate 1024 (0, 0)), maxVal = 0\<rparr>
   \<and> TxHal_startStreaming TX_DEVICE_AD9361 rnd (\<lambda>n. True)
         (snd (getSignalData AdiTrx_init
                 \<lparr>frameDataVec = replicate 500 (replicate 1024 (0, 0)), maxVal = 0\<rparr>))
       = Inl UndefinedBehaviour
   \<and> TxHal_startStreaming TX_DEVICE_ADRV9009 rnd (\<lambda>n. True)
         (snd (getSignalData AdiTrx_init
                 \<lparr>frameDataVec = replicate 500 (replicate 1024 (0, 0)), maxVal = 0\<rparr>))
       = Inl UndefinedBehaviour
   \<and> TxHal_startStreaming TX_DEVICE_AD9081 rnd (\<lambda>n. True)
         (snd (getSignalData AdiTrx_init
                 \<lparr>frameDataVec = replicate 500 (replicate 1024 (0, 0)), maxVal = 0\<rparr>))
       = Inl UndefinedBehaviour"
proof -
  have ty: "mDatasetType (csv_presenter Map.empty) = DATASET_SOURCE_HISARMOD_2019_1"
    by (simp add: csv_presenter_def)
  have len: "length (replicate 260000 zero_line) = 260000" by simp
  from run_whole_dataset [OF zero_lines_facts(1) len ty] obtain st' where
    st': "csv_parse_run (csv_presenter Map.empty) (Some (replicate 260000 zero_line)) = Inr st'"
      "mParserStatus st'" "mMap_tx st' = block_map (replicate 260000 zero_line) 520" by blast
  have key: "block_key 0 = (NAME_AM_DSB, - 20)"
    by (simp add: block_key_def block_mod_def block_snr_def series_mods_def)
  have "block_map (replicate 260000 zero_line) 520 (block_key 0)
      = Some (block_data (replicate 260000 zero_line) 0 500)"
    by (rule block_map_lookup) simp
  then have entry: "mMap_tx st' (NAME_AM_DSB, - 20)
      = Some \<lparr>frameDataVec = replicate 500 (replicate 1024 (0, 0)), maxVal = 0\<rparr>"
    by (simp add: st'(3) key zero_block)
  show ?thesis
    using st'(1,2) entry zero_signal_streaming [of TX_DEVICE_AD9361 rnd]
      zero_signal_streaming [of TX_DEVICE_ADRV9009 rnd]
      zero_signal_streaming [of TX_DEVICE_AD9081 rnd]
    by simp
qed

subsection \<open>The store after a parse run\<close>

lemma csv_start_ignores_containers:
  "csv_start (p\<lparr>mMap := m0\<rparr>) = csv_start p"
  by (simp add: csv_start_def)

lemma parse_ignores_map:
  "CsvParser_parseDataset (p\<lparr>mMap := m0\<rparr>) file = CsvParser_parseDataset p file"
  by (cases "file") (simp_all add: CsvParser_parseDataset_def csv_start_ignores_containers)

lemma run_store:
  assumes ty: "mDatasetType st = DATASET_SOURCE_HISARMOD_2019_1"
    and run: "csv_parse_run st file = Inr st'"
  shows "\<exists>p'. CsvParser_parseDataset (mCsvParser st) file = Inr p' \<and> mCsvParser st' = p'
            \<and> mMap_tx st' = mMap p' \<and> mParserStatus st' = mStatus p'"
  using run
  by (auto simp: csv_parse_run_def handleDatasetParseFinished_def ty split: sum.splits)

lemma parse_unopened:
  "CsvParser_parseDataset p None
     = Inr (p\<lparr>mMap := Map.empty, mUniqueModVec := [], mUniqueSnrVec := [], mStatus := False\<rparr>)"
  by (simp add: CsvParser_parseDataset_def csv_start_def removeDuplicates_mod_def
      removeDuplicates_int_def Let_def)

lemma csv_line_returns: "\<exists>st'. csv_line st l = Inr st'"
  unfolding csv_line_def series_at_block Let_def
  by (simp only: sum.case block_code_mod split: if_split) blast

lemma csv_loop_returns: "\<exists>st'. csv_loop ls st = Inr st'"
proof (induction ls arbitrary: st)
  case Nil
  show ?case by simp
next
  case (Cons l ls)
  from csv_line_returns [of st l] obtain st1 where st1: "csv_line st l = Inr st1" by blast
  from Cons [of st1] show ?case by (simp add: st1)
qed

lemma parse_returns: "\<exists>p'. CsvParser_parseDataset p file = Inr p'"
proof (cases "file")
  case None
  then show ?thesis by (simp add: parse_unopened)
next
  case (Some ls)
  from csv_loop_returns [of ls "csv_start p"] obtain st where "csv_loop ls (csv_start p) = Inr st"
    by blast
  then show ?thesis by (simp add: CsvParser_parseDataset_def Some Let_def)
qed

lemma run_returns: "\<exists>st'. csv_parse_run st file = Inr st'"
  using parse_returns [of "mCsvParser st" "file"] by (auto simp: csv_parse_run_def)

text \<open>
  Claim C3, as amended. Every run of the text-tabular parser returns, failed or not, and
  after its completion notification the store is the map of the parser and the status is
  the status of the parser. The parser clears its map when it starts, so the store and the
  status after the run are the same whatever the store and the map of the parser held
  before: nothing of the previous store is kept. When the file cannot be opened, the run
  fails and the store is left empty.
\<close>

theorem store_is_replaced_by_every_run:
  assumes "mDatasetType st = DATASET_SOURCE_HISARMOD_2019_1"
  shows "\<exists>st' st''.
           csv_parse_run st file = Inr st'
         \<and> mMap_tx st' = mMap (mCsvParser st')
         \<and> mParserStatus st' = mStatus (mCsvParser st')
         \<and> csv_parse_run
               (st\<lparr>mMap_tx := store, mCsvParser := (mCsvParser st)\<lparr>mMap := m0\<rparr>\<rparr>) file
             = Inr st''
         \<and> mMap_tx st'' = mMap_tx st' \<and> mParserStatus st'' = mParserStatus st'
         \<and> (file = None \<longrightarrow> mMap_tx st' = Map.empty \<and> \<not> mParserStatus st')"
proof -
  from run_returns [of st "file"] obtain st' where run: "csv_parse_run st file = Inr st'"
    by blast
  from run_store [OF assms run] obtain p' where
    p': "CsvParser_parseDataset (mCsvParser st) file = Inr p'" "mCsvParser st' = p'"
      "mMap_tx st' = mMap p'" "mParserStatus st' = mStatus p'" by blast
  have other: "csv_parse_run
        (st\<lparr>mMap_tx := store, mCsvParser := (mCsvParser st)\<lparr>mMap := m0\<rparr>\<rparr>) file
      = Inr (handleDatasetParseFinished
               (st\<lparr>mMap_tx := store, mCsvParser := (mCsvParser st)\<lparr>mMap := m0\<rparr>,
                   mCsvParser := p'\<rparr>))"
    by (simp add: csv_parse_run_def parse_ignores_map p'(1))
  have unopened: "mMap_tx st' = Map.empty \<and> \<not> mParserStatus st'" if "file = None"
    using p' that by (auto simp: parse_unopened)
  show ?thesis
    using run p' unopened
    by (simp add: other handleDatasetParseFinished_def assms)
qed

theorem store_is_replaced_by_every_run_witness:
  "\<exists>st'. csv_parse_run (csv_presenter example_store) None = Inr st'
       \<and> mMap_tx st' = Map.empty \<and> \<not> mParserStatus st'
       \<and> mMap_tx st' = mMap (mCsvParser st')"
proof -
  have ty: "mDatasetType (csv_presenter example_store) = DATASET_SOURCE_HISARMOD_2019_1"
    by (simp add: csv_presenter_def)
  from store_is_replaced_by_every_run [OF ty, of None Map.empty Map.empty]
  show ?thesis by auto
qed

text \<open>
  The claim as stated fails on a file that cannot be opened: the run returns with the
  status false, and the entry that the store held before the run is gone.
\<close>

theorem failed_parse_counterexample:
  "\<not> isl (csv_parse_run (csv_presenter example_store) None)
   \<and> \<not> mParserStatus (projr (csv_parse_run (csv_presenter example_store) None))
   \<and> mMap_tx (csv_presenter example_store) (NAME_BPSK, 0)
       = Some \<lparr>frameDataVec = [[(1, 0)]], maxVal = 1\<rparr>
   \<and> mMap_tx (projr (csv_parse_run (csv_presenter example_store) None)) (NAME_BPSK, 0) = None"
  by (simp add: csv_parse_run_def parse_unopened handleDatasetParseFinished_def
      csv_presenter_def example_store_def DatasetParser_init_def)


section \<open>Proofs: hierarchical parser\<close>

lemma h5_iteration_agree:
  assumes "\<forall>j. i \<le> j \<and> j < i + 2048 \<longrightarrow> f j = g j"
  shows "h5_iteration f limit perMod perModSnr i st = h5_iteration g limit perMod perModSnr i st"
proof -
  have "map (\<lambda>k. (f (i + 2 * k), f (i + 2 * k + 1))) [0..<NR_ELEMENTS_PER_FRAME div 2]
      = map (\<lambda>k. (g (i + 2 * k), g (i + 2 * k + 1))) [0..<NR_ELEMENTS_PER_FRAME div 2]"
    using assms by (intro map_cong) (auto simp: NR_ELEMENTS_PER_FRAME_def)
  then show ?thesis by (simp only: h5_iteration_def)
qed

lemma h5_iteration_returns:
  assumes "perMod \<noteq> 0" "perModSnr \<noteq> 0" "i + 2048 < 2 ^ 64" "i + 2048 \<le> limit"
  shows "\<exists>st'. h5_iteration f limit perMod perModSnr i st = Inr st'"
proof -
  have a: "\<not> (2 ^ 64 \<le> i + NR_ELEMENTS_PER_FRAME)" "\<not> limit < i + NR_ELEMENTS_PER_FRAME"
    using assms by (simp_all add: NR_ELEMENTS_PER_FRAME_def)
  show ?thesis
    unfolding h5_iteration_def Let_def
    by (simp only: assms(1,2) a if_False simp_thms split: if_split) blast
qed

lemma h5_loop_done:
  "\<not> i < STOP \<Longrightarrow> h5_loop f limit perMod perModSnr STOP i st = Inr st"
  by (subst h5_loop.simps) simp

lemma h5_loop_step:
  "i < STOP \<Longrightarrow> h5_loop f limit perMod perModSnr STOP i st =
     (case h5_iteration f limit perMod perModSnr i st of
        Inl e \<Rightarrow> Inl e
      | Inr st' \<Rightarrow>
          if h5_status st'
          then h5_loop f limit perMod perModSnr STOP (i + NR_ELEMENTS_PER_FRAME) st'
          else Inr st')"
  by (subst h5_loop.simps) simp

lemma h5_loop_agree:
  assumes pm: "perMod \<noteq> 0" "perModSnr \<noteq> 0" and lim: "STOP \<le> limit" "STOP < 2 ^ 64"
  shows "STOP = i + 2048 * n \<Longrightarrow> \<forall>j. i \<le> j \<and> j < STOP \<longrightarrow> f j = g j
     \<Longrightarrow> h5_loop f limit perMod perModSnr STOP i st = h5_loop g limit perMod perModSnr STOP i st
         \<and> (\<exists>st'. h5_loop f limit perMod perModSnr STOP i st = Inr st')"
proof (induction n arbitrary: i st)
  case 0
  then show ?case by (simp add: h5_loop_done)
next
  case (Suc n)
  have lt: "i < STOP" using Suc.prems(1) by simp
  have b: "i + 2048 \<le> STOP" using Suc.prems(1) by simp
  have ag: "h5_iteration f limit perMod perModSnr i st = h5_iteration g limit perMod perModSnr i st"
    using Suc.prems(2) b by (intro h5_iteration_agree) auto
  obtain st' where st': "h5_iteration f limit perMod perModSnr i st = Inr st'"
    using h5_iteration_returns [OF pm, of i limit f st] b lim by auto
  have next_i: "STOP = (i + NR_ELEMENTS_PER_FRAME) + 2048 * n"
    using Suc.prems(1) by (simp add: NR_ELEMENTS_PER_FRAME_def)
  have next_ag: "\<forall>j. i + NR_ELEMENTS_PER_FRAME \<le> j \<and> j < STOP \<longrightarrow> f j = g j"
    using Suc.prems(2) by simp
  from Suc.IH [OF next_i next_ag, of st'] obtain st'' where
    eq: "h5_loop f limit perMod perModSnr STOP (i + NR_ELEMENTS_PER_FRAME) st'
       = h5_loop g limit perMod perModSnr STOP (i + NR_ELEMENTS_PER_FRAME) st'"
    and r: "h5_loop f limit perMod perModSnr STOP (i + NR_ELEMENTS_PER_FRAME) st' = Inr st''"
    by blast
  have f: "h5_loop f limit perMod perModSnr STOP i st
      = (if h5_status st' then Inr st'' else Inr st')"
    using lt by (simp add: h5_loop_step st' r)
  have g: "h5_loop g limit perMod perModSnr STOP i st
      = (if h5_status st' then Inr st'' else Inr st')"
    using lt by (simp add: h5_loop_step ag [symmetric] st' eq [symmetric] r)
  show ?case by (simp add: f g)
qed

lemma h5_modOffset_from_bound:
  "h5_modOffset_from xs i aName = 0 \<or> h5_modOffset_from xs i aName < i + length xs"
  by (induction xs i aName rule: h5_modOffset_from.induct) auto

lemma h5_modOffset_bound: "h5_modOffset aName < 24"
  using h5_modOffset_from_bound [of hdf5_MODULATION_MAPPING 0 aName]
  by (auto simp: h5_modOffset_def hdf5_MODULATION_MAPPING_def)

lemma h5_cube:
  assumes "mDimensionsVec ds = [2555904, 1024, 2]"
  shows "h5_nrOfElements ds = 5234491392"
    and "h5_TOTAL_BYTES ds = size_t_wrap (mDatatypeSize ds * 5234491392)"
  using assms by (simp_all add: h5_nrOfElements_def h5_TOTAL_BYTES_def size_t_wrap_def)

lemma loadTreeItem_cube:
  assumes dims: "mDimensionsVec ds = [2555904, 1024, 2]"
    and sz: "mDatatypeSize ds = 4"
    and cls: "mDatatypeClass ds = H5T_FLOAT" and buf: "\<not> mDataBuffer_set ds"
    and env: "malloc_succeeds env 20937965568" "H5Dread_succeeds env"
  shows "loadTreeItem env p ITEM_TYPE_VARIABLE ds =
      (case h5_loop (X_floats env) 5234491392 218103808 8388608
              (h5_modOffset (mSingleModulation p) * 218103808 + 218103808)
              (h5_modOffset (mSingleModulation p) * 218103808) (h5_start p) of
         Inl e \<Rightarrow> Inl e
       | Inr st \<Rightarrow> Inr (h5_status st, h5_parser st,
                        [Malloc 20937965568, H5Dread H5S_ALL H5S_ALL, Free]))"
proof -
  have tb: "h5_TOTAL_BYTES ds = 20937965568"
    using h5_cube(2) [OF dims] by (simp add: sz size_t_wrap_def)
  have off: "h5_modOffset (mSingleModulation p) * 218103808 < 5234491392"
    using h5_modOffset_bound [of "mSingleModulation p"] by simp
  have s1: "size_t_wrap (h5_modOffset (mSingleModulation p) * 218103808)
      = h5_modOffset (mSingleModulation p) * 218103808"
    using off by (simp add: size_t_wrap_def)
  have s2: "size_t_wrap (h5_modOffset (mSingleModulation p) * 218103808 + 218103808)
      = h5_modOffset (mSingleModulation p) * 218103808 + 218103808"
    using off by (simp add: size_t_wrap_def)
  show ?thesis
    by (simp add: loadTreeItem_def h5_cube(1) [OF dims] tb cls buf env s1 s2 Let_def)
qed

lemma loadTreeItem_cube_agree:
  assumes dims: "mDimensionsVec ds = [2555904, 1024, 2]"
    and sz: "mDatatypeSize ds = 4"
    and cls: "mDatatypeClass ds = H5T_FLOAT" and buf: "\<not> mDataBuffer_set ds"
    and env: "malloc_succeeds env 20937965568" "H5Dread_succeeds env"
    and agree: "\<forall>j. h5_modOffset (mSingleModulation p) * 218103808 \<le> j
                     \<and> j < (h5_modOffset (mSingleModulation p) + 1) * 218103808
                  \<longrightarrow> floats j = X_floats env j"
  shows "\<exists>status p'.
           loadTreeItem env p ITEM_TYPE_VARIABLE ds
             = Inr (status, p', [Malloc 20937965568, H5Dread H5S_ALL H5S_ALL, Free])
         \<and> loadTreeItem (env\<lparr>X_floats := floats\<rparr>) p ITEM_TYPE_VARIABLE ds
             = Inr (status, p', [Malloc 20937965568, H5Dread H5S_ALL H5S_ALL, Free])"
proof -
  define START where "START = h5_modOffset (mSingleModulation p) * 218103808"
  have off: "h5_modOffset (mSingleModulation p) < 24" by (rule h5_modOffset_bound)
  have stop: "START + 218103808 = START + 2048 * 106496" by simp
  have lim: "START + 218103808 \<le> 5234491392" "START + 218103808 < 2 ^ 64"
    using off by (simp_all add: START_def)
  have ag: "\<forall>j. START \<le> j \<and> j < START + 218103808 \<longrightarrow> X_floats env j = floats j"
    using agree by (simp add: START_def)
  have pm: "(218103808 :: nat) \<noteq> 0" "(8388608 :: nat) \<noteq> 0" by simp_all
  from h5_loop_agree [OF pm lim stop ag, of "h5_start p"] obtain st' where
    eq: "h5_loop (X_floats env) 5234491392 218103808 8388608 (START + 218103808) START (h5_start p)
       = h5_loop floats 5234491392 218103808 8388608 (START + 218103808) START (h5_start p)"
    and r: "h5_loop (X_floats env) 5234491392 218103808 8388608 (START + 218103808) START
              (h5_start p) = Inr st'"
    by blast
  have env': "malloc_succeeds (env\<lparr>X_floats := floats\<rparr>) 20937965568"
    "H5Dread_succeeds (env\<lparr>X_floats := floats\<rparr>)"
    using env by simp_all
  have a: "loadTreeItem env p ITEM_TYPE_VARIABLE ds
      = Inr (h5_status st', h5_parser st', [Malloc 20937965568, H5Dread H5S_ALL H5S_ALL, Free])"
    using r by (simp add: loadTreeItem_cube [OF dims sz cls buf env] START_def)
  have b: "loadTreeItem (env\<lparr>X_floats := floats\<rparr>) p ITEM_TYPE_VARIABLE ds
      = Inr (h5_status st', h5_parser st', [Malloc 20937965568, H5Dread H5S_ALL H5S_ALL, Free])"
  proof -
    have "h5_loop floats 5234491392 218103808 8388608 (START + 218103808) START (h5_start p)
        = Inr st'" using r eq by simp
    then show ?thesis
      by (simp add: loadTreeItem_cube [OF dims sz cls buf env'] START_def)
  qed
  show ?thesis using a b by blast
qed

subsection \<open>What the loop folds\<close>

text \<open>
  The loop over the slab of a modulation runs to its end with the status true, and after
  \<open>F\<close> frames its state is \<open>h5_state p X START F\<close>: the frames are the
  floats of the buffer at the indices of the slab, in the order of the buffer.
\<close>

lemma foldl_push_points:
  "foldl (\<lambda>acc iqPoint. push_point iqPoint acc) (fd, m) pts = (fd @ pts, foldl raise_max m pts)"
  by (induction pts arbitrary: fd m) (simp_all add: push_point_raise)

lemma h5_block_0: "h5_block X START s 0 = \<lparr>frameDataVec = [], maxVal = 0\<rparr>"
  by (simp add: h5_block_def)

lemma h5_block_Suc:
  "h5_block X START s (Suc r)
     = \<lparr>frameDataVec = frameDataVec (h5_block X START s r) @ [h5_frame X START (4096 * s + r)],
        maxVal = foldl raise_max (maxVal (h5_block X START s r)) (h5_frame X START (4096 * s + r))\<rparr>"
  by (simp add: h5_block_def)

lemma h5_block_length: "length (frameDataVec (h5_block X START s r)) = r"
  by (simp add: h5_block_def)

lemma h5_frame_length: "length (h5_frame X START F) = 1024"
  by (simp add: h5_frame_def)

text \<open>The arithmetic of the element index \<open>START + 2048 * F\<close> of a frame of the slab.\<close>

lemma slab_index:
  fixes off F :: nat
  assumes "F < 106496"
  shows "(off * 218103808 + 2048 * F) mod 218103808 = 2048 * F"
    and "(off * 218103808 + 2048 * F) mod 2048 = 0"
    and "2048 * F div 8388608 = F div 4096"
proof -
  have lt: "2048 * F < 218103808" using assms by simp
  show "(off * 218103808 + 2048 * F) mod 218103808 = 2048 * F"
    using lt by (rule mod_split)
  have "off * 218103808 + 2048 * F = (off * 106496 + F) * 2048 + 0" by simp
  then show "(off * 218103808 + 2048 * F) mod 2048 = 0"
    by (simp only: mod_split [of 0 2048])
  have "2048 * F div (2048 * 4096) = F div 4096" by (rule div_mult_mult1) simp
  then show "2048 * F div 8388608 = F div 4096" by simp
qed

lemma slab_block_end:
  fixes off F :: nat
  shows "((off * 218103808 + 2048 * F + 2048) mod 8388608 = 0) = (Suc F mod 4096 = 0)"
proof -
  have "off * 218103808 + 2048 * F + 2048 = 2048 * (off * 106496 + Suc F)" by simp
  moreover have "(8388608 :: nat) = 2048 * 4096" by simp
  ultimately have "(off * 218103808 + 2048 * F + 2048) mod 8388608
      = 2048 * ((off * 106496 + Suc F) mod 4096)"
    by (simp only: mult_mod_right)
  moreover have "(off * 106496 + Suc F) mod 4096 = Suc F mod 4096"
  proof -
    have "off * 106496 + Suc F = (off * 26) * 4096 + Suc F" by simp
    then show ?thesis by (simp only: mod_mult_self3)
  qed
  ultimately show ?thesis by simp
qed

lemma h5_crtSnrDb_slab:
  assumes "F < 106496"
  shows "h5_crtSnrDb 218103808 8388608 (off * 218103808 + 2048 * F) = h5_snr (F div 4096)"
proof -
  have "F div 4096 \<le> 2 ^ 30" using assms by simp
  moreover have "2048 * F mod 218103808 = 2048 * F" using assms by simp
  ultimately show ?thesis
    using int_of_size_t_snr [of "F div 4096"]
    by (simp add: h5_crtSnrDb_def slab_index(3) h5_snr_def)
qed


lemma h5_iteration_simp:
  assumes off: "off < 24" and F: "F < 106496"
  shows "h5_iteration X 5234491392 218103808 8388608 (off * 218103808 + 2048 * F) st =
     (let s = F div 4096;
          new = (h5_snr s \<noteq> h5_oldSnrDb st);
          p1 = (if new then (h5_parser st)
                              \<lparr>mUniqueSnrVec := mUniqueSnrVec (h5_parser st) @ [h5_snr s]\<rparr>
                else h5_parser st);
          pair1 = (if new then (mSingleModulation (h5_parser st), h5_snr s)
                   else h5_modSnrPair st);
          sd1 = (if new then \<lparr>frameDataVec = [], maxVal = 0\<rparr> else h5_signalData st);
          fr = h5_frame X (off * 218103808) F;
          sd3 = \<lparr> frameDataVec = frameDataVec sd1 @ [fr],
                  maxVal = foldl raise_max (maxVal sd1) fr \<rparr>
      in if Suc F mod 4096 = 0 then
           (if 4096 \<noteq> length (frameDataVec sd3)
            then Inr (st\<lparr> h5_parser := p1, h5_modSnrPair := pair1, h5_signalData := sd3,
                          h5_frameData := fr, h5_status := False \<rparr>)
            else Inr (st\<lparr> h5_parser := p1\<lparr>mMap := map_insert (mMap p1) pair1 sd3\<rparr>,
                          h5_modSnrPair := pair1, h5_signalData := sd3,
                          h5_frameData := fr, h5_oldSnrDb := h5_snr s \<rparr>))
         else Inr (st\<lparr> h5_parser := p1, h5_modSnrPair := pair1, h5_signalData := sd3,
                        h5_frameData := fr, h5_oldSnrDb := h5_snr s \<rparr>))"
proof -
  define i where "i = off * 218103808 + 2048 * F"
  have snr: "h5_crtSnrDb 218103808 8388608 i = h5_snr (F div 4096)"
    unfolding i_def using F by (rule h5_crtSnrDb_slab)
  have al: "i mod NR_ELEMENTS_PER_FRAME = 0"
    unfolding i_def using slab_index(2) [OF F, of off] by (simp add: NR_ELEMENTS_PER_FRAME_def)
  have ub: "i + 2048 \<le> 5234491392" using off F by (simp add: i_def)
  have a: "\<not> (2 ^ 64 \<le> i + NR_ELEMENTS_PER_FRAME)" "\<not> 5234491392 < i + NR_ELEMENTS_PER_FRAME"
    using ub by (simp_all add: NR_ELEMENTS_PER_FRAME_def)
  have pts: "map (\<lambda>k. (X (i + 2 * k), X (i + 2 * k + 1))) [0..<NR_ELEMENTS_PER_FRAME div 2]
      = h5_frame X (off * 218103808) F"
    by (simp add: h5_frame_def NR_ELEMENTS_PER_FRAME_def i_def)
  have i2: "2 < i + NR_ELEMENTS_PER_FRAME" by (simp add: NR_ELEMENTS_PER_FRAME_def)
  have w: "size_t_wrap (i + NR_ELEMENTS_PER_FRAME - 2 + 2) = i + 2048"
    using ub by (simp add: NR_ELEMENTS_PER_FRAME_def size_t_wrap_def)
  have e: "(0 = (i + 2048) mod 8388608) = (Suc F mod 4096 = 0)"
    using slab_block_end [of off F] by (simp add: i_def eq_commute [of 0])
  have nz: "\<not> ((218103808 :: nat) = 0 \<or> (8388608 :: nat) = 0)" by simp
  have fl: "FRAME_LENGTH DATASET_SOURCE_RADIOML_2018_01 = 1024"
    "FRAMES_PER_MOD_SNR_NR DATASET_SOURCE_RADIOML_2018_01 = 4096" by simp_all
  show ?thesis
    using a w e i2
    unfolding i_def [symmetric] h5_iteration_def snr al pts
    by (simp add: foldl_push_points h5_frame_length Let_def)
qed

lemma suc_mod_4096:
  "(n::nat) mod 4096 = 0 \<Longrightarrow> Suc n mod 4096 \<noteq> 0"
  "(n::nat) mod 4096 = 0 \<Longrightarrow> Suc n div 4096 = n div 4096"
  "Suc n mod 4096 = 0 \<Longrightarrow> Suc n div 4096 = Suc (n div 4096)"
  "Suc n mod 4096 \<noteq> 0 \<Longrightarrow> Suc n div 4096 = n div 4096"
  using div_Suc [of n 4096] mod_Suc [of n 4096] by simp_all

lemma suc_mod_4096_full:
  assumes a: "Suc n mod 4096 = 0"
  shows "Suc (n - 4096 * (n div 4096)) = 4096"
proof -
  have "n mod 4096 = 4095" using a mod_Suc [of n 4096] by (simp split: if_splits)
  moreover have "n - 4096 * (n div 4096) = n mod 4096" by (simp add: minus_mult_div_eq_mod)
  ultimately show ?thesis by simp
qed

lemma same_block_4096:
  "n \<noteq> 0 \<Longrightarrow> (n :: nat) mod 4096 \<noteq> 0 \<Longrightarrow> (n - Suc 0) div 4096 = n div 4096"
proof -
  assume a: "n \<noteq> 0" "n mod 4096 \<noteq> 0"
  then obtain m where m: "n = Suc m" by (cases n) auto
  show ?thesis using a(2) suc_mod_4096(4) [of m] by (simp add: m)
qed

lemma h5_snr_inj: "(h5_snr a = h5_snr b) = (a = b)"
  by (simp add: h5_snr_def)


lemma h5_step:
  assumes off: "off < 24" and F: "F < 106496"
  shows "h5_iteration X 5234491392 218103808 8388608 (off * 218103808 + 2048 * F)
           (h5_state p X (off * 218103808) F)
         = Inr (h5_state p X (off * 218103808) (Suc F))"
proof (cases "F = 0")
  case True
  have d: "h5_block X (off * 218103808) 0 (Suc 0)
     = \<lparr>frameDataVec = [h5_frame X (off * 218103808) 0],
        maxVal = foldl raise_max 0 (h5_frame X (off * 218103808) 0)\<rparr>"
    using h5_block_Suc [of X "off * 218103808" 0 0] by (simp add: h5_block_0)
  have o: "h5_snr 0 \<noteq> - 100" by (simp add: h5_snr_def)
  have F0: "(0 :: nat) < 106496" by simp
  show ?thesis
    unfolding True
    using h5_iteration_simp [OF off F0, of X "h5_state p X (off * 218103808) 0"]
    by (simp add: h5_state_def h5_start_def d o Let_def)
next
  case False
  define b where "b = F div 4096"
  show ?thesis
  proof (cases "F mod 4096 = 0")
    case True
    have nb: "F = 4096 * b"
      using True mult_div_mod_eq [of 4096 F] by (simp add: b_def)
    then obtain b' where b': "b = Suc b'" using False by (cases b) auto
    have prev: "(F - Suc 0) div 4096 = b'"
      using nb b' by simp
    have nxt: "Suc F mod 4096 \<noteq> 0" using True by (rule suc_mod_4096)
    have sd: "Suc F div 4096 = b" unfolding b_def using True by (rule suc_mod_4096)
    have new: "h5_snr b \<noteq> h5_snr b'"
      unfolding b' by (simp add: h5_snr_def)
    have d: "h5_block X (off * 218103808) b (Suc 0)
       = \<lparr>frameDataVec = [h5_frame X (off * 218103808) F],
          maxVal = foldl raise_max 0 (h5_frame X (off * 218103808) F)\<rparr>"
      using h5_block_Suc [of X "off * 218103808" b 0] by (simp add: h5_block_0 nb)
    have r: "Suc F - 4096 * b = Suc 0" using nb by simp
    have r': "F - (4095 + 4096 * b') = Suc 0" using nb b' by simp
    note d' = d [unfolded b']
    show ?thesis
      using new False nxt
      by (subst h5_iteration_simp [OF off F])
         (simp_all add: h5_state_def prev b_def [symmetric] sd d' r r' b' Let_def)
  next
    case mid: False
    have prev: "(F - Suc 0) div 4096 = b"
      using False mid same_block_4096 [of F] by (simp add: b_def)
    have le: "4096 * b \<le> F" by (simp add: b_def)
    have idx: "4096 * b + (F - 4096 * b) = F" using le by simp
    have d: "h5_block X (off * 218103808) b (Suc (F - 4096 * b))
       = \<lparr>frameDataVec = frameDataVec (h5_block X (off * 218103808) b (F - 4096 * b))
                          @ [h5_frame X (off * 218103808) F],
          maxVal = foldl raise_max (maxVal (h5_block X (off * 218103808) b (F - 4096 * b)))
                     (h5_frame X (off * 218103808) F)\<rparr>"
      using h5_block_Suc [of X "off * 218103808" b "F - 4096 * b"] by (simp only: idx)
    have r: "Suc F - 4096 * b = Suc (F - 4096 * b)" using le by simp
    have len: "length (frameDataVec (h5_block X (off * 218103808) b (F - 4096 * b)))
        = F - 4096 * b"
      by (rule h5_block_length)
    show ?thesis
    proof (cases "Suc F mod 4096 = 0")
      case True
      have sd: "Suc F div 4096 = Suc b" unfolding b_def using True by (rule suc_mod_4096)
      have full: "Suc (F - 4096 * b) = 4096"
        unfolding b_def using True by (rule suc_mod_4096_full)
      then have full': "F - 4096 * b = 4095" by simp
      note d5 = d [unfolded full' full]
      note len5 = len [unfolded full']
      show ?thesis
        using False True
        by (subst h5_iteration_simp [OF off F])
           (simp_all add: h5_state_def prev b_def [symmetric] sd d5 [symmetric] r len5 full
              full' Let_def)
    next
      case nf: False
      have sd: "Suc F div 4096 = b" unfolding b_def using nf by (rule suc_mod_4096)
      show ?thesis
        using False nf
        by (subst h5_iteration_simp [OF off F])
           (simp_all add: h5_state_def prev b_def [symmetric] sd d [symmetric] r Let_def)
    qed
  qed
qed

lemma h5_state_ok: "h5_status (h5_state p X START F) = True"
  by (simp add: h5_state_def h5_start_def)

lemma h5_loop_slab_from:
  assumes off: "off < 24"
  shows "F + d = 106496
     \<Longrightarrow> h5_loop X 5234491392 218103808 8388608 (off * 218103808 + 218103808)
           (off * 218103808 + 2048 * F) (h5_state p X (off * 218103808) F)
         = Inr (h5_state p X (off * 218103808) 106496)"
proof (induction d arbitrary: F)
  case 0
  then have F: "F = 106496" by simp
  show ?case unfolding F by (rule h5_loop_done) simp
next
  case (Suc d)
  then have F: "F < 106496" by simp
  have lt: "off * 218103808 + 2048 * F < off * 218103808 + 218103808" using F by simp
  have nx: "off * 218103808 + 2048 * F + NR_ELEMENTS_PER_FRAME = off * 218103808 + 2048 * Suc F"
    by (simp add: NR_ELEMENTS_PER_FRAME_def)
  have ih: "h5_loop X 5234491392 218103808 8388608 (off * 218103808 + 218103808)
           (off * 218103808 + 2048 * Suc F) (h5_state p X (off * 218103808) (Suc F))
         = Inr (h5_state p X (off * 218103808) 106496)"
    using Suc.prems by (intro Suc.IH) simp
  show ?case
    by (simp only: h5_loop_step [OF lt] h5_step [OF off F] sum.case h5_state_ok if_True nx ih)
qed

lemma h5_loop_slab:
  assumes off: "off < 24"
  shows "h5_loop X 5234491392 218103808 8388608 (off * 218103808 + 218103808)
           (off * 218103808) (h5_start p)
         = Inr (h5_state p X (off * 218103808) 106496)"
  using h5_loop_slab_from [OF off, of 0 106496 X p] by (simp add: h5_state_def)


lemma map_insert_lookup:
  "map_insert m k v k' = (if k' = k \<and> m k = None then Some v else m k')"
  by (cases "m k") (simp_all add: map_insert_def)

lemma h5_map_other:
  "\<forall>s<B. key \<noteq> (aName, h5_snr s) \<Longrightarrow> h5_map m0 X START aName B key = m0 key"
  by (induction B) (simp_all add: map_insert_lookup)

lemma h5_map_lookup:
  "s < B \<Longrightarrow> m0 (aName, h5_snr s) = None
     \<Longrightarrow> h5_map m0 X START aName B (aName, h5_snr s) = Some (h5_block X START s 4096)"
proof (induction B)
  case 0
  then show ?case by simp
next
  case (Suc B)
  show ?case
  proof (cases "s = B")
    case True
    have "h5_map m0 X START aName B (aName, h5_snr B) = m0 (aName, h5_snr B)"
      by (rule h5_map_other) (simp add: h5_snr_inj)
    then show ?thesis using Suc.prems(2) by (simp add: True map_insert_lookup)
  next
    case False
    then have "s < B" using Suc.prems(1) by simp
    from Suc.IH [OF this Suc.prems(2)] False show ?thesis
      by (simp add: map_insert_lookup h5_snr_inj)
  qed
qed

lemma h5_block_point:
  assumes "f < 4096" "k < 1024"
  shows "frameDataVec (h5_block X START s 4096) ! f ! k
       = (X (START + 2048 * (4096 * s + f) + 2 * k),
          X (START + 2048 * (4096 * s + f) + 2 * k + 1))"
  using assms by (simp add: h5_block_def h5_frame_def)

lemma h5_block_frame_length:
  "f < 4096 \<Longrightarrow> length (frameDataVec (h5_block X START s 4096) ! f) = 1024"
  by (simp add: h5_block_def h5_frame_def)

lemma h5_block_max:
  "maxVal (h5_block X START s r) = foldl raise_max 0 (concat (frameDataVec (h5_block X START s r)))"
  by (simp add: h5_block_def)

lemma h5_snr_fun: "h5_snr = (\<lambda>s. - 20 + 2 * int s)"
  by (rule ext) (simp add: h5_snr_def)

lemma loadTreeItem_slab:
  assumes dims: "mDimensionsVec ds = [2555904, 1024, 2]"
    and sz: "mDatatypeSize ds = 4"
    and cls: "mDatatypeClass ds = H5T_FLOAT" and buf: "\<not> mDataBuffer_set ds"
    and env: "malloc_succeeds env 20937965568" "H5Dread_succeeds env"
  shows "loadTreeItem env p ITEM_TYPE_VARIABLE ds =
      Inr (True,
           p\<lparr> mUniqueModVec := mUniqueModVec p @ [mSingleModulation p],
              mUniqueSnrVec := mUniqueSnrVec p @ map h5_snr [0..<26],
              mMap := h5_map (mMap p) (X_floats env)
                        (h5_modOffset (mSingleModulation p) * 218103808)
                        (mSingleModulation p) 26 \<rparr>,
           [Malloc 20937965568, H5Dread H5S_ALL H5S_ALL, Free])"
proof -
  have off: "h5_modOffset (mSingleModulation p) < 24" by (rule h5_modOffset_bound)
  have st: "h5_state p X START 106496
      = \<lparr> h5_parser = p\<lparr> mUniqueModVec := mUniqueModVec p @ [mSingleModulation p],
                         mUniqueSnrVec := mUniqueSnrVec p @ map h5_snr [0..<26],
                         mMap := h5_map (mMap p) X START (mSingleModulation p) 26 \<rparr>,
          h5_oldSnrDb = h5_snr 25,
          h5_modSnrPair = (mSingleModulation p, h5_snr 25),
          h5_signalData = h5_block X START 25 4096,
          h5_frameData = h5_frame X START 106495,
          h5_status = True \<rparr>" for X START
    unfolding h5_state_def by simp
  show ?thesis
    unfolding loadTreeItem_cube [OF dims sz cls buf env] h5_loop_slab [OF off] st
    by simp
qed

text \<open>
  Claim C4, as amended. The single-modulation parse calls
  \<^verbatim>\<open>loadTreeItem\<close> for the dataset \<open>X\<close> once its shape
  is (2555904, 1024, 2), with the map of the parser cleared. For such a dataset of 4-byte
  floats, \<^verbatim>\<open>loadTreeItem\<close> loads the whole cube: it requests one buffer
  of 20937965568 bytes, which is 4 bytes for each of the 5234491392 elements of the dataset,
  and reads the dataset with \<^verbatim>\<open>H5S_ALL\<close> for both dataspaces, which
  selects every element. Of the buffer it folds the floats with the indices from
  \<open>modOffset * 218103808\<close> up to \<open>(modOffset + 1) * 218103808\<close>,
  the slab of the chosen modulation, and only these. It returns the status true; the
  modulation is appended to the modulations and the 26 SNRs from -20 to 30 in steps of 2 to
  the SNRs; for each of them, number \<open>s\<close>, the map holds under the modulation and
  the SNR an entry of 4096 frames of 1024 points, where the point \<open>k\<close> of the frame
  \<open>f\<close> is the pair of the floats with the indices
  \<open>modOffset * 218103808 + 2048 * (4096 * s + f) + 2 * k\<close> and the next one, and
  \<open>maxVal\<close> is the largest absolute value of a component of these points; the other
  keys of the map are as before. The status and the parser returned are the same for any
  other contents of the dataset outside the slab.
\<close>

theorem loadTreeItem_loads_the_whole_cube:
  assumes "mDimensionsVec ds = [2555904, 1024, 2]" and "mDatatypeSize ds = 4"
    and "mDatatypeClass ds = H5T_FLOAT" and "\<not> mDataBuffer_set ds"
    and "malloc_succeeds env 20937965568" and "H5Dread_succeeds env"
    and "\<forall>s<26. mMap p (mSingleModulation p, - 20 + 2 * int s) = None"
    and "\<forall>j. h5_modOffset (mSingleModulation p) * 218103808 \<le> j
              \<and> j < (h5_modOffset (mSingleModulation p) + 1) * 218103808
           \<longrightarrow> floats j = X_floats env j"
  shows "h5_nrOfElements ds = 5234491392
       \<and> h5_TOTAL_BYTES ds = 4 * h5_nrOfElements ds
       \<and> H5S_selected H5S_ALL (h5_nrOfElements ds) = {0..<5234491392}
       \<and> (\<exists>p'.
             loadTreeItem env p ITEM_TYPE_VARIABLE ds
               = Inr (True, p', [Malloc (h5_TOTAL_BYTES ds), H5Dread H5S_ALL H5S_ALL, Free])
           \<and> loadTreeItem (env\<lparr>X_floats := floats\<rparr>) p ITEM_TYPE_VARIABLE ds
               = Inr (True, p', [Malloc (h5_TOTAL_BYTES ds), H5Dread H5S_ALL H5S_ALL, Free])
           \<and> mUniqueModVec p' = mUniqueModVec p @ [mSingleModulation p]
           \<and> mUniqueSnrVec p' = mUniqueSnrVec p @ map (\<lambda>s. - 20 + 2 * int s) [0..<26]
           \<and> (\<forall>s<26. \<exists>sd.
                  mMap p' (mSingleModulation p, - 20 + 2 * int s) = Some sd
                \<and> length (frameDataVec sd) = 4096
                \<and> (\<forall>f<4096. length (frameDataVec sd ! f) = 1024
                      \<and> (\<forall>k<1024. frameDataVec sd ! f ! k
                            = (X_floats env (h5_modOffset (mSingleModulation p) * 218103808
                                              + 2048 * (4096 * s + f) + 2 * k),
                               X_floats env (h5_modOffset (mSingleModulation p) * 218103808
                                              + 2048 * (4096 * s + f) + 2 * k + 1))))
                \<and> maxVal sd = foldl raise_max 0 (concat (frameDataVec sd)))
           \<and> (\<forall>key. (\<forall>s<26. key \<noteq> (mSingleModulation p, - 20 + 2 * int s))
                  \<longrightarrow> mMap p' key = mMap p key))"
proof -
  define START where "START = h5_modOffset (mSingleModulation p) * 218103808"
  define p' where "p' = p\<lparr> mUniqueModVec := mUniqueModVec p @ [mSingleModulation p],
      mUniqueSnrVec := mUniqueSnrVec p @ map h5_snr [0..<26],
      mMap := h5_map (mMap p) (X_floats env) START (mSingleModulation p) 26 \<rparr>"
  have nr: "h5_nrOfElements ds = 5234491392" using assms(1) by (rule h5_cube(1))
  have tb: "h5_TOTAL_BYTES ds = 20937965568"
    using h5_cube(2) [OF assms(1)] by (simp add: assms(2) size_t_wrap_def)
  have a: "loadTreeItem env p ITEM_TYPE_VARIABLE ds
      = Inr (True, p', [Malloc 20937965568, H5Dread H5S_ALL H5S_ALL, Free])"
    unfolding p'_def START_def by (rule loadTreeItem_slab [OF assms(1-6)])
  have b: "loadTreeItem (env\<lparr>X_floats := floats\<rparr>) p ITEM_TYPE_VARIABLE ds
      = Inr (True, p', [Malloc 20937965568, H5Dread H5S_ALL H5S_ALL, Free])"
    using loadTreeItem_cube_agree [OF assms(1-6) assms(8)] a by auto
  have mods: "mUniqueModVec p' = mUniqueModVec p @ [mSingleModulation p]"
    by (simp add: p'_def)
  have snrs: "mUniqueSnrVec p' = mUniqueSnrVec p @ map (\<lambda>s. - 20 + 2 * int s) [0..<26]"
    unfolding p'_def h5_snr_fun by simp
  have entries: "\<exists>sd. mMap p' (mSingleModulation p, - 20 + 2 * int s) = Some sd
        \<and> length (frameDataVec sd) = 4096
        \<and> (\<forall>f<4096. length (frameDataVec sd ! f) = 1024
              \<and> (\<forall>k<1024. frameDataVec sd ! f ! k
                    = (X_floats env (START + 2048 * (4096 * s + f) + 2 * k),
                       X_floats env (START + 2048 * (4096 * s + f) + 2 * k + 1))))
        \<and> maxVal sd = foldl raise_max 0 (concat (frameDataVec sd))" if s: "s < 26" for s
  proof -
    have free: "mMap p (mSingleModulation p, h5_snr s) = None"
      using assms(7) s by (simp add: h5_snr_def)
    have "mMap p' (mSingleModulation p, h5_snr s)
        = Some (h5_block (X_floats env) START s 4096)"
      unfolding p'_def using s free by (simp add: h5_map_lookup)
    then have e: "mMap p' (mSingleModulation p, - 20 + 2 * int s)
        = Some (h5_block (X_floats env) START s 4096)"
      by (simp add: h5_snr_def)
    show ?thesis
      unfolding e
      by (intro exI [of _ "h5_block (X_floats env) START s 4096"] conjI allI impI)
         (simp_all add: h5_block_length h5_block_point h5_block_frame_length h5_block_max)
  qed
  have others: "mMap p' key = mMap p key"
    if "\<forall>s<26. key \<noteq> (mSingleModulation p, - 20 + 2 * int s)" for key
  proof -
    have "\<forall>s<26. key \<noteq> (mSingleModulation p, h5_snr s)" using that by (simp add: h5_snr_def)
    then show ?thesis unfolding p'_def by (simp add: h5_map_other)
  qed
  show ?thesis
    unfolding nr tb
    using a b mods snrs entries others
    unfolding START_def
    by (intro conjI exI [of _ p']) simp_all
qed

theorem loadTreeItem_loads_the_whole_cube_witness:
  "h5_TOTAL_BYTES X_cube = 20937965568
   \<and> (\<exists>p'.
         loadTreeItem ((host_with_memory 34359738368)\<lparr>X_floats := \<lambda>j. real (j mod 5)\<rparr>)
             (hdf5_parser_for NAME_8PSK) ITEM_TYPE_VARIABLE X_cube
           = Inr (True, p', [Malloc 20937965568, H5Dread H5S_ALL H5S_ALL, Free])
       \<and> loadTreeItem
             ((host_with_memory 34359738368)
                \<lparr>X_floats := \<lambda>j. if 1090519040 \<le> j \<and> j < 1308622848
                                  then real (j mod 5) else 7\<rparr>)
             (hdf5_parser_for NAME_8PSK) ITEM_TYPE_VARIABLE X_cube
           = Inr (True, p', [Malloc 20937965568, H5Dread H5S_ALL H5S_ALL, Free])
       \<and> mUniqueModVec p' = [NAME_8PSK]
       \<and> length (mUniqueSnrVec p') = 26
       \<and> (\<exists>sd. mMap p' (NAME_8PSK, - 20) = Some sd
              \<and> length (frameDataVec sd) = 4096
              \<and> frameDataVec sd ! 0 ! 1 = (2, 3))
       \<and> mMap p' (NAME_BPSK, - 20) = None)"
proof -
  let ?env = "(host_with_memory 34359738368)\<lparr>X_floats := \<lambda>j. real (j mod 5)\<rparr>"
  let ?floats = "\<lambda>j. if 1090519040 \<le> j \<and> j < 1308622848 then real (j mod 5) else (7 :: real)"
  let ?p = "hdf5_parser_for NAME_8PSK"
  have name: "mSingleModulation ?p = NAME_8PSK" by (simp add: hdf5_parser_for_def)
  have off: "h5_modOffset NAME_8PSK = 5"
    by (simp add: h5_modOffset_def hdf5_MODULATION_MAPPING_def)
  have free: "\<forall>s<26. mMap ?p (mSingleModulation ?p, - 20 + 2 * int s) = None"
    by (simp add: hdf5_parser_for_def DatasetParser_init_def)
  have ag: "\<forall>j. h5_modOffset (mSingleModulation ?p) * 218103808 \<le> j
              \<and> j < (h5_modOffset (mSingleModulation ?p) + 1) * 218103808
           \<longrightarrow> ?floats j = X_floats ?env j"
    by (simp add: name off)
  have h: "mDimensionsVec X_cube = [2555904, 1024, 2]" "mDatatypeSize X_cube = 4"
    "mDatatypeClass X_cube = H5T_FLOAT" "\<not> mDataBuffer_set X_cube"
    "malloc_succeeds ?env 20937965568" "H5Dread_succeeds ?env"
    by (simp_all add: X_cube_def host_with_memory_def)
  have tb: "h5_TOTAL_BYTES X_cube = 20937965568"
    using h5_cube(2) [OF h(1)] by (simp add: h(2) size_t_wrap_def)
  from loadTreeItem_loads_the_whole_cube [OF h free ag, unfolded name off tb]
  obtain p' where
    a: "loadTreeItem ?env ?p ITEM_TYPE_VARIABLE X_cube
          = Inr (True, p', [Malloc 20937965568, H5Dread H5S_ALL H5S_ALL, Free])"
    and b: "loadTreeItem (?env\<lparr>X_floats := ?floats\<rparr>) ?p ITEM_TYPE_VARIABLE X_cube
          = Inr (True, p', [Malloc 20937965568, H5Dread H5S_ALL H5S_ALL, Free])"
    and mods: "mUniqueModVec p' = mUniqueModVec ?p @ [NAME_8PSK]"
    and snrs: "mUniqueSnrVec p' = mUniqueSnrVec ?p @ map (\<lambda>s. - 20 + 2 * int s) [0..<26]"
    and ent: "\<forall>s<26. \<exists>sd.
                  mMap p' (NAME_8PSK, - 20 + 2 * int s) = Some sd
                \<and> length (frameDataVec sd) = 4096
                \<and> (\<forall>f<4096. length (frameDataVec sd ! f) = 1024
                      \<and> (\<forall>k<1024. frameDataVec sd ! f ! k
                            = (X_floats ?env (5 * 218103808 + 2048 * (4096 * s + f) + 2 * k),
                               X_floats ?env (5 * 218103808 + 2048 * (4096 * s + f) + 2 * k + 1))))
                \<and> maxVal sd = foldl raise_max 0 (concat (frameDataVec sd))"
    and oth: "\<forall>key. (\<forall>s<26. key \<noteq> (NAME_8PSK, - 20 + 2 * int s))
                  \<longrightarrow> mMap p' key = mMap ?p key"
    by blast
  from ent [rule_format, of 0] obtain sd where
    sd: "mMap p' (NAME_8PSK, - 20) = Some sd" "length (frameDataVec sd) = 4096"
    and pt: "\<forall>f<4096. length (frameDataVec sd ! f) = 1024
                \<and> (\<forall>k<1024. frameDataVec sd ! f ! k
                      = (X_floats ?env (5 * 218103808 + 2048 * (4096 * 0 + f) + 2 * k),
                         X_floats ?env (5 * 218103808 + 2048 * (4096 * 0 + f) + 2 * k + 1)))"
    by auto
  from pt [rule_format, of 0] have "frameDataVec sd ! 0 ! 1 = (2, 3)" by simp
  with sd have e: "\<exists>sd. mMap p' (NAME_8PSK, - 20) = Some sd
              \<and> length (frameDataVec sd) = 4096
              \<and> frameDataVec sd ! 0 ! 1 = (2, 3)" by blast
  have o: "mMap p' (NAME_BPSK, - 20) = None"
    using oth [rule_format, of "(NAME_BPSK, - 20)"]
    by (simp add: hdf5_parser_for_def DatasetParser_init_def)
  have m: "mUniqueModVec p' = [NAME_8PSK]" "length (mUniqueSnrVec p') = 26"
    using mods snrs by (simp_all add: hdf5_parser_for_def DatasetParser_init_def)
  have b': "loadTreeItem ((host_with_memory 34359738368)\<lparr>X_floats := ?floats\<rparr>) ?p
        ITEM_TYPE_VARIABLE X_cube
      = Inr (True, p', [Malloc 20937965568, H5Dread H5S_ALL H5S_ALL, Free])"
    using b by simp
  show ?thesis using tb a b' m e o by blast
qed

lemma parse_radioml_effects:
  assumes "malloc_succeeds env 20937965568" "H5Dread_succeeds env"
    and "mSingleModulation p \<noteq> NAME_UNKNOWN"
  shows "\<exists>p'. Hdf5Parser_parseDatasetSingleModulation env p (Some radioml_file)
           = Inr (p', [Malloc 20937965568, H5Dread H5S_ALL H5S_ALL, Free])"
proof -
  define p0 where "p0 = p\<lparr>mUniqueModVec := [], mUniqueSnrVec := [], mMap := Map.empty\<rparr>"
  have x: "mDimensionsVec X_cube = [2555904, 1024, 2]" "mDatatypeSize X_cube = 4"
    "mDatatypeClass X_cube = H5T_FLOAT" "\<not> mDataBuffer_set X_cube"
    by (simp_all add: X_cube_def)
  have "\<forall>j. h5_modOffset (mSingleModulation p0) * 218103808 \<le> j
              \<and> j < (h5_modOffset (mSingleModulation p0) + 1) * 218103808
           \<longrightarrow> X_floats env j = X_floats env j" by simp
  from loadTreeItem_cube_agree [OF x assms(1,2) this] obtain status p' where
    l: "loadTreeItem env p0 ITEM_TYPE_VARIABLE X_cube
          = Inr (status, p', [Malloc 20937965568, H5Dread H5S_ALL H5S_ALL, Free])" by blast
  have rows: "ROWS_EXPECTED_NR = 2555904" by (simp add: ROWS_EXPECTED_NR_def size_t_wrap_def)
  have ms: "NAME_UNKNOWN \<noteq> mSingleModulation p0" using assms(3) by (auto simp: p0_def)
  show ?thesis
    unfolding Hdf5Parser_parseDatasetSingleModulation_def Let_def p0_def [symmetric]
    by (cases status) (simp_all add: radioml_file_def rows l x ms)
qed

text \<open>
  The claim as stated fails on a well-shaped file: on a host that grants at most 16 GiB
  the parse for 8PSK fails after one request of 20937965568 bytes, the size of the whole
  cube and not of a slab of 872415232 bytes; on a host that grants 32 GiB the calls are
  this request, one read that selects all the 5234491392 elements, and the release.
\<close>

theorem hdf5_parse_counterexample:
  "Hdf5Parser_parseDatasetSingleModulation (host_with_memory 17179869184)
       (hdf5_parser_for NAME_8PSK) (Some radioml_file)
     = Inr ((hdf5_parser_for NAME_8PSK)\<lparr>mStatus := False\<rparr>, [Malloc 20937965568])
   \<and> snd (projr (Hdf5Parser_parseDatasetSingleModulation (host_with_memory 34359738368)
                    (hdf5_parser_for NAME_8PSK) (Some radioml_file)))
       = [Malloc 20937965568, H5Dread H5S_ALL H5S_ALL, Free]
   \<and> H5S_selected H5S_ALL (h5_nrOfElements X_cube) = {0..<5234491392}"
proof -
  have rows: "ROWS_EXPECTED_NR = 2555904" by (simp add: ROWS_EXPECTED_NR_def size_t_wrap_def)
  have nr: "h5_nrOfElements X_cube = 5234491392"
    by (rule h5_cube(1)) (simp add: X_cube_def)
  have tb: "h5_TOTAL_BYTES X_cube = 20937965568"
    using h5_cube(2) [of X_cube] by (simp add: X_cube_def size_t_wrap_def)
  have xc: "mDimensionsVec X_cube = [2555904, 1024, 2]" "mDatatypeClass X_cube = H5T_FLOAT"
    "\<not> mDataBuffer_set X_cube" by (simp_all add: X_cube_def)
  have small: "loadTreeItem (host_with_memory 17179869184) (hdf5_parser_for NAME_8PSK)
        ITEM_TYPE_VARIABLE X_cube
      = Inr (False, hdf5_parser_for NAME_8PSK, [Malloc 20937965568])"
    by (simp add: loadTreeItem_def tb xc host_with_memory_def Let_def)
  have p0: "(hdf5_parser_for NAME_8PSK)\<lparr>mUniqueModVec := [], mUniqueSnrVec := [], mMap := Map.empty\<rparr>
      = hdf5_parser_for NAME_8PSK"
    by (simp add: hdf5_parser_for_def DatasetParser_init_def)
  have a: "Hdf5Parser_parseDatasetSingleModulation (host_with_memory 17179869184)
       (hdf5_parser_for NAME_8PSK) (Some radioml_file)
     = Inr ((hdf5_parser_for NAME_8PSK)\<lparr>mStatus := False\<rparr>, [Malloc 20937965568])"
    unfolding Hdf5Parser_parseDatasetSingleModulation_def p0 Let_def
    by (simp add: radioml_file_def rows small xc) (simp add: hdf5_parser_for_def)
  have "malloc_succeeds (host_with_memory 34359738368) 20937965568"
    "H5Dread_succeeds (host_with_memory 34359738368)"
    "mSingleModulation (hdf5_parser_for NAME_8PSK) \<noteq> NAME_UNKNOWN"
    by (simp_all add: host_with_memory_def hdf5_parser_for_def)
  from parse_radioml_effects [OF this] obtain p' where
    "Hdf5Parser_parseDatasetSingleModulation (host_with_memory 34359738368)
        (hdf5_parser_for NAME_8PSK) (Some radioml_file)
      = Inr (p', [Malloc 20937965568, H5Dread H5S_ALL H5S_ALL, Free])" by blast
  then show ?thesis using a by (simp add: nr)
qed

end
